theory Spec2Isabelle
  imports Main "HOL-Library.Word" "HOL-Library.Monad_Syntax"
begin

unbundle bit_operations_syntax

section \<open>The charger manager (drivers/power/supply/charger-manager.c)\<close>

text \<open>
  A shallow embedding of the decision engine of the charger manager. Every C function
  that is modelled keeps its name. The conventions:
  \<^item> the fields of \<^verbatim>\<open>struct charger_desc\<close> (\<^verbatim>\<open>cm->desc\<close>), of
    \<^verbatim>\<open>struct charger_manager\<close>, and the file's globals and function-local statics are
    the fields of one record, built by record extension in that order (the statics of the
    JEITA monitor are a record of their own);
  \<^item> the power supplies (charger ICs, fast charger, fuel gauge), the clocks and the
    tracking file are the environment \<open>env\<close>: a register read is a function of the
    supply's name and the property, a register write is answered by a return code that
    may depend on everything done before, and every write is appended to \<open>effects\<close>,
    as is every uevent, every \<^verbatim>\<open>power_supply_changed\<close> and every queued work;
  \<^item> C \<^verbatim>\<open>int\<close>s are integers; the quantities of the driver (micro-volts, micro-amperes,
    tenths of a degree, per mille, seconds) stay far from the 32-bit limits, and no
    wrap-around is modelled for them, nor for \<^verbatim>\<open>jiffies\<close>. \<^verbatim>\<open>/\<close> is C's truncating
    division. The words of the tracking file, and the capacities computed from them, are
    32-bit machine words;
  \<^item> a function that may not return (a division by zero, unbounded mutual recursion)
    returns an \<open>option\<close>; \<open>None\<close> is "no normal return";
  \<^item> logging (\<^verbatim>\<open>dev_info\<close>, \<^verbatim>\<open>dev_err\<close>, ...) is left out.
\<close>

subsection \<open>Constants\<close>

abbreviation (input) CM_DEFAULT_RECHARGE_TEMP_DIFF :: int where "CM_DEFAULT_RECHARGE_TEMP_DIFF \<equiv> 50"
abbreviation (input) CM_DEFAULT_CHARGE_TEMP_MAX :: int where "CM_DEFAULT_CHARGE_TEMP_MAX \<equiv> 500"
abbreviation (input) CM_CAP_CYCLE_TRACK_TIME :: int where "CM_CAP_CYCLE_TRACK_TIME \<equiv> 15"
abbreviation (input) CM_FORCE_SET_FUEL_CAP_FULL :: int where "CM_FORCE_SET_FUEL_CAP_FULL \<equiv> 1000"
abbreviation (input) CM_LOW_TEMP_REGION :: int where "CM_LOW_TEMP_REGION \<equiv> 100"
abbreviation (input) CM_UVLO_CALIBRATION_VOLTAGE_THRESHOLD :: int where
  "CM_UVLO_CALIBRATION_VOLTAGE_THRESHOLD \<equiv> 3250000"
abbreviation (input) CM_UVLO_CALIBRATION_CNT_THRESHOLD :: int where "CM_UVLO_CALIBRATION_CNT_THRESHOLD \<equiv> 5"
abbreviation (input) CM_LOW_TEMP_SHUTDOWN_VALTAGE :: int where "CM_LOW_TEMP_SHUTDOWN_VALTAGE \<equiv> 3200000"
abbreviation (input) CM_TRACK_CAPACITY_SHUTDOWN_START_VOLTAGE :: int where
  "CM_TRACK_CAPACITY_SHUTDOWN_START_VOLTAGE \<equiv> 3500000"
abbreviation (input) CM_TRACK_CAPACITY_START_VOLTAGE :: int where "CM_TRACK_CAPACITY_START_VOLTAGE \<equiv> 3650000"
abbreviation (input) CM_TRACK_CAPACITY_START_CURRENT :: int where "CM_TRACK_CAPACITY_START_CURRENT \<equiv> 30000"
abbreviation (input) CM_TRACK_CAPACITY_KEY0 :: "32 word" where "CM_TRACK_CAPACITY_KEY0 \<equiv> 0x20160726"
abbreviation (input) CM_TRACK_CAPACITY_KEY1 :: "32 word" where "CM_TRACK_CAPACITY_KEY1 \<equiv> 0x15211517"
abbreviation (input) CM_TRACK_CAPACITY_VOLTAGE_OFFSET :: int where "CM_TRACK_CAPACITY_VOLTAGE_OFFSET \<equiv> 5000"
abbreviation (input) CM_TRACK_CAPACITY_CURRENT_OFFSET :: int where "CM_TRACK_CAPACITY_CURRENT_OFFSET \<equiv> 5000"
abbreviation (input) CM_TRACK_HIGH_TEMP_THRESHOLD :: int where "CM_TRACK_HIGH_TEMP_THRESHOLD \<equiv> 450"
abbreviation (input) CM_TRACK_LOW_TEMP_THRESHOLD :: int where "CM_TRACK_LOW_TEMP_THRESHOLD \<equiv> 150"
abbreviation (input) CM_TRACK_TIMEOUT_THRESHOLD :: int where "CM_TRACK_TIMEOUT_THRESHOLD \<equiv> 108000"
abbreviation (input) CM_TRACK_START_CAP_THRESHOLD :: int where "CM_TRACK_START_CAP_THRESHOLD \<equiv> 200"
abbreviation (input) CM_CAP_ONE_PERCENT :: int where "CM_CAP_ONE_PERCENT \<equiv> 10"
abbreviation (input) CM_HCAP_DECREASE_STEP :: int where "CM_HCAP_DECREASE_STEP \<equiv> 8"
abbreviation (input) CM_HCAP_THRESHOLD :: int where "CM_HCAP_THRESHOLD \<equiv> 955"
abbreviation (input) CM_CAP_FULL_PERCENT :: int where "CM_CAP_FULL_PERCENT \<equiv> 1000"
abbreviation (input) CM_CAP_MAGIC_NUM :: int where "CM_CAP_MAGIC_NUM \<equiv> 0x5A5AA5A5"
abbreviation (input) CM_FAST_CHARGE_ENABLE_BATTERY_VOLTAGE :: int where
  "CM_FAST_CHARGE_ENABLE_BATTERY_VOLTAGE \<equiv> 3400000"
abbreviation (input) CM_FAST_CHARGE_DISABLE_BATTERY_VOLTAGE :: int where
  "CM_FAST_CHARGE_DISABLE_BATTERY_VOLTAGE \<equiv> 3400000"
abbreviation (input) CM_FAST_CHARGE_VOLTAGE_9V :: int where "CM_FAST_CHARGE_VOLTAGE_9V \<equiv> 9000000"
abbreviation (input) CM_FAST_CHARGE_VOLTAGE_5V :: int where "CM_FAST_CHARGE_VOLTAGE_5V \<equiv> 5000000"
abbreviation (input) CM_FAST_CHARGE_ENABLE_COUNT :: int where "CM_FAST_CHARGE_ENABLE_COUNT \<equiv> 2"
abbreviation (input) CM_FAST_CHARGE_DISABLE_COUNT :: int where "CM_FAST_CHARGE_DISABLE_COUNT \<equiv> 2"
abbreviation (input) UEVENT_BUF_SIZE :: nat where "UEVENT_BUF_SIZE \<equiv> 32"

text \<open>Kernel constants (errno.h, linux/power_supply.h).\<close>

abbreviation (input) EAGAIN :: int where "EAGAIN \<equiv> 11"
abbreviation (input) ENODEV :: int where "ENODEV \<equiv> 19"
abbreviation (input) EINVAL :: int where "EINVAL \<equiv> 22"
abbreviation (input) POWER_SUPPLY_STATUS_UNKNOWN :: int where "POWER_SUPPLY_STATUS_UNKNOWN \<equiv> 0"
abbreviation (input) POWER_SUPPLY_STATUS_CHARGING :: int where "POWER_SUPPLY_STATUS_CHARGING \<equiv> 1"
abbreviation (input) POWER_SUPPLY_STATUS_DISCHARGING :: int where "POWER_SUPPLY_STATUS_DISCHARGING \<equiv> 2"
abbreviation (input) POWER_SUPPLY_STATUS_NOT_CHARGING :: int where "POWER_SUPPLY_STATUS_NOT_CHARGING \<equiv> 3"
abbreviation (input) POWER_SUPPLY_STATUS_FULL :: int where "POWER_SUPPLY_STATUS_FULL \<equiv> 4"
abbreviation (input) POWER_SUPPLY_HEALTH_UNKNOWN :: int where "POWER_SUPPLY_HEALTH_UNKNOWN \<equiv> 0"
abbreviation (input) POWER_SUPPLY_HEALTH_GOOD :: int where "POWER_SUPPLY_HEALTH_GOOD \<equiv> 1"
abbreviation (input) POWER_SUPPLY_USB_TYPE_UNKNOWN :: int where "POWER_SUPPLY_USB_TYPE_UNKNOWN \<equiv> 0"
abbreviation (input) POWER_SUPPLY_USB_TYPE_SDP :: int where "POWER_SUPPLY_USB_TYPE_SDP \<equiv> 1"
abbreviation (input) POWER_SUPPLY_USB_TYPE_DCP :: int where "POWER_SUPPLY_USB_TYPE_DCP \<equiv> 2"
abbreviation (input) POWER_SUPPLY_USB_TYPE_CDP :: int where "POWER_SUPPLY_USB_TYPE_CDP \<equiv> 3"
abbreviation (input) POWER_SUPPLY_USB_TYPE_PD :: int where "POWER_SUPPLY_USB_TYPE_PD \<equiv> 6"
abbreviation (input) POWER_SUPPLY_CHARGE_TYPE_FAST :: int where "POWER_SUPPLY_CHARGE_TYPE_FAST \<equiv> 3"

subsection \<open>Data model\<close>

datatype power_supply_property =
    POWER_SUPPLY_PROP_PRESENT | POWER_SUPPLY_PROP_ONLINE | POWER_SUPPLY_PROP_STATUS
  | POWER_SUPPLY_PROP_HEALTH | POWER_SUPPLY_PROP_USB_TYPE | POWER_SUPPLY_PROP_CHARGE_TYPE
  | POWER_SUPPLY_PROP_VOLTAGE_AVG | POWER_SUPPLY_PROP_VOLTAGE_NOW | POWER_SUPPLY_PROP_VOLTAGE_OCV
  | POWER_SUPPLY_PROP_VOLTAGE_BOOT | POWER_SUPPLY_PROP_VOLTAGE_MAX
  | POWER_SUPPLY_PROP_CURRENT_AVG | POWER_SUPPLY_PROP_CURRENT_NOW
  | POWER_SUPPLY_PROP_CONSTANT_CHARGE_VOLTAGE | POWER_SUPPLY_PROP_CONSTANT_CHARGE_VOLTAGE_MAX
  | POWER_SUPPLY_PROP_CONSTANT_CHARGE_CURRENT | POWER_SUPPLY_PROP_INPUT_CURRENT_LIMIT
  | POWER_SUPPLY_PROP_INPUT_CURRENT_NOW | POWER_SUPPLY_PROP_CAPACITY
  | POWER_SUPPLY_PROP_CAPACITY_LEVEL | POWER_SUPPLY_PROP_TEMP
  | POWER_SUPPLY_PROP_ENERGY_FULL_DESIGN | POWER_SUPPLY_PROP_ENERGY_NOW
  | POWER_SUPPLY_PROP_CHARGE_FULL | POWER_SUPPLY_PROP_CHARGE_NOW
  | POWER_SUPPLY_PROP_CHARGE_ENABLED | POWER_SUPPLY_PROP_CALIBRATE
  | POWER_SUPPLY_PROP_FEED_WATCHDOG

datatype cm_event_types =
    CM_EVENT_UNKNOWN | CM_EVENT_BATT_FULL | CM_EVENT_BATT_IN | CM_EVENT_BATT_OUT
  | CM_EVENT_BATT_OVERHEAT | CM_EVENT_BATT_COLD | CM_EVENT_EXT_PWR_IN_OUT
  | CM_EVENT_CHG_START_STOP | CM_EVENT_OTHERS | CM_EVENT_FAST_CHARGE

text \<open>
  The bits of \<^verbatim>\<open>cm->charging_status\<close>. The header that gives them their values is not
  part of the sources; they are distinct flags, and the status word is the set of the
  flags that are set: \<^verbatim>\<open>status != 0\<close> is \<open>status \<noteq> {}\<close>, \<^verbatim>\<open>status & F\<close> is
  \<open>F \<in> status\<close>, \<^verbatim>\<open>status |= F\<close> is \<open>insert F status\<close>, \<^verbatim>\<open>status &= ~F\<close> is
  \<open>status - {F}\<close>.
\<close>

datatype cm_charge_status =
    CM_CHARGE_TEMP_OVERHEAT | CM_CHARGE_TEMP_COLD | CM_CHARGE_VOLTAGE_ABNORMAL
  | CM_CHARGE_HEALTH_ABNORMAL | CM_CHARGE_DURATION_ABNORMAL

datatype data_source = CM_BATTERY_PRESENT | CM_NO_BATTERY | CM_FUEL_GAUGE | CM_CHARGER_STAT

datatype polling_modes =
    CM_POLL_DISABLE | CM_POLL_ALWAYS | CM_POLL_EXTERNAL_POWER_ONLY | CM_POLL_CHARGING_ONLY

datatype cm_jeita_types = CM_JEITA_DCP | CM_JEITA_SDP | CM_JEITA_CDP | CM_JEITA_UNKNOWN | CM_JEITA_FCHG

datatype cm_track_state =
    CAP_TRACK_INIT | CAP_TRACK_IDLE | CAP_TRACK_UPDATING | CAP_TRACK_DONE | CAP_TRACK_ERR

record charger_jeita_table =
  temp :: int
  recovery_temp :: int
  current_ua :: int
  term_volt :: int

datatype cm_work =
    WORK_cm_monitor | WORK_setup_polling | WORK_fullbatt_vchk | WORK_cap_update
  | WORK_uvlo | WORK_track_capacity

text \<open>What the driver does to the outside, in the order it does it.\<close>

datatype effect =
    PsySet string power_supply_property int int
      \<comment> \<open>\<^verbatim>\<open>power_supply_set_property(psy, prop, val)\<close> on the named supply, and its return code\<close>
  | Uevent string
      \<comment> \<open>\<^verbatim>\<open>kobject_uevent(KOBJ_CHANGE)\<close>, with the message then in \<^verbatim>\<open>env_str\<close>\<close>
  | PsyChanged
      \<comment> \<open>\<^verbatim>\<open>power_supply_changed(cm->charger_psy)\<close>\<close>
  | QueueWork cm_work int
      \<comment> \<open>a work queued or re-armed, with its delay in milliseconds\<close>
  | CancelWork cm_work
  | FileWrite "32 word" "32 word" int
      \<comment> \<open>\<^verbatim>\<open>kernel_write\<close> of the two words to the tracking file, and its return code\<close>
  | Poweroff
      \<comment> \<open>\<^verbatim>\<open>orderly_poweroff(true)\<close>\<close>
  | WakeupCapable bool
      \<comment> \<open>\<^verbatim>\<open>device_set_wakeup_capable(cm->dev, b)\<close>\<close>
  | AlarmStart int
  | AlarmCancel

record charger_desc =
  polling_mode :: polling_modes
  polling_interval_ms :: int
  fullbatt_vchkdrop_ms :: int
  fullbatt_vchkdrop_uV :: int
  fullbatt_uV :: int
  fullbatt_uA :: int
  first_fullbatt_uA :: int
  fullbatt_soc :: int
  fullbatt_full_capacity :: int
  battery_present :: data_source
  psy_charger_stat :: "string list"
    \<comment> \<open>the NULL-terminated array of names: \<^verbatim>\<open>psy_charger_stat[i]\<close> is non-NULL iff \<open>i < length\<close>\<close>
  psy_fast_charger_stat :: "string list"
  psy_fuel_gauge :: string
  externally_control :: "bool list"
    \<comment> \<open>\<^verbatim>\<open>charger_regulators[i].externally_control\<close>, \<open>i < num_charger_regulators\<close>\<close>
  temp_min :: int
  temp_max :: int
  temp_diff :: int
  cap :: int
  measure_battery_temp :: bool
  charging_max_duration_ms :: int
  discharging_max_duration_ms :: int
  charge_voltage_max :: int
  charge_voltage_drop :: int
  normal_charge_voltage_max :: int
  normal_charge_voltage_drop :: int
  fast_charge_voltage_max :: int
  fast_charge_voltage_drop :: int
  double_ic_total_limit_current :: int
  jeita_tab :: "charger_jeita_table list"
  jeita_tab_size :: int
  jeita_disabled :: bool
  jeita_tab_array :: "cm_jeita_types \<Rightarrow> charger_jeita_table list"
  temperature :: int
  shutdown_voltage :: int
  trickle_time_out :: int
  cap_one_time :: int
  wdt_interval :: int
  trickle_time :: int
  trickle_start_time :: int
  update_capacity_time :: int
  last_query_time :: int
  force_set_full :: bool
  charger_status :: int
  charger_type :: int
  first_trigger_cnt :: int
  trigger_cnt :: int
  uvlo_trigger_cnt :: int
  low_temp_trigger_cnt :: int
  thm_adjust_cur :: int
  is_fast_charge :: bool
  enable_fast_charge :: bool
  fast_charge_enable_count :: int
  fast_charge_disable_count :: int

record charger_manager = charger_desc +
  charger_enabled :: bool
  emergency_stop :: cm_event_types
    \<comment> \<open>\<^verbatim>\<open>int emergency_stop\<close>: 0 (\<open>CM_EVENT_UNKNOWN\<close>) or the latched temperature event\<close>
  charging_status :: "cm_charge_status set"
  charging_start_time :: int
  charging_end_time :: int
  fullbatt_vchk_jiffies_at :: int
  tzd_batt :: bool
    \<comment> \<open>\<^verbatim>\<open>cm->tzd_batt != NULL\<close> (never with \<^verbatim>\<open>CONFIG_THERMAL\<close> off)\<close>
  track_cap_tracking :: bool
  track_state :: cm_track_state
  track_start_cap :: int
  track_start_clbcnt :: int
  track_start_time :: int
  track_end_vol :: int
  track_end_cur :: int

text \<open>
  The statics of \<^verbatim>\<open>cm_manager_jeita_current_monitor\<close> are kept apart from the rest of the
  state: as in C, only that function receives them.
\<close>

record jeita_monitor_statics =
  last_jeita_status :: int
  temp_up_trigger :: int
  temp_down_trigger :: int
  is_normal :: bool

record cm_world = charger_manager +
  cm_suspended :: bool
  cm_timer_set :: bool
  cm_suspend_duration_ms :: int
  next_polling :: int
  allow_charger_enable :: bool
  is_charger_mode :: bool
  env_str :: string
    \<comment> \<open>static of \<^verbatim>\<open>uevent_notify\<close>: the last message delivered\<close>
  env_str_save :: string
    \<comment> \<open>static of \<^verbatim>\<open>uevent_notify\<close>: the message kept while suspended, \<open>[]\<close> when none\<close>
  jeita_status :: int
    \<comment> \<open>static of \<^verbatim>\<open>cm_manager_get_jeita_status\<close>\<close>
  retry_cnt :: int
    \<comment> \<open>static of \<^verbatim>\<open>cm_track_capacity_work\<close>\<close>
  last_fuel_cap :: int
    \<comment> \<open>static of \<^verbatim>\<open>cm_batt_works\<close>\<close>
  WIRELESS_ONLINE :: int
  AC_ONLINE :: int
  USB_ONLINE :: int
  effects :: "effect list"

text \<open>
  The environment of one entry into the driver. \<open>psy_set\<close> is given the effects so far:
  the same write may succeed at one moment and fail at the next.
  \<open>CM_FAST_CHARGE_ENABLE_CMD\<close> and \<open>CM_FAST_CHARGE_DISABLE_CMD\<close> are macros of a header
  that is not part of the sources; their values are parameters.
\<close>

record env =
  psy_found :: "string \<Rightarrow> bool"
    \<comment> \<open>\<^verbatim>\<open>power_supply_get_by_name(name) != NULL\<close>\<close>
  psy_get :: "string \<Rightarrow> power_supply_property \<Rightarrow> int \<times> int"
    \<comment> \<open>\<^verbatim>\<open>power_supply_get_property\<close>: the return code and \<^verbatim>\<open>val.intval\<close>\<close>
  psy_set :: "effect list \<Rightarrow> string \<Rightarrow> power_supply_property \<Rightarrow> int \<Rightarrow> int"
  ktime_ms :: int
    \<comment> \<open>\<^verbatim>\<open>ktime_to_ms(ktime_get())\<close>\<close>
  boottime_sec :: int
    \<comment> \<open>\<^verbatim>\<open>ktime_get_boottime()\<close> in seconds\<close>
  thermal_zone_get_temp :: "int \<times> int"
  ocv2cap :: "int \<Rightarrow> int"
    \<comment> \<open>\<^verbatim>\<open>power_supply_ocv2cap_simple(cm->desc->cap_table, cm->desc->cap_table_len, ocv)\<close>\<close>
  filp_open_ok :: bool
    \<comment> \<open>\<^verbatim>\<open>!IS_ERR(filp_open(CM_TRACK_FILE_PATH, ...))\<close>\<close>
  kernel_read :: "int \<times> 32 word \<times> 32 word"
    \<comment> \<open>the return code and what \<^verbatim>\<open>file_buf\<close> holds after the call\<close>
  kernel_write :: "32 word \<Rightarrow> 32 word \<Rightarrow> int"
  CM_FAST_CHARGE_ENABLE_CMD :: int
  CM_FAST_CHARGE_DISABLE_CMD :: int
  jiffies :: int
  jiffies_to_msecs :: "int \<Rightarrow> int"
  msecs_to_jiffies :: "int \<Rightarrow> int"
  cm_timer :: bool
    \<comment> \<open>\<^verbatim>\<open>cm_timer != NULL\<close>: the probe has allocated the wake-up alarm\<close>
  alarm_expires_remaining :: int
    \<comment> \<open>\<^verbatim>\<open>ktime_to_ms(alarm_expires_remaining(cm_timer))\<close>\<close>

subsection \<open>C arithmetic\<close>

definition c_div :: "int \<Rightarrow> int \<Rightarrow> int" where
  "c_div a b = (if (a < 0) = (b < 0) then \<bar>a\<bar> div \<bar>b\<bar> else - (\<bar>a\<bar> div \<bar>b\<bar>))"

text \<open>\<^verbatim>\<open>DIV_ROUND_CLOSEST(x, d)\<close> of linux/kernel.h for signed \<^verbatim>\<open>int\<close> operands.\<close>

definition DIV_ROUND_CLOSEST :: "int \<Rightarrow> int \<Rightarrow> int" where
  "DIV_ROUND_CLOSEST x d =
     (if (x > 0) = (d > 0) then c_div (x + c_div d 2) d else c_div (x - c_div d 2) d)"

text \<open>
  The kernel's \<^verbatim>\<open>abs()\<close> on a \<^verbatim>\<open>u32\<close>: the operand is read as a signed \<^verbatim>\<open>int\<close>, and the
  result goes back into the unsigned comparison.
\<close>

definition abs_u32 :: "32 word \<Rightarrow> 32 word" where
  "abs_u32 x = (if sint x < 0 then - x else x)"

subsection \<open>Access to the power supplies\<close>

definition power_supply_set_property ::
  "env \<Rightarrow> string \<Rightarrow> power_supply_property \<Rightarrow> int \<Rightarrow> cm_world \<Rightarrow> int \<times> cm_world" where
  "power_supply_set_property e name prop v s =
     (let ret = psy_set e (effects s) name prop v
      in (ret, s\<lparr>effects := effects s @ [PsySet name prop v ret]\<rparr>))"

text \<open>
  The getters of the fuel gauge (\<^verbatim>\<open>get_batt_uV\<close>, \<^verbatim>\<open>get_batt_uA\<close>, ...) share one body:
  \<^verbatim>\<open>-ENODEV\<close> when the gauge is not registered, else the property's return code and, on
  success, its value. The value of a failed read is never used by the callers.
\<close>

definition fuel_gauge_get :: "env \<Rightarrow> cm_world \<Rightarrow> power_supply_property \<Rightarrow> int \<times> int" where
  "fuel_gauge_get e s prop =
     (if \<not> psy_found e (psy_fuel_gauge s) then (- ENODEV, 0)
      else psy_get e (psy_fuel_gauge s) prop)"

definition get_batt_uA :: "env \<Rightarrow> cm_world \<Rightarrow> int \<times> int" where
  "get_batt_uA e s = fuel_gauge_get e s POWER_SUPPLY_PROP_CURRENT_AVG"

definition get_batt_cur_now :: "env \<Rightarrow> cm_world \<Rightarrow> int \<times> int" where
  "get_batt_cur_now e s = fuel_gauge_get e s POWER_SUPPLY_PROP_CURRENT_NOW"

definition get_batt_uV :: "env \<Rightarrow> cm_world \<Rightarrow> int \<times> int" where
  "get_batt_uV e s = fuel_gauge_get e s POWER_SUPPLY_PROP_VOLTAGE_AVG"

definition get_batt_ocv :: "env \<Rightarrow> cm_world \<Rightarrow> int \<times> int" where
  "get_batt_ocv e s = fuel_gauge_get e s POWER_SUPPLY_PROP_VOLTAGE_OCV"

definition get_batt_boot_vol :: "env \<Rightarrow> cm_world \<Rightarrow> int \<times> int" where
  "get_batt_boot_vol e s = fuel_gauge_get e s POWER_SUPPLY_PROP_VOLTAGE_BOOT"

definition get_batt_cap :: "env \<Rightarrow> cm_world \<Rightarrow> int \<times> int" where
  "get_batt_cap e s = fuel_gauge_get e s POWER_SUPPLY_PROP_CAPACITY"

definition get_charge_voltage :: "env \<Rightarrow> cm_world \<Rightarrow> int \<times> int" where
  "get_charge_voltage e s = fuel_gauge_get e s POWER_SUPPLY_PROP_CONSTANT_CHARGE_VOLTAGE"

definition get_batt_total_cap :: "env \<Rightarrow> cm_world \<Rightarrow> int \<times> int" where
  "get_batt_total_cap e s = fuel_gauge_get e s POWER_SUPPLY_PROP_ENERGY_FULL_DESIGN"

definition get_batt_energy_now :: "env \<Rightarrow> cm_world \<Rightarrow> int \<times> int" where
  "get_batt_energy_now e s = fuel_gauge_get e s POWER_SUPPLY_PROP_ENERGY_NOW"

definition get_boot_cap :: "env \<Rightarrow> cm_world \<Rightarrow> int \<times> int" where
  "get_boot_cap e s = fuel_gauge_get e s POWER_SUPPLY_PROP_CAPACITY_LEVEL"

definition cm_get_battery_temperature_by_psy :: "env \<Rightarrow> cm_world \<Rightarrow> int \<times> int" where
  "cm_get_battery_temperature_by_psy e s = fuel_gauge_get e s POWER_SUPPLY_PROP_TEMP"

text \<open>The setters of the fuel gauge: \<^verbatim>\<open>-ENODEV\<close> without a write when it is not registered.\<close>

definition fuel_gauge_set ::
  "env \<Rightarrow> power_supply_property \<Rightarrow> int \<Rightarrow> cm_world \<Rightarrow> int \<times> cm_world" where
  "fuel_gauge_set e prop v s =
     (if \<not> psy_found e (psy_fuel_gauge s) then (- ENODEV, s)
      else power_supply_set_property e (psy_fuel_gauge s) prop v s)"

text \<open>
  \<^verbatim>\<open>set_batt_total_cap\<close> is given a capacity decoded from the tracking file or computed
  on 32-bit words, so its product \<^verbatim>\<open>total_cap * 1000\<close> (line 618) is taken in a 32-bit
  \<^verbatim>\<open>int\<close>, wrapping as the kernel's compiler options make signed arithmetic wrap.
\<close>

definition set_batt_total_cap :: "env \<Rightarrow> int \<Rightarrow> cm_world \<Rightarrow> int \<times> cm_world" where
  "set_batt_total_cap e total_cap s =
     fuel_gauge_set e POWER_SUPPLY_PROP_ENERGY_FULL_DESIGN
       (sint (word_of_int (total_cap * 1000) :: 32 word)) s"

definition set_batt_cap :: "env \<Rightarrow> int \<Rightarrow> cm_world \<Rightarrow> int \<times> cm_world" where
  "set_batt_cap e c s = fuel_gauge_set e POWER_SUPPLY_PROP_CAPACITY c s"

definition adjust_fuel_cap :: "env \<Rightarrow> int \<Rightarrow> cm_world \<Rightarrow> int \<times> cm_world" where
  "adjust_fuel_cap e c s = fuel_gauge_set e POWER_SUPPLY_PROP_CALIBRATE c s"

subsection \<open>Thermal status\<close>

definition cm_get_battery_temperature :: "env \<Rightarrow> cm_world \<Rightarrow> int \<times> int" where
  "cm_get_battery_temperature e s =
     (if \<not> measure_battery_temp s then (- ENODEV, 0)
      else if tzd_batt s then
        (case thermal_zone_get_temp e of
           (ret, t) \<Rightarrow> if ret = 0 then (0, c_div t 100) else (ret, t))
      else (0, temperature s))"

definition cm_check_thermal_status :: "env \<Rightarrow> cm_world \<Rightarrow> cm_event_types" where
  "cm_check_thermal_status e s =
     (case cm_get_battery_temperature e s of
        (ret, t) \<Rightarrow>
          if ret \<noteq> 0 then CM_EVENT_UNKNOWN
          else
            let upper_limit = temp_max s;
                lower_limit = temp_min s;
                upper_limit = (if emergency_stop s \<noteq> CM_EVENT_UNKNOWN
                               then upper_limit - temp_diff s else upper_limit);
                lower_limit = (if emergency_stop s \<noteq> CM_EVENT_UNKNOWN
                               then lower_limit + temp_diff s else lower_limit)
            in if t > upper_limit then CM_EVENT_BATT_OVERHEAT
               else if t < lower_limit then CM_EVENT_BATT_COLD
               else CM_EVENT_UNKNOWN)"

subsection \<open>Capacity tracking file\<close>

text \<open>
  \<^verbatim>\<open>cm_track_capacity_work\<close>. The two inline computations on the file's words are named:
  \<open>track_encrypt\<close> is lines 3629--3630 (state \<open>CAP_TRACK_DONE\<close>), \<open>track_decrypt\<close> is lines
  3616--3621 (state \<open>CAP_TRACK_INIT\<close>), \<open>None\<close> being the branch "track file data error".
\<close>

definition track_encrypt :: "32 word \<Rightarrow> 32 word \<times> 32 word" where
  "track_encrypt total_cap =
     (total_cap XOR CM_TRACK_CAPACITY_KEY0, total_cap XOR CM_TRACK_CAPACITY_KEY1)"

definition track_decrypt :: "32 word \<times> 32 word \<Rightarrow> 32 word option" where
  "track_decrypt file_buf =
     (let capacity = fst file_buf XOR CM_TRACK_CAPACITY_KEY0;
          check_capacity = snd file_buf XOR CM_TRACK_CAPACITY_KEY1
      in if capacity \<noteq> check_capacity then None else Some capacity)"

definition cm_track_capacity_work :: "env \<Rightarrow> cm_world \<Rightarrow> cm_world" where
  "cm_track_capacity_work e s =
     (if \<not> filp_open_ok e then
        (if track_state s = CAP_TRACK_INIT \<and> retry_cnt s > 0
         then s\<lparr>retry_cnt := retry_cnt s - 1,
                effects := effects s @ [QueueWork WORK_track_capacity 5000]\<rparr>
         else s\<lparr>track_state := CAP_TRACK_ERR\<rparr>)
      else
        (case get_batt_total_cap e s of
           (ret, v) \<Rightarrow>
             if ret \<noteq> 0 then s
             else
               let total_cap = (word_of_int v :: 32 word) div 1000
               in (case track_state s of
                     CAP_TRACK_INIT \<Rightarrow>
                       (let s1 = s\<lparr>track_state := CAP_TRACK_IDLE\<rparr>
                        in case kernel_read e of
                             (n, file_buf) \<Rightarrow>
                               if n < 0 then s1
                               else (case track_decrypt file_buf of
                                       None \<Rightarrow> s1
                                     | Some capacity \<Rightarrow>
                                         if abs_u32 (total_cap - capacity) < total_cap div 2
                                         then snd (set_batt_total_cap e (sint capacity) s1)
                                         else s1))
                   | CAP_TRACK_DONE \<Rightarrow>
                       (let s1 = s\<lparr>track_state := CAP_TRACK_IDLE\<rparr>;
                            file_buf = track_encrypt total_cap;
                            ret = kernel_write e (fst file_buf) (snd file_buf)
                        in s1\<lparr>effects := effects s1 @ [FileWrite (fst file_buf) (snd file_buf) ret]\<rparr>)
                   | _ \<Rightarrow> s\<lparr>track_state := CAP_TRACK_IDLE\<rparr>)))"

subsection \<open>Battery and charger state\<close>

definition psy_reads_nonzero :: "env \<Rightarrow> string \<Rightarrow> power_supply_property \<Rightarrow> bool" where
  "psy_reads_nonzero e n prop =
     (psy_found e n \<and> (case psy_get e n prop of (ret, v) \<Rightarrow> ret = 0 \<and> v \<noteq> 0))"

definition is_batt_present :: "env \<Rightarrow> cm_world \<Rightarrow> bool" where
  "is_batt_present e s =
     (case battery_present s of
        CM_BATTERY_PRESENT \<Rightarrow> True
      | CM_NO_BATTERY \<Rightarrow> False
      | CM_FUEL_GAUGE \<Rightarrow> psy_reads_nonzero e (psy_fuel_gauge s) POWER_SUPPLY_PROP_PRESENT
      | CM_CHARGER_STAT \<Rightarrow>
          list_ex (\<lambda>n. psy_reads_nonzero e n POWER_SUPPLY_PROP_PRESENT) (psy_charger_stat s))"

definition is_ext_pwr_online :: "env \<Rightarrow> cm_world \<Rightarrow> bool" where
  "is_ext_pwr_online e s =
     list_ex (\<lambda>n. psy_reads_nonzero e n POWER_SUPPLY_PROP_ONLINE) (psy_charger_stat s)"

text \<open>
  The loops of \<^verbatim>\<open>get_charger_type\<close>, \<^verbatim>\<open>get_charger_current\<close>,
  \<^verbatim>\<open>get_charger_limit_current\<close> and \<^verbatim>\<open>get_charger_input_current\<close>: the first charger
  whose read succeeds gives the value; \<open>ret\<close> is the return code so far.
\<close>

fun charger_stat_get ::
  "env \<Rightarrow> power_supply_property \<Rightarrow> int \<Rightarrow> string list \<Rightarrow> int \<times> int" where
  "charger_stat_get e prop ret [] = (ret, 0)"
| "charger_stat_get e prop ret (n # ns) =
     (if \<not> psy_found e n then charger_stat_get e prop ret ns
      else (case psy_get e n prop of
              (r, v) \<Rightarrow> if r = 0 then (0, v) else charger_stat_get e prop r ns))"

definition get_charger_type :: "env \<Rightarrow> cm_world \<Rightarrow> int \<times> int" where
  "get_charger_type e s =
     charger_stat_get e POWER_SUPPLY_PROP_USB_TYPE (- EINVAL) (psy_charger_stat s)"

definition get_charger_current :: "env \<Rightarrow> cm_world \<Rightarrow> int \<times> int" where
  "get_charger_current e s =
     charger_stat_get e POWER_SUPPLY_PROP_CONSTANT_CHARGE_CURRENT (- ENODEV) (psy_charger_stat s)"

definition get_charger_limit_current :: "env \<Rightarrow> cm_world \<Rightarrow> int \<times> int" where
  "get_charger_limit_current e s =
     charger_stat_get e POWER_SUPPLY_PROP_INPUT_CURRENT_LIMIT (- ENODEV) (psy_charger_stat s)"

definition get_charger_input_current :: "env \<Rightarrow> cm_world \<Rightarrow> int \<times> int" where
  "get_charger_input_current e s =
     charger_stat_get e POWER_SUPPLY_PROP_INPUT_CURRENT_NOW (- ENODEV) (psy_charger_stat s)"

definition is_charging :: "env \<Rightarrow> cm_world \<Rightarrow> bool" where
  "is_charging e s =
     (is_batt_present e s \<and>
      list_ex (\<lambda>n.
          emergency_stop s = CM_EVENT_UNKNOWN \<and> charger_enabled s \<and>
          psy_reads_nonzero e n POWER_SUPPLY_PROP_ONLINE \<and>
          (case psy_get e n POWER_SUPPLY_PROP_STATUS of
             (ret, v) \<Rightarrow> ret = 0 \<and> v \<noteq> POWER_SUPPLY_STATUS_FULL \<and>
               v \<noteq> POWER_SUPPLY_STATUS_DISCHARGING \<and> v \<noteq> POWER_SUPPLY_STATUS_NOT_CHARGING))
        (psy_charger_stat s))"

text \<open>
  \<^verbatim>\<open>psy_charger_stat[0]\<close> and \<^verbatim>\<open>psy_fast_charger_stat[0]\<close> of an empty array are NULL;
  looking a NULL name up finds no supply.
\<close>

definition cm_primary_charger_enable :: "env \<Rightarrow> bool \<Rightarrow> cm_world \<Rightarrow> bool \<times> cm_world" where
  "cm_primary_charger_enable e enable s =
     (case psy_charger_stat s of
        [] \<Rightarrow> (False, s)
      | n # _ \<Rightarrow>
          if \<not> psy_found e n then (False, s)
          else (case power_supply_set_property e n POWER_SUPPLY_PROP_CHARGE_ENABLED
                       (if enable then 1 else 0) s of
                  (ret, s1) \<Rightarrow> (ret = 0, s1)))"

definition is_full_charged :: "env \<Rightarrow> cm_world \<Rightarrow> bool \<times> cm_world" where
  "is_full_charged e s =
     (if \<not> is_batt_present e s then (False, s)
      else if \<not> psy_found e (psy_fuel_gauge s) then (False, s)
      else if fullbatt_full_capacity s > 0 \<and>
              (case psy_get e (psy_fuel_gauge s) POWER_SUPPLY_PROP_CHARGE_FULL of
                 (ret, v) \<Rightarrow> ret = 0 \<and> v > fullbatt_full_capacity s)
        then (True, s)
      else if fullbatt_uV s > 0 \<and> fullbatt_uA s > 0 then
        (case get_batt_uV e s of
           (ret, uV) \<Rightarrow>
             if ret \<noteq> 0 then (False, s)
             else (case get_batt_uA e s of
               (ret, uA) \<Rightarrow>
                 if ret \<noteq> 0 then (False, s)
                 else
                   let s1 =
                         (if first_fullbatt_uA s > 0 \<and> uV \<ge> fullbatt_uV s \<and>
                             uA > fullbatt_uA s \<and> uA \<le> first_fullbatt_uA s \<and> uA \<ge> 0
                          then
                            (let s' = s\<lparr>first_trigger_cnt := first_trigger_cnt s + 1\<rparr>
                             in if first_trigger_cnt s' > 1 then s'\<lparr>force_set_full := True\<rparr>
                                else s')
                          else s\<lparr>first_trigger_cnt := 0\<rparr>)
                   in
                     if uV \<ge> fullbatt_uV s1 \<and> uA \<le> fullbatt_uA s1 \<and> uA \<ge> 0 then
                       (let s2 = s1\<lparr>trigger_cnt := trigger_cnt s1 + 1\<rparr>
                        in if trigger_cnt s2 > 1 then
                             (if cap s2 \<ge> CM_CAP_FULL_PERCENT then
                                (let s3 = (if trigger_cnt s2 = 2
                                           then snd (adjust_fuel_cap e CM_FORCE_SET_FUEL_CAP_FULL s2)
                                           else s2)
                                 in (True, s3\<lparr>force_set_full := True\<rparr>))
                              else
                                (let s3 = snd (adjust_fuel_cap e CM_FORCE_SET_FUEL_CAP_FULL s2);
                                     s4 = (if trigger_cnt s3 = 2
                                           then snd (cm_primary_charger_enable e False s3)
                                           else s3)
                                 in (False, s4\<lparr>force_set_full := True\<rparr>)))
                           else (False, s2))
                     else (False, s1\<lparr>trigger_cnt := 0\<rparr>)))
      else if fullbatt_soc s > 0 \<and>
              (case psy_get e (psy_fuel_gauge s) POWER_SUPPLY_PROP_CAPACITY of
                 (ret, v) \<Rightarrow> ret = 0 \<and> v \<ge> fullbatt_soc s)
        then (True, s)
      else (False, s))"

subsection \<open>Notifications\<close>

text \<open>
  \<^verbatim>\<open>uevent_notify\<close>. The event is \<open>None\<close> for a NULL pointer. Both buffers hold at most
  \<open>UEVENT_BUF_SIZE\<close> characters: \<^verbatim>\<open>strncmp(a, b, n) == 0\<close> is \<open>take n a = take n b\<close> and
  \<^verbatim>\<open>strncpy(dst, b, n)\<close> leaves \<open>take n b\<close> in \<open>dst\<close>. A NULL event while suspended is
  handed to \<^verbatim>\<open>strncmp\<close>: no normal return.
\<close>

definition kobject_uevent :: "cm_world \<Rightarrow> cm_world" where
  "kobject_uevent s = s\<lparr>effects := effects s @ [Uevent (env_str s)]\<rparr>"

definition uevent_notify :: "string option \<Rightarrow> cm_world \<Rightarrow> cm_world option" where
  "uevent_notify event s =
     (if cm_suspended s then
        (case event of
           None \<Rightarrow> None
         | Some ev \<Rightarrow>
             if env_str_save s = [] then
               (if take UEVENT_BUF_SIZE (env_str s) = take UEVENT_BUF_SIZE ev then Some s
                else Some (s\<lparr>env_str_save := take UEVENT_BUF_SIZE ev\<rparr>))
             else if take UEVENT_BUF_SIZE (env_str_save s) = take UEVENT_BUF_SIZE ev then Some s
             else Some (s\<lparr>env_str_save := take UEVENT_BUF_SIZE ev\<rparr>))
      else
        (case event of
           None \<Rightarrow>
             if env_str_save s = [] then Some s
             else Some ((kobject_uevent (s\<lparr>env_str := take UEVENT_BUF_SIZE (env_str_save s)\<rparr>))
                          \<lparr>env_str_save := []\<rparr>)
         | Some ev \<Rightarrow>
             if take UEVENT_BUF_SIZE (env_str s) = take UEVENT_BUF_SIZE ev then Some s
             else Some (kobject_uevent (s\<lparr>env_str := take UEVENT_BUF_SIZE ev\<rparr>))))"

definition default_event_names :: "cm_event_types \<Rightarrow> string" where
  "default_event_names t =
     (case t of
        CM_EVENT_UNKNOWN \<Rightarrow> ''Unknown''
      | CM_EVENT_BATT_FULL \<Rightarrow> ''Battery Full''
      | CM_EVENT_BATT_IN \<Rightarrow> ''Battery Inserted''
      | CM_EVENT_BATT_OUT \<Rightarrow> ''Battery Pulled Out''
      | CM_EVENT_BATT_OVERHEAT \<Rightarrow> ''Battery Overheat''
      | CM_EVENT_BATT_COLD \<Rightarrow> ''Battery Cold''
      | CM_EVENT_EXT_PWR_IN_OUT \<Rightarrow> ''External Power Attach/Detach''
      | CM_EVENT_CHG_START_STOP \<Rightarrow> ''Charging Start/Stop''
      | CM_EVENT_OTHERS \<Rightarrow> ''Other battery events''
      | CM_EVENT_FAST_CHARGE \<Rightarrow> [])"

subsection \<open>JEITA zone\<close>

definition jeita_row :: "charger_jeita_table list \<Rightarrow> nat \<Rightarrow> charger_jeita_table" where
  "jeita_row tab i =
     (if i < length tab then tab ! i
      else \<lparr>temp = 0, recovery_temp = 0, current_ua = 0, term_volt = 0\<rparr>)"

text \<open>
  The table is allocated with one zero-filled row after its last (\<^verbatim>\<open>cm_parse_jeita_table\<close>);
  \<open>jeita_row\<close> reads a row and gives the zero row past the end.
  \<open>jeita_scan tab t n\<close> is the loop \<^verbatim>\<open>for (i = n - 1; i >= 0; i--)\<close> of
  \<^verbatim>\<open>cm_manager_get_jeita_status\<close>: the index at which it breaks, \<open>-1\<close> when it runs out.
\<close>

fun jeita_scan :: "charger_jeita_table list \<Rightarrow> int \<Rightarrow> nat \<Rightarrow> int" where
  "jeita_scan tab cur_temp 0 = - 1"
| "jeita_scan tab cur_temp (Suc i) =
     (if (cur_temp \<ge> temp (jeita_row tab i) \<and> i > 0) \<or>
         (cur_temp > temp (jeita_row tab i) \<and> i = 0)
      then int i else jeita_scan tab cur_temp i)"

abbreviation (input) STATUS_BELOW_T0 :: int where "STATUS_BELOW_T0 \<equiv> 0"
abbreviation (input) STATUS_T0_TO_T1 :: int where "STATUS_T0_TO_T1 \<equiv> 1"
abbreviation (input) STATUS_T1_TO_T2 :: int where "STATUS_T1_TO_T2 \<equiv> 2"
abbreviation (input) STATUS_T2_TO_T3 :: int where "STATUS_T2_TO_T3 \<equiv> 3"
abbreviation (input) STATUS_ABOVE_T3 :: int where "STATUS_ABOVE_T3 \<equiv> 4"

definition cm_manager_get_jeita_status :: "int \<Rightarrow> cm_world \<Rightarrow> int \<times> cm_world" where
  "cm_manager_get_jeita_status cur_temp s =
     (let tab = jeita_tab s;
          i = jeita_scan tab cur_temp (nat (jeita_tab_size s));
          js = jeita_status s;
          js' =
            (if i = 3 then STATUS_ABOVE_T3
             else if i = 2 then
               (if js \<noteq> STATUS_ABOVE_T3 \<or> cur_temp \<le> recovery_temp (jeita_row tab 3)
                then STATUS_T2_TO_T3 else js)
             else if i = 1 then
               (if (js \<noteq> STATUS_T2_TO_T3 \<or> cur_temp \<le> recovery_temp (jeita_row tab 2)) \<and>
                   (js \<noteq> STATUS_T0_TO_T1 \<or> cur_temp \<ge> recovery_temp (jeita_row tab 1))
                then STATUS_T1_TO_T2 else js)
             else if i = 0 then
               (if js \<noteq> STATUS_BELOW_T0 \<or> cur_temp \<ge> recovery_temp (jeita_row tab 0)
                then STATUS_T0_TO_T1 else js)
             else STATUS_BELOW_T0)
      in (js', s\<lparr>jeita_status := js'\<rparr>))"

subsection \<open>Charger control and the fast-charge handshake\<close>

text \<open>
  A supply that \<^verbatim>\<open>power_supply_get_by_name\<close> does not find makes these functions return
  \<^verbatim>\<open>-ENODEV\<close> without a write. On that branch the source passes the null pointer to
  \<^verbatim>\<open>power_supply_put\<close>, a function of the kernel outside this file, which is taken to
  return as the code after it expects.
\<close>

definition cm_set_main_charger_current :: "env \<Rightarrow> int \<Rightarrow> cm_world \<Rightarrow> int \<times> cm_world" where
  "cm_set_main_charger_current e cmd s =
     (case psy_charger_stat s of
        [] \<Rightarrow> (- ENODEV, s)
      | n # _ \<Rightarrow>
          if \<not> psy_found e n then (- ENODEV, s)
          else power_supply_set_property e n POWER_SUPPLY_PROP_STATUS cmd s)"

definition cm_set_second_charger_current :: "env \<Rightarrow> cm_world \<Rightarrow> int \<times> cm_world" where
  "cm_set_second_charger_current e s =
     (if length (psy_charger_stat s) < 2 then (0, s)
      else if \<not> psy_found e (psy_charger_stat s ! 1) then (- ENODEV, s)
      else power_supply_set_property e (psy_charger_stat s ! 1) POWER_SUPPLY_PROP_STATUS
             (CM_FAST_CHARGE_ENABLE_CMD e) s)"

definition cm_enable_second_charger :: "env \<Rightarrow> bool \<Rightarrow> cm_world \<Rightarrow> int \<times> cm_world" where
  "cm_enable_second_charger e enable s =
     (if length (psy_charger_stat s) < 2 then (0, s)
      else if \<not> psy_found e (psy_charger_stat s ! 1) then (- ENODEV, s)
      else power_supply_set_property e (psy_charger_stat s ! 1) POWER_SUPPLY_PROP_STATUS
             (if enable then 1 else 0) s)"

definition cm_adjust_fast_charge_voltage :: "env \<Rightarrow> int \<Rightarrow> cm_world \<Rightarrow> int \<times> cm_world" where
  "cm_adjust_fast_charge_voltage e cmd s =
     (case psy_fast_charger_stat s of
        [] \<Rightarrow> (- ENODEV, s)
      | n # _ \<Rightarrow>
          if \<not> psy_found e n then (- ENODEV, s)
          else power_supply_set_property e n POWER_SUPPLY_PROP_VOLTAGE_MAX cmd s)"

text \<open>
  The loop of \<^verbatim>\<open>try_charger_enable_by_psy\<close>: with a second charger in the list, only the
  first charger that is found is switched.
\<close>

fun try_charger_enable_by_psy_loop ::
  "env \<Rightarrow> bool \<Rightarrow> bool \<Rightarrow> string list \<Rightarrow> cm_world \<Rightarrow> int \<times> cm_world" where
  "try_charger_enable_by_psy_loop e enable second [] s = (0, s)"
| "try_charger_enable_by_psy_loop e enable second (n # ns) s =
     (if \<not> psy_found e n then try_charger_enable_by_psy_loop e enable second ns s
      else (case power_supply_set_property e n POWER_SUPPLY_PROP_STATUS
                   (if enable then 1 else 0) s of
              (err, s1) \<Rightarrow>
                if err \<noteq> 0 then (err, s1)
                else if second then (0, s1)
                else try_charger_enable_by_psy_loop e enable second ns s1))"

definition try_charger_enable_by_psy :: "env \<Rightarrow> bool \<Rightarrow> cm_world \<Rightarrow> int \<times> cm_world" where
  "try_charger_enable_by_psy e enable s =
     try_charger_enable_by_psy_loop e enable (length (psy_charger_stat s) \<ge> 2)
       (psy_charger_stat s) s"

text \<open>
  \<^verbatim>\<open>try_charger_enable\<close>, \<^verbatim>\<open>try_fast_charger_enable\<close>, the three fast-charge functions
  and \<^verbatim>\<open>cm_manager_adjust_current\<close> call each other in a cycle, and nothing in the
  source bounds the depth of the calls. Each function of the cycle is given, as \<open>tce\<close>,
  the \<^verbatim>\<open>try_charger_enable\<close> it calls; \<open>try_charger_enable\<close> below closes the cycle for
  a call stack of a given depth, and is \<open>None\<close> where the calls go deeper.
\<close>

type_synonym tce = "bool \<Rightarrow> cm_world \<Rightarrow> (int \<times> cm_world) option"

text \<open>The loop of \<^verbatim>\<open>cm_manager_adjust_current\<close> over the chargers; \<open>ret\<close> is the last return code.\<close>

fun adjust_current_loop ::
  "env \<Rightarrow> int \<Rightarrow> int \<Rightarrow> int \<Rightarrow> string list \<Rightarrow> cm_world \<Rightarrow> int \<times> cm_world" where
  "adjust_current_loop e tv tc ret [] s = (ret, s)"
| "adjust_current_loop e tv tc ret (n # ns) s =
     (if \<not> psy_found e n then adjust_current_loop e tv tc ret ns s
      else (case power_supply_set_property e n POWER_SUPPLY_PROP_CONSTANT_CHARGE_VOLTAGE_MAX tv s of
              (r1, s1) \<Rightarrow>
                if r1 \<noteq> 0 then adjust_current_loop e tv tc r1 ns s1
                else (case power_supply_set_property e n
                             POWER_SUPPLY_PROP_CONSTANT_CHARGE_CURRENT tc s1 of
                        (r2, s2) \<Rightarrow> adjust_current_loop e tv tc r2 ns s2)))"

definition cm_manager_adjust_current ::
  "tce \<Rightarrow> env \<Rightarrow> int \<Rightarrow> cm_world \<Rightarrow> (bool \<times> cm_world) option" where
  "cm_manager_adjust_current tce e jeita_status0 s =
     (if charging_status s \<noteq> {} \<and>
         CM_CHARGE_TEMP_OVERHEAT \<notin> charging_status s \<and> CM_CHARGE_TEMP_COLD \<notin> charging_status s
      then Some (True, s)
      else
        let js = (if jeita_status0 > jeita_tab_size s then jeita_tab_size s else jeita_status0)
        in if js = 0 \<or> js = jeita_tab_size s then
             do {
               s1 \<leftarrow> uevent_notify (Some ''Discharging'') s;
               (r, s2) \<leftarrow> tce False s1;
               Some (False,
                 s2\<lparr>charging_status :=
                      insert (if js = 0 then CM_CHARGE_TEMP_COLD else CM_CHARGE_TEMP_OVERHEAT)
                        (charging_status s2)\<rparr>)
             }
           else
             let tv = term_volt (jeita_row (jeita_tab s) (nat js));
                 tc = current_ua (jeita_row (jeita_tab s) (nat js));
                 tc = (if thm_adjust_cur s \<ge> 0 \<and> thm_adjust_cur s < tc
                       then thm_adjust_cur s else tc)
             in (case adjust_current_loop e tv tc (- ENODEV) (psy_charger_stat s) s of
                   (ret, s1) \<Rightarrow>
                     if ret \<noteq> 0 then Some (False, s1)
                     else do {
                       (r, s2) \<leftarrow> tce True s1;
                       Some (True,
                         s2\<lparr>charging_status :=
                              charging_status s2 - {CM_CHARGE_TEMP_OVERHEAT, CM_CHARGE_TEMP_COLD}\<rparr>)
                     }))"

text \<open>
  The tail that \<^verbatim>\<open>cm_fast_charge_enable_check\<close> and \<^verbatim>\<open>cm_fast_charge_disable\<close> share:
  with a JEITA table, select the table of the type and adjust the current to the zone
  of the present temperature.
\<close>

definition fast_charge_jeita_adjust ::
  "tce \<Rightarrow> env \<Rightarrow> cm_jeita_types \<Rightarrow> cm_world \<Rightarrow> cm_world option" where
  "fast_charge_jeita_adjust tce e ty s =
     (if jeita_tab_size s \<noteq> 0 then
        (let s1 = s\<lparr>jeita_tab := jeita_tab_array s ty\<rparr>
         in case cm_manager_get_jeita_status (temperature s1) s1 of
              (cur, s2) \<Rightarrow>
                map_option snd
                  (cm_manager_adjust_current tce e
                     (if jeita_disabled s2 then STATUS_T1_TO_T2 else cur) s2))
      else Some s)"

definition cm_fast_charge_enable_check :: "tce \<Rightarrow> env \<Rightarrow> cm_world \<Rightarrow> (int \<times> cm_world) option" where
  "cm_fast_charge_enable_check tce e s =
     (if emergency_stop s \<noteq> CM_EVENT_UNKNOWN then Some (- EAGAIN, s)
      else if psy_fast_charger_stat s = [] then Some (0, s)
      else if \<not> is_fast_charge s \<or> enable_fast_charge s then Some (0, s)
      else (case get_batt_uV e s of
        (ret, batt_uV) \<Rightarrow>
          if ret \<noteq> 0 then Some (ret, s)
          else (case get_batt_uA e s of
            (ret, batt_uA) \<Rightarrow>
              if ret \<noteq> 0 then Some (ret, s)
              else
                let s0 = (if batt_uV > CM_FAST_CHARGE_ENABLE_BATTERY_VOLTAGE
                          then s\<lparr>fast_charge_enable_count := fast_charge_enable_count s + 1\<rparr>
                          else s\<lparr>fast_charge_enable_count := 0\<rparr>)
                in if fast_charge_enable_count s0 < CM_FAST_CHARGE_ENABLE_COUNT then Some (0, s0)
                   else
                     (case cm_set_main_charger_current e (CM_FAST_CHARGE_ENABLE_CMD e)
                             (s0\<lparr>fast_charge_enable_count := 0\<rparr>) of
                        (r1, s1) \<Rightarrow>
                          if r1 \<noteq> 0 then
                            Some (r1, snd (cm_set_main_charger_current e
                                             (CM_FAST_CHARGE_DISABLE_CMD e) s1))
                          else (case cm_set_second_charger_current e s1 of
                            (r2, s2) \<Rightarrow>
                              if r2 \<noteq> 0 then
                                Some (r2, snd (cm_set_main_charger_current e
                                                 (CM_FAST_CHARGE_DISABLE_CMD e) s2))
                              else (case cm_adjust_fast_charge_voltage e
                                           CM_FAST_CHARGE_VOLTAGE_9V s2 of
                                (r3, s3) \<Rightarrow>
                                  if r3 \<noteq> 0 then
                                    Some (r3, snd (cm_set_main_charger_current e
                                                     (CM_FAST_CHARGE_DISABLE_CMD e) s3))
                                  else (case cm_enable_second_charger e True s3 of
                                    (r4, s4) \<Rightarrow>
                                      if r4 \<noteq> 0 then
                                        Some (r4, snd (cm_set_main_charger_current e
                                                         (CM_FAST_CHARGE_DISABLE_CMD e) s4))
                                      else
                                        let s5 = s4\<lparr>charge_voltage_max :=
                                                     (if fast_charge_voltage_max s4 \<noteq> 0
                                                      then fast_charge_voltage_max s4
                                                      else charge_voltage_max s4),
                                                   charge_voltage_drop :=
                                                     (if fast_charge_voltage_drop s4 \<noteq> 0
                                                      then fast_charge_voltage_drop s4
                                                      else charge_voltage_drop s4)\<rparr>
                                        in do {
                                          s6 \<leftarrow> fast_charge_jeita_adjust tce e CM_JEITA_FCHG s5;
                                          Some (0, s6\<lparr>enable_fast_charge := True\<rparr>)
                                        })))))))"

definition cm_fast_charge_disable :: "tce \<Rightarrow> env \<Rightarrow> cm_world \<Rightarrow> (int \<times> cm_world) option" where
  "cm_fast_charge_disable tce e s =
     (if \<not> enable_fast_charge s then Some (0, s)
      else (case cm_enable_second_charger e False s of
        (r1, s1) \<Rightarrow>
          if r1 \<noteq> 0 then Some (r1, s1)
          else (case cm_adjust_fast_charge_voltage e CM_FAST_CHARGE_VOLTAGE_5V s1 of
            (r2, s2) \<Rightarrow>
              if r2 \<noteq> 0 then Some (r2, s2)
              else (case cm_set_main_charger_current e (CM_FAST_CHARGE_DISABLE_CMD e) s2 of
                (r3, s3) \<Rightarrow>
                  if r3 \<noteq> 0 then Some (r3, s3)
                  else
                    let s4 = s3\<lparr>charge_voltage_max :=
                                 (if normal_charge_voltage_max s3 \<noteq> 0
                                  then normal_charge_voltage_max s3 else charge_voltage_max s3),
                               charge_voltage_drop :=
                                 (if normal_charge_voltage_drop s3 \<noteq> 0
                                  then normal_charge_voltage_drop s3 else charge_voltage_drop s3)\<rparr>
                    in do {
                      s5 \<leftarrow> fast_charge_jeita_adjust tce e CM_JEITA_DCP s4;
                      Some (0, s5\<lparr>enable_fast_charge := False\<rparr>)
                    }))))"

definition cm_fast_charge_disable_check :: "tce \<Rightarrow> env \<Rightarrow> cm_world \<Rightarrow> (int \<times> cm_world) option" where
  "cm_fast_charge_disable_check tce e s =
     (if \<not> enable_fast_charge s then Some (0, s)
      else (case get_batt_uV e s of
        (ret, batt_uV) \<Rightarrow>
          if ret \<noteq> 0 then Some (ret, s)
          else (case get_batt_uA e s of
            (ret, batt_uA) \<Rightarrow>
              if ret \<noteq> 0 then Some (ret, s)
              else
                let s0 = (if batt_uV < CM_FAST_CHARGE_DISABLE_BATTERY_VOLTAGE
                          then s\<lparr>fast_charge_disable_count := fast_charge_disable_count s + 1\<rparr>
                          else s\<lparr>fast_charge_disable_count := 0\<rparr>)
                in if fast_charge_disable_count s0 < CM_FAST_CHARGE_DISABLE_COUNT then Some (0, s0)
                   else cm_fast_charge_disable tce e (s0\<lparr>fast_charge_disable_count := 0\<rparr>))))"

definition try_fast_charger_enable :: "tce \<Rightarrow> env \<Rightarrow> bool \<Rightarrow> cm_world \<Rightarrow> (int \<times> cm_world) option" where
  "try_fast_charger_enable tce e enable s =
     (if enable then
        do {
          (err, s1) \<leftarrow> cm_fast_charge_enable_check tce e s;
          if err \<noteq> 0 then Some (err, s1)
          else cm_fast_charge_disable_check tce e s1
        }
      else cm_fast_charge_disable tce e s)"

text \<open>
  One activation of \<^verbatim>\<open>try_charger_enable\<close>, calling \<open>tce\<close> where the fast-charge
  functions under it call \<^verbatim>\<open>try_charger_enable\<close> again.
\<close>

definition try_charger_enable_body :: "tce \<Rightarrow> env \<Rightarrow> bool \<Rightarrow> cm_world \<Rightarrow> (int \<times> cm_world) option" where
  "try_charger_enable_body tce e enable s =
     do {
       (ferr, s1) \<leftarrow> try_fast_charger_enable tce e enable s;
       if enable = charger_enabled s1 then Some (0, s1)
       else if enable then
         (if emergency_stop s1 \<noteq> CM_EVENT_UNKNOWN then Some (- EAGAIN, s1)
          else if \<not> is_batt_present e s1 \<and> \<not> allow_charger_enable s1 then Some (0, s1)
          else
            (case try_charger_enable_by_psy e enable
                    (s1\<lparr>charging_start_time := ktime_ms e, charging_end_time := 0\<rparr>) of
               (err, s2) \<Rightarrow>
                 Some (err, if err = 0 then s2\<lparr>charger_enabled := enable\<rparr> else s2)))
       else
         (case try_charger_enable_by_psy e enable
                 (s1\<lparr>charging_start_time := 0, charging_end_time := ktime_ms e\<rparr>) of
            (err, s2) \<Rightarrow>
              Some (err, if err = 0 then s2\<lparr>charger_enabled := enable\<rparr> else s2))
     }"

primrec try_charger_enable :: "nat \<Rightarrow> env \<Rightarrow> tce" where
  "try_charger_enable 0 e = (\<lambda>enable s. None)"
| "try_charger_enable (Suc depth) e = try_charger_enable_body (try_charger_enable depth e) e"

definition try_charger_restart :: "tce \<Rightarrow> env \<Rightarrow> cm_world \<Rightarrow> (int \<times> cm_world) option" where
  "try_charger_restart tce e s =
     (if emergency_stop s \<noteq> CM_EVENT_UNKNOWN then Some (- EAGAIN, s)
      else do {
        (err, s1) \<leftarrow> tce False s;
        if err \<noteq> 0 then Some (err, s1) else tce True s1
      })"

text \<open>
  What \<^verbatim>\<open>is_full_charged\<close> compares with the voltage and current thresholds: the
  readings \<open>(uV, uA)\<close> when the evaluation gets as far as the comparison (a battery is
  present, the fuel gauge is registered, the charge-full criterion has not already
  answered, both thresholds are configured, both reads succeed), \<open>None\<close> otherwise.
\<close>

definition fullbatt_sample :: "env \<Rightarrow> cm_world \<Rightarrow> (int \<times> int) option" where
  "fullbatt_sample e s =
     (if is_batt_present e s \<and> psy_found e (psy_fuel_gauge s) \<and>
         \<not> (fullbatt_full_capacity s > 0 \<and>
            (case psy_get e (psy_fuel_gauge s) POWER_SUPPLY_PROP_CHARGE_FULL of
               (ret, v) \<Rightarrow> ret = 0 \<and> v > fullbatt_full_capacity s)) \<and>
         fullbatt_uV s > 0 \<and> fullbatt_uA s > 0 \<and>
         fst (get_batt_uV e s) = 0 \<and> fst (get_batt_uA e s) = 0
      then Some (snd (get_batt_uV e s), snd (get_batt_uA e s)) else None)"

subsection \<open>JEITA current monitor\<close>

definition cm_manager_jeita_current_monitor ::
  "tce \<Rightarrow> env \<Rightarrow> jeita_monitor_statics \<Rightarrow> cm_world \<Rightarrow>
   (int \<times> jeita_monitor_statics \<times> cm_world) option" where
  "cm_manager_jeita_current_monitor tce e st s =
     (if jeita_tab_size s = 0 then Some (0, st, s)
      else if \<not> is_ext_pwr_online e s then
        Some (0, if last_jeita_status st \<noteq> - 1 then st\<lparr>last_jeita_status := - 1\<rparr> else st, s)
      else if jeita_disabled s then
        (if last_jeita_status st \<noteq> STATUS_T1_TO_T2 then
           do {
             (b, s1) \<leftarrow> cm_manager_adjust_current tce e STATUS_T1_TO_T2
                          (s\<lparr>thm_adjust_cur := - EINVAL\<rparr>);
             Some (0, st\<lparr>last_jeita_status := STATUS_T1_TO_T2\<rparr>, s1)
           }
         else Some (0, st, s))
      else
        (case cm_manager_get_jeita_status (temperature s) s of
           (cur, s1) \<Rightarrow>
             do {
               (st2, s2) \<leftarrow>
                 (if last_jeita_status st = - 1 then
                    do {
                      (b, s') \<leftarrow> cm_manager_adjust_current tce e cur s1;
                      Some (st\<lparr>is_normal := b, last_jeita_status := cur\<rparr>, s')
                    }
                  else if cur > last_jeita_status st then
                    (let st' = st\<lparr>temp_down_trigger := 0,
                                  temp_up_trigger := temp_up_trigger st + 1\<rparr>
                     in if temp_up_trigger st' > 2 then
                          do {
                            (b, s') \<leftarrow> cm_manager_adjust_current tce e cur s1;
                            Some (st'\<lparr>is_normal := b, last_jeita_status := cur\<rparr>, s')
                          }
                        else Some (st', s1))
                  else if cur < last_jeita_status st then
                    (let st' = st\<lparr>temp_up_trigger := 0,
                                  temp_down_trigger := temp_down_trigger st + 1\<rparr>
                     in if temp_down_trigger st' > 2 then
                          do {
                            (b, s') \<leftarrow> cm_manager_adjust_current tce e cur s1;
                            Some (st'\<lparr>is_normal := b, last_jeita_status := cur\<rparr>, s')
                          }
                        else Some (st', s1))
                  else Some (st\<lparr>temp_up_trigger := 0, temp_down_trigger := 0\<rparr>, s1));
               Some (if \<not> is_normal st2 then - EAGAIN else 0, st2, s2)
             }))"

subsection \<open>Guards\<close>

definition fullbatt_vchk :: "tce \<Rightarrow> env \<Rightarrow> cm_world \<Rightarrow> cm_world option" where
  "fullbatt_vchk tce e s0 =
     (let s = s0\<lparr>fullbatt_vchk_jiffies_at := 0\<rparr>
      in if fullbatt_vchkdrop_uV s = 0 \<or> fullbatt_vchkdrop_ms s = 0 then Some s
         else (case get_batt_ocv e s of
           (err, batt_ocv) \<Rightarrow>
             if err \<noteq> 0 then Some s
             else
               let diff = fullbatt_uV s - batt_ocv
               in if diff < 0 then Some s
                  else if diff \<ge> fullbatt_vchkdrop_uV s then
                    do {
                      (r, s1) \<leftarrow> try_charger_restart tce e s;
                      uevent_notify (Some ''Recharging'') s1
                    }
                  else Some s))"

definition check_charging_duration :: "tce \<Rightarrow> env \<Rightarrow> cm_world \<Rightarrow> (int \<times> cm_world) option" where
  "check_charging_duration tce e s =
     (if charging_max_duration_ms s = 0 \<and> discharging_max_duration_ms s = 0 then Some (0, s)
      else if charging_status s \<noteq> {} \<and> CM_CHARGE_DURATION_ABNORMAL \<notin> charging_status s
        then Some (0, s)
      else (case get_batt_ocv e s of
        (ret, batt_ocv) \<Rightarrow>
          if ret \<noteq> 0 then Some (ret, s)
          else
            let diff = fullbatt_uV s - batt_ocv
            in do {
              (ret1, s1) \<leftarrow>
                (if charger_enabled s then
                   (if ktime_ms e - charging_start_time s > charging_max_duration_ms s \<and>
                       diff < fullbatt_vchkdrop_uV s
                    then do {
                      sa \<leftarrow> uevent_notify (Some ''Discharging'') s;
                      (r, sb) \<leftarrow> tce False sa;
                      Some (1, sb\<lparr>charging_status :=
                                     insert CM_CHARGE_DURATION_ABNORMAL (charging_status sb)\<rparr>)
                    }
                    else Some (0, s))
                 else if is_ext_pwr_online e s \<and> \<not> charger_enabled s \<and>
                         CM_CHARGE_DURATION_ABNORMAL \<in> charging_status s then
                   (if ktime_ms e - charging_end_time s > discharging_max_duration_ms s \<and>
                       is_ext_pwr_online e s
                    then do {
                      sa \<leftarrow> uevent_notify (Some ''Recharging'') s;
                      (r, sb) \<leftarrow> tce True sa;
                      Some (1, sb\<lparr>charging_status :=
                                     charging_status sb - {CM_CHARGE_DURATION_ABNORMAL}\<rparr>)
                    }
                    else Some (0, s))
                 else Some (0, s));
              Some (if CM_CHARGE_DURATION_ABNORMAL \<in> charging_status s1 then 1 else ret1, s1)
            }))"

definition power_supply_changed :: "cm_world \<Rightarrow> cm_world" where
  "power_supply_changed s = s\<lparr>effects := effects s @ [PsyChanged]\<rparr>"

definition cm_check_charge_voltage :: "tce \<Rightarrow> env \<Rightarrow> cm_world \<Rightarrow> (int \<times> cm_world) option" where
  "cm_check_charge_voltage tce e s =
     (if charge_voltage_max s = 0 \<or> charge_voltage_drop s = 0 then Some (- EINVAL, s)
      else if charging_status s \<noteq> {} \<and> CM_CHARGE_VOLTAGE_ABNORMAL \<notin> charging_status s
        then Some (- EINVAL, s)
      else if \<not> psy_found e (psy_fuel_gauge s) then Some (- ENODEV, s)
      else (case psy_get e (psy_fuel_gauge s) POWER_SUPPLY_PROP_CONSTANT_CHARGE_VOLTAGE of
        (ret, charge_vol) \<Rightarrow>
          if ret \<noteq> 0 then Some (ret, s)
          else if charger_enabled s \<and> charge_vol > charge_voltage_max s then
            do {
              sa \<leftarrow> uevent_notify (Some ''Discharging'') s;
              (r, sb) \<leftarrow> tce False sa;
              Some (0, power_supply_changed
                         (sb\<lparr>charging_status :=
                               insert CM_CHARGE_VOLTAGE_ABNORMAL (charging_status sb)\<rparr>))
            }
          else if is_ext_pwr_online e s \<and> \<not> charger_enabled s \<and>
                  charge_vol \<le> charge_voltage_max s - charge_voltage_drop s \<and>
                  CM_CHARGE_VOLTAGE_ABNORMAL \<in> charging_status s then
            do {
              sa \<leftarrow> uevent_notify (Some ''Recharging'') s;
              (r, sb) \<leftarrow> tce True sa;
              Some (0, power_supply_changed
                         (sb\<lparr>charging_status :=
                               charging_status sb - {CM_CHARGE_VOLTAGE_ABNORMAL}\<rparr>))
            }
          else if CM_CHARGE_VOLTAGE_ABNORMAL \<in> charging_status s then Some (0, s)
          else Some (- EINVAL, s)))"

text \<open>
  The loop of \<^verbatim>\<open>cm_check_charge_health\<close>: the failing return code if a read fails,
  else \<open>0\<close> and the health of the last charger that is found.
\<close>

fun charge_health_loop :: "env \<Rightarrow> int \<Rightarrow> string list \<Rightarrow> int \<times> int" where
  "charge_health_loop e health [] = (0, health)"
| "charge_health_loop e health (n # ns) =
     (if \<not> psy_found e n then charge_health_loop e health ns
      else (case psy_get e n POWER_SUPPLY_PROP_HEALTH of
              (ret, v) \<Rightarrow> if ret \<noteq> 0 then (ret, health) else charge_health_loop e v ns))"

definition cm_check_charge_health :: "tce \<Rightarrow> env \<Rightarrow> cm_world \<Rightarrow> (int \<times> cm_world) option" where
  "cm_check_charge_health tce e s =
     (if charging_status s \<noteq> {} \<and> CM_CHARGE_HEALTH_ABNORMAL \<notin> charging_status s
        then Some (- EINVAL, s)
      else (case charge_health_loop e POWER_SUPPLY_HEALTH_UNKNOWN (psy_charger_stat s) of
        (ret, health) \<Rightarrow>
          if ret \<noteq> 0 then Some (ret, s)
          else if health = POWER_SUPPLY_HEALTH_UNKNOWN then Some (- ENODEV, s)
          else if charger_enabled s \<and> health \<noteq> POWER_SUPPLY_HEALTH_GOOD then
            do {
              sa \<leftarrow> uevent_notify (Some ''Discharging'') s;
              (r, sb) \<leftarrow> tce False sa;
              Some (0, sb\<lparr>charging_status :=
                             insert CM_CHARGE_HEALTH_ABNORMAL (charging_status sb)\<rparr>)
            }
          else if is_ext_pwr_online e s \<and> \<not> charger_enabled s \<and>
                  health = POWER_SUPPLY_HEALTH_GOOD \<and>
                  CM_CHARGE_HEALTH_ABNORMAL \<in> charging_status s then
            do {
              sa \<leftarrow> uevent_notify (Some ''Recharging'') s;
              (r, sb) \<leftarrow> tce True sa;
              Some (0, sb\<lparr>charging_status :=
                             charging_status sb - {CM_CHARGE_HEALTH_ABNORMAL}\<rparr>)
            }
          else if CM_CHARGE_HEALTH_ABNORMAL \<in> charging_status s then Some (0, s)
          else Some (- EINVAL, s)))"

subsection \<open>The monitor\<close>

fun cm_feed_watchdog_loop :: "env \<Rightarrow> int \<Rightarrow> string list \<Rightarrow> cm_world \<Rightarrow> int \<times> cm_world" where
  "cm_feed_watchdog_loop e w [] s = (0, s)"
| "cm_feed_watchdog_loop e w (n # ns) s =
     (if \<not> psy_found e n then cm_feed_watchdog_loop e w ns s
      else (case power_supply_set_property e n POWER_SUPPLY_PROP_FEED_WATCHDOG w s of
              (err, s1) \<Rightarrow> if err \<noteq> 0 then (err, s1) else cm_feed_watchdog_loop e w ns s1))"

definition cm_feed_watchdog :: "env \<Rightarrow> cm_world \<Rightarrow> int \<times> cm_world" where
  "cm_feed_watchdog e s =
     (if wdt_interval s = 0 then (0, s)
      else cm_feed_watchdog_loop e (wdt_interval s) (psy_charger_stat s) s)"

text \<open>
  \<^verbatim>\<open>_cm_monitor\<close> (an Isabelle name does not start with an underscore). Its chain of
  \<^verbatim>\<open>else if (!cm->emergency_stop && ...)\<close> is written out branch by branch, each test
  reading the state the tests before it have left; \<open>cm_monitor_charging\<close> is the last
  \<^verbatim>\<open>else\<close> of the chain.
\<close>

definition cm_monitor_charging :: "tce \<Rightarrow> env \<Rightarrow> cm_world \<Rightarrow> (bool \<times> cm_world) option" where
  "cm_monitor_charging tce e s0 =
     (let s = s0\<lparr>emergency_stop := CM_EVENT_UNKNOWN, charging_status := {}\<rparr>
      in if is_ext_pwr_online e s then
           do {
             (err, s1) \<leftarrow> tce True s;
             s2 \<leftarrow> (if err = 0 then uevent_notify (Some ''CHARGING'') s1 else Some s1);
             Some (True, s2)
           }
         else Some (True, s))"

definition cm_monitor_full :: "tce \<Rightarrow> env \<Rightarrow> cm_world \<Rightarrow> (bool \<times> cm_world) option" where
  "cm_monitor_full tce e s =
     (if emergency_stop s \<noteq> CM_EVENT_UNKNOWN then cm_monitor_charging tce e s
      else (case is_full_charged e s of
        (full, s1) \<Rightarrow>
          if full \<and> charger_enabled s1 then
            do {
              s2 \<leftarrow> uevent_notify (Some (default_event_names CM_EVENT_BATT_FULL)) s1;
              (r, s3) \<leftarrow> tce False s2;
              s4 \<leftarrow> fullbatt_vchk tce e s3;
              Some (True, s4)
            }
          else cm_monitor_charging tce e s1))"

definition cm_monitor_vchk :: "tce \<Rightarrow> env \<Rightarrow> cm_world \<Rightarrow> (bool \<times> cm_world) option" where
  "cm_monitor_vchk tce e s =
     (if emergency_stop s = CM_EVENT_UNKNOWN \<and> is_ext_pwr_online e s \<and> \<not> charger_enabled s
      then map_option (Pair True) (fullbatt_vchk tce e s)
      else cm_monitor_full tce e s)"

definition cm_monitor_duration :: "tce \<Rightarrow> env \<Rightarrow> cm_world \<Rightarrow> (bool \<times> cm_world) option" where
  "cm_monitor_duration tce e s =
     (if emergency_stop s \<noteq> CM_EVENT_UNKNOWN then cm_monitor_vchk tce e s
      else do {
        (r, s1) \<leftarrow> check_charging_duration tce e s;
        if r \<noteq> 0 then Some (True, s1) else cm_monitor_vchk tce e s1
      })"

definition cm_monitor_health :: "tce \<Rightarrow> env \<Rightarrow> cm_world \<Rightarrow> (bool \<times> cm_world) option" where
  "cm_monitor_health tce e s =
     (if emergency_stop s \<noteq> CM_EVENT_UNKNOWN then cm_monitor_duration tce e s
      else do {
        (r, s1) \<leftarrow> cm_check_charge_health tce e s;
        if r = 0 then Some (True, s1) else cm_monitor_duration tce e s1
      })"

definition cm_monitor_voltage :: "tce \<Rightarrow> env \<Rightarrow> cm_world \<Rightarrow> (bool \<times> cm_world) option" where
  "cm_monitor_voltage tce e s =
     (if emergency_stop s \<noteq> CM_EVENT_UNKNOWN then cm_monitor_health tce e s
      else do {
        (r, s1) \<leftarrow> cm_check_charge_voltage tce e s;
        if r = 0 then Some (True, s1) else cm_monitor_health tce e s1
      })"

definition u_cm_monitor ::
  "tce \<Rightarrow> env \<Rightarrow> jeita_monitor_statics \<Rightarrow> cm_world \<Rightarrow>
   (bool \<times> jeita_monitor_statics \<times> cm_world) option" where
  "u_cm_monitor tce e st s =
     (case cm_feed_watchdog e s of
        (ret, s0) \<Rightarrow>
          if ret \<noteq> 0 then Some (False, st, s0)
          else if True \<in> set (externally_control s0) then Some (False, st, s0)
          else
            let temp_alrt = cm_check_thermal_status e s0
            in if temp_alrt \<noteq> CM_EVENT_UNKNOWN \<and> emergency_stop s0 \<noteq> CM_EVENT_UNKNOWN
               then Some (False, st, s0)
               else do {
                 (ret, st1, s1) \<leftarrow> cm_manager_jeita_current_monitor tce e st s0;
                 if ret \<noteq> 0 then Some (False, st1, s1)
                 else if temp_alrt \<noteq> CM_EVENT_UNKNOWN then
                   do {
                     (err, s2) \<leftarrow> tce False (s1\<lparr>emergency_stop := temp_alrt\<rparr>);
                     s3 \<leftarrow> (if err = 0
                            then uevent_notify (Some (default_event_names temp_alrt)) s2
                            else Some s2);
                     Some (True, st1, s3)
                   }
                 else map_option (\<lambda>(b, s2). (b, st1, s2)) (cm_monitor_voltage tce e s1)
               })"

subsection \<open>Capacity tracking monitor\<close>

text \<open>
  \<^verbatim>\<open>cm_track_capacity_monitor\<close>. \<^verbatim>\<open>total_cap\<close> is a \<^verbatim>\<open>u32\<close>, so the compensation formula
  and the comparison of lines 3824--3827 are computed on 32-bit words.
\<close>

definition cm_track_capacity_monitor :: "env \<Rightarrow> cm_world \<Rightarrow> cm_world" where
  "cm_track_capacity_monitor e s =
     (if \<not> track_cap_tracking s then s
      else if \<not> is_batt_present e s then s
      else if temperature s > CM_TRACK_HIGH_TEMP_THRESHOLD \<or>
              temperature s < CM_TRACK_LOW_TEMP_THRESHOLD then s
      else (case get_batt_cur_now e s of (ret, cur_now) \<Rightarrow> if ret \<noteq> 0 then s else
           (case get_batt_uV e s of (ret, batt_uV) \<Rightarrow> if ret \<noteq> 0 then s else
           (case get_batt_ocv e s of (ret, ocv) \<Rightarrow> if ret \<noteq> 0 then s else
           (case get_batt_boot_vol e s of (ret, boot_volt) \<Rightarrow> if ret \<noteq> 0 then s else
           (case track_state s of
              CAP_TRACK_ERR \<Rightarrow> s
            | CAP_TRACK_IDLE \<Rightarrow>
                if (if is_charger_mode s
                    then boot_volt > CM_TRACK_CAPACITY_SHUTDOWN_START_VOLTAGE \<or>
                         ocv > CM_TRACK_CAPACITY_START_VOLTAGE
                    else \<bar>cur_now\<bar> > CM_TRACK_CAPACITY_START_CURRENT \<or>
                         ocv > CM_TRACK_CAPACITY_START_VOLTAGE)
                then s
                else
                  let s1 = s\<lparr>track_start_cap :=
                               ocv2cap e (if is_charger_mode s then boot_volt else ocv) * 10\<rparr>
                  in if track_start_cap s1 > CM_TRACK_START_CAP_THRESHOLD
                     then s1\<lparr>track_start_cap := 0\<rparr>
                     else (case get_batt_energy_now e s1 of
                             (ret, clbcnt) \<Rightarrow>
                               if ret \<noteq> 0 then s1
                               else s1\<lparr>track_start_time := boottime_sec e,
                                       track_start_clbcnt := clbcnt,
                                       track_state := CAP_TRACK_UPDATING\<rparr>)
            | CAP_TRACK_UPDATING \<Rightarrow>
                if boottime_sec e - track_start_time s > CM_TRACK_TIMEOUT_THRESHOLD
                then s\<lparr>track_state := CAP_TRACK_IDLE\<rparr>
                else if batt_uV > track_end_vol s \<and> cur_now < track_end_cur s then
                  (case get_batt_energy_now e s of (ret, clbcnt) \<Rightarrow> if ret \<noteq> 0 then s else
                  (case get_batt_total_cap e s of (ret, v) \<Rightarrow> if ret \<noteq> 0 then s else
                     let total_cap = (word_of_int v :: 32 word) div 1000;
                         capacity0 = c_div (clbcnt - track_start_clbcnt s) 1000;
                         capacity = (total_cap * word_of_int (track_start_cap s)) div 1000 +
                                    word_of_int capacity0
                     in if abs_u32 (capacity - total_cap) < total_cap div 2 then
                          (case set_batt_total_cap e (sint capacity) s of
                             (r, s1) \<Rightarrow>
                               s1\<lparr>track_state := CAP_TRACK_DONE,
                                   effects := effects s1 @ [QueueWork WORK_track_capacity 0]\<rparr>)
                        else s\<lparr>track_state := CAP_TRACK_IDLE\<rparr>))
                else s
            | _ \<Rightarrow> s))))))"

subsection \<open>Capacity filter\<close>

text \<open>
  \<^verbatim>\<open>cm_batt_works\<close>, in parts. \<open>cm_batt_works_reads\<close> is lines 4118--4166: the values
  read, or \<open>None\<close> when one of the reads fails and the function returns. \<open>cm_batt_works_switch\<close>
  is the \<^verbatim>\<open>switch (cm->desc->charger_status)\<close> of lines 4234--4339: the filtered \<^verbatim>\<open>fuel_cap\<close>
  and the state, or \<open>None\<close> when it divides by a \<^verbatim>\<open>cap_one_time\<close> of zero. The times are in
  seconds, the delays of the queued works in milliseconds.
\<close>

definition cm_batt_works_reads :: "env \<Rightarrow> cm_world \<Rightarrow> (int \<times> int \<times> int \<times> int \<times> int) option" where
  "cm_batt_works_reads e s =
     (case get_batt_uV e s of (ret, batt_uV) \<Rightarrow> if ret \<noteq> 0 then None else
     (case get_batt_ocv e s of (ret, batt_ocV) \<Rightarrow> if ret \<noteq> 0 then None else
     (case get_batt_uA e s of (ret, bat_uA) \<Rightarrow> if ret \<noteq> 0 then None else
     (case get_batt_cap e s of (ret, fuel_cap) \<Rightarrow> if ret \<noteq> 0 then None else
     (if fst (get_charger_current e s) \<noteq> 0 then None
      else if fst (get_charger_limit_current e s) \<noteq> 0 then None
      else (case cm_get_battery_temperature_by_psy e s of
              (ret, cur_temp) \<Rightarrow>
                if ret \<noteq> 0 then None
                else Some (batt_uV, batt_ocV, bat_uA, fuel_cap, cur_temp)))))))"

text \<open>\<^verbatim>\<open>(flush_time / cm->desc->cap_one_time) * 10\<close>\<close>

definition flush_step :: "int \<Rightarrow> cm_world \<Rightarrow> int option" where
  "flush_step flush_time s =
     (if cap_one_time s = 0 then None else Some (c_div flush_time (cap_one_time s) * 10))"

text \<open>
  The three places of the switch that limit how far the value moves in one step:
  \<open>cap_limit_down\<close> is lines 4245--4255, \<open>cap_limit_up\<close> lines 4258--4265 and
  \<open>cap_limit_down_idle\<close> lines 4306--4318, with \<open>c\<close> for \<^verbatim>\<open>cm->desc->cap\<close>.
\<close>

definition cap_limit_down :: "int \<Rightarrow> int \<Rightarrow> cm_world \<Rightarrow> int \<Rightarrow> int \<Rightarrow> int option" where
  "cap_limit_down period_time flush_time s c fuel_cap =
     (let f1 = (if period_time < cap_one_time s \<and> c - fuel_cap \<ge> 5 then c - 5 else fuel_cap)
      in do {
        q \<leftarrow> flush_step flush_time s;
        Some (if c - f1 \<ge> q then c - q else f1)
      })"

definition cap_limit_up :: "int \<Rightarrow> int \<Rightarrow> cm_world \<Rightarrow> int \<Rightarrow> int \<Rightarrow> int option" where
  "cap_limit_up period_time flush_time s c fuel_cap =
     (let f1 = (if period_time < cap_one_time s \<and> fuel_cap - c \<ge> 5 then c + 5 else fuel_cap)
      in do {
        q \<leftarrow> flush_step flush_time s;
        Some (if f1 - c \<ge> q then c + q else f1)
      })"

definition cap_limit_down_idle :: "int \<Rightarrow> int \<Rightarrow> cm_world \<Rightarrow> int \<Rightarrow> int \<Rightarrow> int option" where
  "cap_limit_down_idle period_time flush_time s c fuel_cap =
     (let f1 = (if period_time < cap_one_time s \<and> c - fuel_cap \<ge> 5 then c - 5 else fuel_cap)
      in do {
        q \<leftarrow> flush_step flush_time s;
        Some (if c - f1 \<ge> q then c - q
              else if c - f1 > CM_CAP_ONE_PERCENT then c - CM_CAP_ONE_PERCENT
              else f1)
      })"

definition cm_batt_works_switch ::
  "env \<Rightarrow> int \<Rightarrow> int \<Rightarrow> int \<Rightarrow> int \<Rightarrow> int \<Rightarrow> int \<Rightarrow> cm_world \<Rightarrow> (int \<times> cm_world) option" where
  "cm_batt_works_switch e now batt_ocV bat_uA period_time flush_time fuel_cap s =
     (if charger_status s = POWER_SUPPLY_STATUS_CHARGING then
        do {
          fc \<leftarrow>
            (if fuel_cap < cap s then
               (if bat_uA \<ge> 0 then Some (cap s)
                else cap_limit_down period_time flush_time s (cap s) fuel_cap)
             else if fuel_cap > cap s then
               cap_limit_up period_time flush_time s (cap s) fuel_cap
             else Some fuel_cap);
          let fc2 = (if cap s \<ge> 986 \<and> cap s \<le> 994 \<and> fc \<ge> CM_CAP_FULL_PERCENT
                     then 994 else fc);
          let s1 = s\<lparr>last_fuel_cap := fuel_cap\<rparr>;
          Some (fc2,
                if cap s \<ge> 986 \<and> trickle_time s \<ge> trickle_time_out s \<and>
                   trickle_time_out s > 0 \<and> bat_uA > 0
                then s1\<lparr>force_set_full := True\<rparr> else s1)
        }
      else if charger_status s = POWER_SUPPLY_STATUS_NOT_CHARGING \<or>
              charger_status s = POWER_SUPPLY_STATUS_DISCHARGING then
        (if fuel_cap \<ge> cap s then Some (cap s, s\<lparr>last_fuel_cap := fuel_cap\<rparr>)
         else if cap s \<ge> CM_HCAP_THRESHOLD then
           (if last_fuel_cap s - fuel_cap \<ge> CM_HCAP_DECREASE_STEP then
              Some (if cap s - fuel_cap \<ge> CM_CAP_ONE_PERCENT
                    then cap s - CM_CAP_ONE_PERCENT else cap s - CM_HCAP_DECREASE_STEP,
                    s\<lparr>last_fuel_cap := last_fuel_cap s - CM_HCAP_DECREASE_STEP\<rparr>)
            else Some (cap s, s))
         else do {
           fc \<leftarrow> cap_limit_down_idle period_time flush_time s (cap s) fuel_cap;
           Some (fc, s)
         })
      else if charger_status s = POWER_SUPPLY_STATUS_FULL then
        (let s1 = s\<lparr>last_fuel_cap := fuel_cap, update_capacity_time := now\<rparr>;
             s2 = (if batt_ocV < fullbatt_uV s1 - fullbatt_vchkdrop_uV s1 - 50000 \<and> bat_uA < 0
                   then s1\<lparr>force_set_full := False\<rparr> else s1)
         in if is_ext_pwr_online e s2 then
              (let f1 = (if fuel_cap \<noteq> CM_CAP_FULL_PERCENT then CM_CAP_FULL_PERCENT
                         else fuel_cap)
               in Some (if f1 > cap s2 then cap s2 + 1 else f1, s2))
            else Some (fuel_cap, s2))
      else Some (fuel_cap, s))"

text \<open>Lines 4168--4184: the temperature is stored, the raw \<^verbatim>\<open>fuel_cap\<close> is zeroed at low
  temperature and low voltage, then clamped, and \<^verbatim>\<open>last_fuel_cap\<close> gets its first value.\<close>

definition cm_batt_works_prepare :: "int \<Rightarrow> int \<Rightarrow> int \<Rightarrow> cm_world \<Rightarrow> int \<times> cm_world" where
  "cm_batt_works_prepare batt_uV fuel_cap0 cur_temp s =
     (let s1 = s\<lparr>temperature := cur_temp\<rparr>;
          low = (cur_temp \<le> CM_LOW_TEMP_REGION \<and> batt_uV \<le> CM_LOW_TEMP_SHUTDOWN_VALTAGE);
          fuel_cap1 = (if low \<and> low_temp_trigger_cnt s1 > 1 then 0 else fuel_cap0);
          s2 = (if low then s1\<lparr>low_temp_trigger_cnt := low_temp_trigger_cnt s1 + 1\<rparr>
                else if low_temp_trigger_cnt s1 \<noteq> 0 then s1\<lparr>low_temp_trigger_cnt := 0\<rparr>
                else s1);
          fuel_cap2 = (if fuel_cap1 > CM_CAP_FULL_PERCENT then CM_CAP_FULL_PERCENT
                       else if fuel_cap1 < 0 then 0 else fuel_cap1)
      in (fuel_cap2,
          if last_fuel_cap s2 = CM_CAP_MAGIC_NUM then s2\<lparr>last_fuel_cap := fuel_cap2\<rparr> else s2))"

text \<open>Lines 4186--4222: the charger status of this step, the trickle timer, and the two
  elapsed times \<^verbatim>\<open>flush_time\<close> and \<^verbatim>\<open>period_time\<close>.\<close>

definition cm_batt_works_status :: "env \<Rightarrow> cm_world \<Rightarrow> int \<times> int \<times> cm_world" where
  "cm_batt_works_status e s3 =
     (let now = boottime_sec e
      in case is_full_charged e s3 of
           (full, s4) \<Rightarrow>
             let chg_sts =
                   (if full then POWER_SUPPLY_STATUS_FULL
                    else if is_charging e s4 then POWER_SUPPLY_STATUS_CHARGING
                    else if is_ext_pwr_online e s4 then POWER_SUPPLY_STATUS_NOT_CHARGING
                    else POWER_SUPPLY_STATUS_DISCHARGING);
                 s5 = (if chg_sts = POWER_SUPPLY_STATUS_CHARGING then
                         (if cap s4 \<ge> 986
                          then s4\<lparr>trickle_time := now - trickle_start_time s4\<rparr>
                          else s4\<lparr>trickle_start_time := now, trickle_time := 0\<rparr>)
                       else s4\<lparr>trickle_start_time := now,
                               trickle_time := trickle_time_out s4 + cap_one_time s4\<rparr>);
                 flush_time = now - update_capacity_time s5;
                 period_time = now - last_query_time s5;
                 s6 = s5\<lparr>last_query_time := now\<rparr>
             in (flush_time, period_time,
                 s6\<lparr>charger_status :=
                       (if force_set_full s6 \<and> is_ext_pwr_online e s6
                        then POWER_SUPPLY_STATUS_FULL else chg_sts)\<rparr>))"

text \<open>Lines 4341--4365: the under-voltage check is scheduled, the filtered value is stored
  and written back to the gauge, the consumers are notified, and the work is re-armed.\<close>

definition cm_batt_works_commit :: "env \<Rightarrow> int \<Rightarrow> int \<Rightarrow> cm_world \<Rightarrow> cm_world" where
  "cm_batt_works_commit e batt_uV fuel_cap s8 =
     (let now = boottime_sec e;
          s9 = (if batt_uV < CM_UVLO_CALIBRATION_VOLTAGE_THRESHOLD
                then s8\<lparr>effects := effects s8 @ [QueueWork WORK_uvlo 100]\<rparr>
                else s8);
          s10 =
            (if fuel_cap \<noteq> cap s9 then
               (let sa = (if DIV_ROUND_CLOSEST fuel_cap 10 \<noteq> DIV_ROUND_CLOSEST (cap s9) 10
                          then power_supply_changed
                                 (s9\<lparr>cap := fuel_cap, update_capacity_time := now\<rparr>)
                          else s9);
                    sb = sa\<lparr>cap := fuel_cap\<rparr>
                in if uvlo_trigger_cnt sb < CM_UVLO_CALIBRATION_CNT_THRESHOLD
                   then snd (set_batt_cap e (cap sb) sb) else sb)
             else s9)
      in cm_track_capacity_monitor e
           (s10\<lparr>effects := effects s10 @
                   [QueueWork WORK_cap_update (CM_CAP_CYCLE_TRACK_TIME * 1000)]\<rparr>))"

definition cm_batt_works :: "env \<Rightarrow> cm_world \<Rightarrow> cm_world option" where
  "cm_batt_works e s =
     (case cm_batt_works_reads e s of
        None \<Rightarrow> Some s
      | Some (batt_uV, batt_ocV, bat_uA, fuel_cap0, cur_temp) \<Rightarrow>
          (case cm_batt_works_prepare batt_uV fuel_cap0 cur_temp s of
             (fuel_cap2, s3) \<Rightarrow>
               (case cm_batt_works_status e s3 of
                  (flush_time, period_time, s7) \<Rightarrow>
                    do {
                      (fuel_cap, s8) \<leftarrow>
                        cm_batt_works_switch e (boottime_sec e) batt_ocV bat_uA period_time
                          flush_time fuel_cap2 s7;
                      Some (cm_batt_works_commit e batt_uV fuel_cap s8)
                    })))"

text \<open>
  \<^verbatim>\<open>case POWER_SUPPLY_PROP_CAPACITY\<close> of \<^verbatim>\<open>charger_get_property\<close>: the value published to the
  consumers of the battery supply (the return code is \<open>0\<close>).
\<close>

definition charger_get_property_CAPACITY :: "env \<Rightarrow> cm_world \<Rightarrow> int" where
  "charger_get_property_CAPACITY e s =
     (if \<not> is_batt_present e s then 100
      else
        let v = DIV_ROUND_CLOSEST (cap s) 10
        in if v > 100 then 100 else if v < 0 then 0 else v)"

text \<open>
  The lines of \<^verbatim>\<open>charger_manager_probe\<close> that set up the capacity filter (4515--4531): the
  return code and the state. The boot capacity read from the gauge is stored as it comes.
\<close>

definition charger_manager_probe_cap :: "env \<Rightarrow> cm_world \<Rightarrow> int \<times> cm_world" where
  "charger_manager_probe_cap e s =
     (case get_boot_cap e s of
        (ret, c) \<Rightarrow>
          if ret \<noteq> 0 then (ret, s)
          else
            let s1 = s\<lparr>cap := c, thm_adjust_cur := - EINVAL\<rparr>
            in (case cm_get_battery_temperature_by_psy e s1 of
                  (ret, t) \<Rightarrow>
                    if ret \<noteq> 0 then (ret, s1)
                    else (0, s1\<lparr>temperature := t,
                                update_capacity_time := boottime_sec e,
                                last_query_time := boottime_sec e\<rparr>)))"

subsection \<open>Under-voltage check\<close>

definition cm_uvlo_check_work :: "env \<Rightarrow> cm_world \<Rightarrow> cm_world" where
  "cm_uvlo_check_work e s =
     (case get_batt_uV e s of
        (ret, batt_uV) \<Rightarrow>
          if ret \<noteq> 0 then s
          else
            let s1 = (if batt_uV < shutdown_voltage s
                      then s\<lparr>uvlo_trigger_cnt := uvlo_trigger_cnt s + 1\<rparr>
                      else s\<lparr>uvlo_trigger_cnt := 0\<rparr>);
                s2 = (if uvlo_trigger_cnt s1 \<ge> CM_UVLO_CALIBRATION_CNT_THRESHOLD then
                        (let s' = snd (set_batt_cap e 0 s1)
                         in s'\<lparr>effects := effects s' @ [Poweroff]\<rparr>)
                      else s1)
            in if batt_uV < CM_UVLO_CALIBRATION_VOLTAGE_THRESHOLD
               then s2\<lparr>effects := effects s2 @ [QueueWork WORK_uvlo 800]\<rparr>
               else s2)"

subsection \<open>Event handlers\<close>

definition is_polling_required :: "env \<Rightarrow> cm_world \<Rightarrow> bool" where
  "is_polling_required e s =
     (case polling_mode s of
        CM_POLL_DISABLE \<Rightarrow> False
      | CM_POLL_ALWAYS \<Rightarrow> True
      | CM_POLL_EXTERNAL_POWER_ONLY \<Rightarrow> is_ext_pwr_online e s
      | CM_POLL_CHARGING_ONLY \<Rightarrow> is_charging e s)"

definition device_set_wakeup_capable :: "bool \<Rightarrow> cm_world \<Rightarrow> cm_world" where
  "device_set_wakeup_capable b s = s\<lparr>effects := effects s @ [WakeupCapable b]\<rparr>"

definition fullbatt_handler :: "env \<Rightarrow> cm_world \<Rightarrow> cm_world option" where
  "fullbatt_handler e s =
     (if fullbatt_vchkdrop_uV s = 0 \<or> fullbatt_vchkdrop_ms s = 0
      then uevent_notify (Some (default_event_names CM_EVENT_BATT_FULL)) s
      else
        let s1 = (if cm_suspended s then device_set_wakeup_capable True s else s);
            s2 = s1\<lparr>effects := effects s1 @ [QueueWork WORK_fullbatt_vchk (fullbatt_vchkdrop_ms s1)]\<rparr>;
            at = jiffies e + msecs_to_jiffies e (fullbatt_vchkdrop_ms s2)
        in uevent_notify (Some (default_event_names CM_EVENT_BATT_FULL))
             (s2\<lparr>fullbatt_vchk_jiffies_at := (if at = 0 then 1 else at)\<rparr>))"

definition battout_handler :: "tce \<Rightarrow> env \<Rightarrow> cm_world \<Rightarrow> cm_world option" where
  "battout_handler tce e s =
     (let s1 = (if cm_suspended s then device_set_wakeup_capable True s else s)
      in if \<not> is_batt_present e s1 then
           do {
             (r, s2) \<leftarrow> tce False s1;
             uevent_notify (Some (default_event_names CM_EVENT_BATT_OUT)) s2
           }
         else
           do {
             (r, s2) \<leftarrow> tce (charging_status s1 = {}) s1;
             uevent_notify (Some (default_event_names CM_EVENT_BATT_IN)) s2
           })"

text \<open>
  The loop of \<^verbatim>\<open>cm_charger_is_support_fchg\<close>: the first fast charger whose charge type
  can be read decides.
\<close>

fun cm_charger_is_support_fchg_loop :: "env \<Rightarrow> string list \<Rightarrow> bool" where
  "cm_charger_is_support_fchg_loop e [] = False"
| "cm_charger_is_support_fchg_loop e (n # ns) =
     (if \<not> psy_found e n then cm_charger_is_support_fchg_loop e ns
      else (case psy_get e n POWER_SUPPLY_PROP_CHARGE_TYPE of
              (ret, v) \<Rightarrow>
                if ret = 0 then v = POWER_SUPPLY_CHARGE_TYPE_FAST \<or> v = POWER_SUPPLY_USB_TYPE_PD
                else cm_charger_is_support_fchg_loop e ns))"

definition cm_charger_is_support_fchg :: "env \<Rightarrow> cm_world \<Rightarrow> bool \<times> cm_world" where
  "cm_charger_is_support_fchg e s =
     (if cm_charger_is_support_fchg_loop e (psy_fast_charger_stat s)
      then (True, s\<lparr>is_fast_charge := True\<rparr>) else (False, s))"

definition cm_set_fast_charge_setting :: "env \<Rightarrow> cm_world \<Rightarrow> cm_world" where
  "cm_set_fast_charge_setting e s =
     (if is_fast_charge s \<and> \<not> enable_fast_charge s then
        (case psy_charger_stat s of
           [] \<Rightarrow> s
         | n # _ \<Rightarrow>
             if \<not> psy_found e n then s
             else snd (power_supply_set_property e n POWER_SUPPLY_PROP_STATUS
                         (CM_FAST_CHARGE_DISABLE_CMD e) s))
      else s)"

definition fast_charge_handler :: "env \<Rightarrow> cm_world \<Rightarrow> cm_world" where
  "fast_charge_handler e s =
     (let s1 = (if cm_suspended s then device_set_wakeup_capable True s else s);
          s2 = snd (cm_charger_is_support_fchg e s1)
      in if \<not> is_ext_pwr_online e s2 then s2 else cm_set_fast_charge_setting e s2)"

definition cm_update_charger_type_status :: "env \<Rightarrow> cm_world \<Rightarrow> cm_world" where
  "cm_update_charger_type_status e s =
     (if is_ext_pwr_online e s then
        (if charger_type s = POWER_SUPPLY_USB_TYPE_DCP
         then s\<lparr>WIRELESS_ONLINE := 0, USB_ONLINE := 0, AC_ONLINE := 1\<rparr>
         else s\<lparr>WIRELESS_ONLINE := 0, AC_ONLINE := 0, USB_ONLINE := 1\<rparr>)
      else s\<lparr>WIRELESS_ONLINE := 0, AC_ONLINE := 0, USB_ONLINE := 0\<rparr>)"

text \<open>
  \<^verbatim>\<open>misc_event_handler\<close>. \<open>None\<close> in its second component is the early \<^verbatim>\<open>return\<close> after a
  failed \<^verbatim>\<open>get_charger_type\<close>, which skips the rest of the handler.
\<close>

definition misc_event_handler_online ::
  "tce \<Rightarrow> env \<Rightarrow> cm_world \<Rightarrow> (bool \<times> cm_world) option" where
  "misc_event_handler_online tce e s =
     do {
       (r, s1) \<leftarrow> tce True s;
       (case get_charger_type e s1 of
          (ret, ty) \<Rightarrow>
            if ret \<noteq> 0 then Some (False, s1)
            else
              let s2 = s1\<lparr>charger_type := ty\<rparr>;
                  s3 = s2\<lparr>jeita_tab := jeita_tab_array s2
                          (if ty = POWER_SUPPLY_USB_TYPE_DCP then CM_JEITA_DCP
                           else if ty = POWER_SUPPLY_USB_TYPE_SDP then CM_JEITA_SDP
                           else if ty = POWER_SUPPLY_USB_TYPE_CDP then CM_JEITA_CDP
                           else CM_JEITA_UNKNOWN)\<rparr>;
                  s4 = s3\<lparr>charge_voltage_max :=
                            (if normal_charge_voltage_max s3 \<noteq> 0
                             then normal_charge_voltage_max s3 else charge_voltage_max s3),
                          charge_voltage_drop :=
                            (if normal_charge_voltage_drop s3 \<noteq> 0
                             then normal_charge_voltage_drop s3 else charge_voltage_drop s3)\<rparr>;
                  s5 = cm_set_fast_charge_setting e s4
              in if jeita_tab_size s5 \<noteq> 0 then
                   (let s6 = (if is_fast_charge s5 \<and>
                                 charger_type s5 = POWER_SUPPLY_USB_TYPE_UNKNOWN
                              then s5\<lparr>jeita_tab := jeita_tab_array s5 CM_JEITA_DCP\<rparr>
                              else s5);
                        s7 = s6\<lparr>fast_charge_enable_count := 0\<rparr>
                    in case cm_manager_get_jeita_status (temperature s7) s7 of
                         (cur, s8) \<Rightarrow>
                           map_option (\<lambda>(b, s9). (True, s9))
                             (cm_manager_adjust_current tce e cur s8))
                 else Some (True, s5))
     }"

definition misc_event_handler ::
  "tce \<Rightarrow> env \<Rightarrow> jeita_monitor_statics \<Rightarrow> cm_event_types \<Rightarrow> cm_world \<Rightarrow>
   (jeita_monitor_statics \<times> cm_world) option" where
  "misc_event_handler tce e st ty s =
     (let s1 = (if cm_suspended s then device_set_wakeup_capable True s else s);
          s2 = s1\<lparr>emergency_stop := CM_EVENT_UNKNOWN, charger_type := 0, charging_status := {},
                  thm_adjust_cur := - EINVAL\<rparr>
      in do {
        (go_on, st3, s3) \<leftarrow>
          (if is_ext_pwr_online e s2 then
             map_option (\<lambda>(b, s'). (b, st, s')) (misc_event_handler_online tce e s2)
           else
             do {
               (r, sa) \<leftarrow> tce False s2;
               (b, st', sb) \<leftarrow>
                 u_cm_monitor tce e st (sa\<lparr>effects := effects sa @ [CancelWork WORK_cm_monitor]\<rparr>);
               Some (True, st',
                     sb\<lparr>is_fast_charge := False, enable_fast_charge := False,
                        fast_charge_enable_count := 0, fast_charge_disable_count := 0\<rparr>)
             });
        if \<not> go_on then Some (st3, s3)
        else
          let s4 = (cm_update_charger_type_status e s3)\<lparr>force_set_full := False\<rparr>;
              s5 = (if is_polling_required e s4 \<and> polling_interval_ms s4 \<noteq> 0
                    then s4\<lparr>effects := effects s4 @ [QueueWork WORK_setup_polling 0]\<rparr>
                    else s4)
          in map_option (Pair st3) (uevent_notify (Some (default_event_names ty)) s5)
      })"

text \<open>
  \<^verbatim>\<open>cm_notify_type_handle\<close>. The case range \<^verbatim>\<open>CM_EVENT_EXT_PWR_IN_OUT ... CM_EVENT_CHG_START_STOP\<close>
  is read with the enumeration in the order of \<^verbatim>\<open>default_event_names\<close>, so the two
  temperature events fall to \<^verbatim>\<open>default\<close>. \<open>msg\<close> is \<open>None\<close> for a NULL message.
\<close>

definition cm_notify_type_handle ::
  "tce \<Rightarrow> env \<Rightarrow> jeita_monitor_statics \<Rightarrow> cm_event_types \<Rightarrow> string option \<Rightarrow> cm_world \<Rightarrow>
   (jeita_monitor_statics \<times> cm_world) option" where
  "cm_notify_type_handle tce e st ty msg s =
     map_option (\<lambda>(st', s'). (st', power_supply_changed s'))
       (case ty of
          CM_EVENT_BATT_FULL \<Rightarrow> map_option (Pair st) (fullbatt_handler e s)
        | CM_EVENT_BATT_IN \<Rightarrow> map_option (Pair st) (battout_handler tce e s)
        | CM_EVENT_BATT_OUT \<Rightarrow> map_option (Pair st) (battout_handler tce e s)
        | CM_EVENT_EXT_PWR_IN_OUT \<Rightarrow> misc_event_handler tce e st ty s
        | CM_EVENT_CHG_START_STOP \<Rightarrow> misc_event_handler tce e st ty s
        | CM_EVENT_UNKNOWN \<Rightarrow>
            map_option (Pair st)
              (uevent_notify (Some (case msg of Some m \<Rightarrow> m | None \<Rightarrow> default_event_names ty)) s)
        | CM_EVENT_OTHERS \<Rightarrow>
            map_option (Pair st)
              (uevent_notify (Some (case msg of Some m \<Rightarrow> m | None \<Rightarrow> default_event_names ty)) s)
        | CM_EVENT_FAST_CHARGE \<Rightarrow> Some (st, fast_charge_handler e s)
        | _ \<Rightarrow> Some (st, s))"

subsection \<open>Suspend and resume\<close>

abbreviation (input) CM_JIFFIES_SMALL :: int where "CM_JIFFIES_SMALL \<equiv> 2"
abbreviation (input) CM_RTC_SMALL :: int where "CM_RTC_SMALL \<equiv> 2"
abbreviation (input) UINT_MAX :: int where "UINT_MAX \<equiv> 4294967295"

definition CM_MIN_VALID :: "int \<Rightarrow> int \<Rightarrow> int" where
  "CM_MIN_VALID x y = (if y > 0 \<and> x > y then y else x)"

text \<open>
  \<^verbatim>\<open>cm_setup_timer\<close>, for the one charger manager of the list. The alarm is recorded with
  its delay in milliseconds.
\<close>

definition cm_setup_timer :: "tce \<Rightarrow> env \<Rightarrow> cm_world \<Rightarrow> (bool \<times> cm_world) option" where
  "cm_setup_timer tce e s =
     (let w0 = (if next_polling s > jiffies e
                then CM_MIN_VALID UINT_MAX (jiffies_to_msecs e (next_polling s - jiffies e))
                else UINT_MAX)
      in do {
        (fbchk_ms, s1) \<leftarrow>
          (if fullbatt_vchk_jiffies_at s \<noteq> 0 then
             (let ms = jiffies_to_msecs e (fullbatt_vchk_jiffies_at s - jiffies e)
              in if fullbatt_vchk_jiffies_at s \<le> jiffies e \<or>
                    msecs_to_jiffies e ms < CM_JIFFIES_SMALL
                 then map_option (Pair 0) (fullbatt_vchk tce e s)
                 else Some (ms, s))
           else Some (0, s));
        let w1 = CM_MIN_VALID w0 fbchk_ms;
        let polled = (is_polling_required e s1 \<or> emergency_stop s1 \<noteq> CM_EVENT_UNKNOWN);
        let w2 = (if polled \<and> polling_interval_ms s1 \<noteq> 0
                  then CM_MIN_VALID w1 (polling_interval_ms s1) else w1);
        if polled \<and> cm_timer e then
          (let w3 = (if w2 = UINT_MAX \<or> w2 < CM_RTC_SMALL * 1000
                     then 2 * CM_RTC_SMALL * 1000 else w2)
           in Some (True, s1\<lparr>effects := effects s1 @ [AlarmStart w3],
                              cm_suspend_duration_ms := w3\<rparr>))
        else Some (False, s1)
      })"

definition cm_suspend_prepare :: "tce \<Rightarrow> env \<Rightarrow> cm_world \<Rightarrow> cm_world option" where
  "cm_suspend_prepare tce e s =
     (let s1 = s\<lparr>cm_suspended := True\<rparr>;
          s2 = (if is_ext_pwr_online e s1 then snd (cm_feed_watchdog e s1) else s1)
      in do {
        (b, s3) \<leftarrow> cm_setup_timer tce e s2;
        let s4 = s3\<lparr>cm_timer_set := b\<rparr>;
        Some (if b then
                s4\<lparr>effects := effects s4 @
                     [CancelWork WORK_setup_polling, CancelWork WORK_cm_monitor,
                      CancelWork WORK_fullbatt_vchk, CancelWork WORK_cap_update,
                      CancelWork WORK_uvlo] @
                     (if track_cap_tracking s4 then [CancelWork WORK_track_capacity] else [])\<rparr>
              else s4)
      })"

definition cm_suspend_complete ::
  "tce \<Rightarrow> env \<Rightarrow> jeita_monitor_statics \<Rightarrow> cm_world \<Rightarrow>
   (jeita_monitor_statics \<times> cm_world) option" where
  "cm_suspend_complete tce e st s =
     (let s1 = s\<lparr>cm_suspended := False\<rparr>;
          s2 = (if cm_timer_set s1 then
                  s1\<lparr>effects := effects s1 @ [AlarmCancel, QueueWork WORK_setup_polling 0],
                     cm_timer_set := False,
                     cm_suspend_duration_ms :=
                       (if alarm_expires_remaining e > 0
                        then cm_suspend_duration_ms s1 - alarm_expires_remaining e
                        else cm_suspend_duration_ms s1)\<rparr>
                else s1)
      in do {
        (b, st', s3) \<leftarrow> u_cm_monitor tce e st s2;
        s4 \<leftarrow> cm_batt_works e s3;
        let s5 =
              (if fullbatt_vchk_jiffies_at s4 \<noteq> 0 then
                 (let now = jiffies e + CM_JIFFIES_SMALL;
                      delay = (if now \<ge> fullbatt_vchk_jiffies_at s4
                               then jiffies_to_msecs e (now - fullbatt_vchk_jiffies_at s4)
                               else 0);
                      delay = (if delay > cm_suspend_duration_ms s4
                               then delay - cm_suspend_duration_ms s4 else 0)
                  in s4\<lparr>effects := effects s4 @ [QueueWork WORK_fullbatt_vchk delay]\<rparr>)
               else s4);
        Some (st', device_set_wakeup_capable False s5)
      })"

section \<open>Observations\<close>

text \<open>
  The definitions of this section are not functions of the driver. They say what is
  looked at in a state or in a run of the functions above, and word the conditions of
  the properties proved below.
\<close>

subsection \<open>Notifications and the capacity filter\<close>

text \<open>The messages of the uevents sent so far, in order.\<close>

definition uevents :: "cm_world \<Rightarrow> string list" where
  "uevents s = List.map_filter (\<lambda>x. case x of Uevent m \<Rightarrow> Some m | _ \<Rightarrow> None) (effects s)"

text \<open>The number of \<^verbatim>\<open>power_supply_changed\<close> notifications sent so far.\<close>

definition changed_count :: "cm_world \<Rightarrow> nat" where
  "changed_count s = length (filter (\<lambda>x. x = PsyChanged) (effects s))"

text \<open>What the capacity filter keeps from one step to the next.\<close>

definition filter_frame :: "cm_world \<Rightarrow> int \<times> int \<times> int \<times> nat" where
  "filter_frame s = (cap s, cap_one_time s, update_capacity_time s, changed_count s)"

text \<open>The capacity-update step run once in each environment of a list, in order.\<close>

fun cm_batt_works_run :: "env list \<Rightarrow> cm_world \<Rightarrow> cm_world option" where
  "cm_batt_works_run [] s = Some s"
| "cm_batt_works_run (e # es) s = do { s' \<leftarrow> cm_batt_works e s; cm_batt_works_run es s' }"

subsection \<open>Runs of the JEITA monitor\<close>

text \<open>
  What one monitor tick shows of the JEITA monitor: whether external power was present
  and JEITA in use, the zone last applied before the tick (\<open>-1\<close> when none), the zone the
  tick computes, the statics it leaves, and the writes and notifications it adds.
\<close>

record jeita_tick =
  tick_online :: bool
  tick_enabled :: bool
  tick_last :: int
  tick_cur :: int
  tick_after :: jeita_monitor_statics
  tick_effects :: "effect list"

text \<open>
  The JEITA monitor run once per element of a list, each with its environment and the
  battery temperature stored before it; \<open>tcef e\<close> is the \<^verbatim>\<open>try_charger_enable\<close> of that
  environment.
\<close>

fun jeita_monitor_run ::
  "(env \<Rightarrow> tce) \<Rightarrow> (env \<times> int) list \<Rightarrow> jeita_monitor_statics \<Rightarrow> cm_world \<Rightarrow>
   jeita_tick list option" where
  "jeita_monitor_run tcef [] st s = Some []"
| "jeita_monitor_run tcef ((e, t) # ticks) st s =
     do {
       let s1 = s\<lparr>temperature := t\<rparr>;
       (r, st', s') \<leftarrow> cm_manager_jeita_current_monitor (tcef e) e st s1;
       rest \<leftarrow> jeita_monitor_run tcef ticks st' s';
       Some (\<lparr>tick_online = is_ext_pwr_online e s1,
              tick_enabled = (jeita_tab_size s1 \<noteq> 0 \<and> \<not> jeita_disabled s1),
              tick_last = last_jeita_status st,
              tick_cur = fst (cm_manager_get_jeita_status t s1),
              tick_after = st',
              tick_effects = drop (length (effects s1)) (effects s')\<rparr> # rest)
     }"

text \<open>
  The direction of a tick is that of its computed zone seen from the zone last applied:
  \<open>1\<close> above, \<open>-1\<close> below, \<open>0\<close> when equal or when no zone has been applied yet. A tick
  applies a zone change when it replaces an applied zone by another.
\<close>

definition tick_dir :: "jeita_tick \<Rightarrow> int" where
  "tick_dir k = (if tick_last k = - 1 then 0 else sgn (tick_cur k - tick_last k))"

definition tick_applied :: "jeita_tick \<Rightarrow> bool" where
  "tick_applied k \<longleftrightarrow>
     tick_last k \<noteq> - 1 \<and> last_jeita_status (tick_after k) \<noteq> tick_last k"

text \<open>
  \<open>debounced d2 d1 ks\<close>: every tick of \<open>ks\<close> that applies a zone change has a direction,
  and the two ticks before it have the same, \<open>d2\<close> and \<open>d1\<close> being the directions of the two
  ticks before \<open>ks\<close>.
\<close>

fun debounced :: "int \<Rightarrow> int \<Rightarrow> jeita_tick list \<Rightarrow> bool" where
  "debounced d2 d1 [] = True"
| "debounced d2 d1 (k # ks) =
     ((tick_applied k \<longrightarrow> tick_dir k \<noteq> 0 \<and> d1 = tick_dir k \<and> d2 = tick_dir k) \<and>
      debounced d1 (tick_dir k) ks)"

definition tick_resets :: "jeita_tick \<Rightarrow> bool" where
  "tick_resets k \<longleftrightarrow>
     (tick_last k \<noteq> - 1 \<and> tick_dir k = 0 \<longrightarrow>
        temp_up_trigger (tick_after k) = 0 \<and> temp_down_trigger (tick_after k) = 0) \<and>
     (tick_dir k = 1 \<longrightarrow> temp_down_trigger (tick_after k) = 0) \<and>
     (tick_dir k = - 1 \<longrightarrow> temp_up_trigger (tick_after k) = 0)"

text \<open>What the trigger counts say of the two ticks before, when they are right.\<close>

definition triggers_agree :: "jeita_monitor_statics \<Rightarrow> int \<Rightarrow> int \<Rightarrow> bool" where
  "triggers_agree st d2 d1 \<longleftrightarrow>
     (last_jeita_status st = - 1 \<longrightarrow> temp_up_trigger st \<le> 0 \<and> temp_down_trigger st \<le> 0) \<and>
     (temp_up_trigger st \<ge> 1 \<longrightarrow> d1 = 1) \<and> (temp_up_trigger st \<ge> 2 \<longrightarrow> d2 = 1) \<and>
     (temp_down_trigger st \<ge> 1 \<longrightarrow> d1 = - 1) \<and> (temp_down_trigger st \<ge> 2 \<longrightarrow> d2 = - 1)"

subsection \<open>The fast-charge handshake, as the specification words it\<close>

text \<open>
  The definitions of this subsection are not taken from the source: they say, in the
  words of the specification, when the enable handshake runs and which steps it is
  made of, and are compared with \<open>cm_fast_charge_enable_check\<close> below.
\<close>

text \<open>
  \<open>fast_charge_sampled\<close>: this check gets as far as comparing the battery voltage with
  the enable threshold. No emergency stop is latched, a fast charger is configured and
  detected, fast charge is not yet enabled, and the battery voltage and current are read.
  \<open>fast_charge_armed\<close>: this check runs the handshake. The voltage is above the enable
  threshold, and it was so at the check before (the count is at least one).
\<close>

definition fast_charge_sampled :: "env \<Rightarrow> cm_world \<Rightarrow> bool" where
  "fast_charge_sampled e s =
     (emergency_stop s = CM_EVENT_UNKNOWN \<and> psy_fast_charger_stat s \<noteq> [] \<and>
      is_fast_charge s \<and> \<not> enable_fast_charge s \<and>
      fst (get_batt_uV e s) = 0 \<and> fst (get_batt_uA e s) = 0)"

definition fast_charge_armed :: "env \<Rightarrow> cm_world \<Rightarrow> bool" where
  "fast_charge_armed e s =
     (fast_charge_sampled e s \<and>
      snd (get_batt_uV e s) > CM_FAST_CHARGE_ENABLE_BATTERY_VOLTAGE \<and>
      fast_charge_enable_count s \<ge> 1)"

text \<open>
  The steps in order, each with the supply it addresses (\<open>None\<close> when the configuration
  names none): primary charger commanded FAST_ENABLE, secondary charger (if one is
  configured) commanded FAST_ENABLE, fast charger asked for 9 V, secondary charger (if
  one is configured) enabled.
\<close>

definition first_supply :: "string list \<Rightarrow> string option" where
  "first_supply ns = (case ns of [] \<Rightarrow> None | n # _ \<Rightarrow> Some n)"

definition fast_charge_enable_steps ::
  "env \<Rightarrow> cm_world \<Rightarrow> (string option \<times> power_supply_property \<times> int) list" where
  "fast_charge_enable_steps e s =
     [(first_supply (psy_charger_stat s), POWER_SUPPLY_PROP_STATUS, CM_FAST_CHARGE_ENABLE_CMD e)] @
     (if length (psy_charger_stat s) < 2 then []
      else [(Some (psy_charger_stat s ! 1), POWER_SUPPLY_PROP_STATUS,
             CM_FAST_CHARGE_ENABLE_CMD e)]) @
     [(first_supply (psy_fast_charger_stat s), POWER_SUPPLY_PROP_VOLTAGE_MAX,
       CM_FAST_CHARGE_VOLTAGE_9V)] @
     (if length (psy_charger_stat s) < 2 then []
      else [(Some (psy_charger_stat s ! 1), POWER_SUPPLY_PROP_STATUS, 1)])"

text \<open>
  Steps taken one after the other until one fails: the effects afterwards, and the
  error of the failed step (\<open>0\<close> when none failed). A step fails without a write when
  its supply is not registered (\<^verbatim>\<open>-ENODEV\<close>), and with its write when the supply refuses
  it.
\<close>

fun issue_steps ::
  "env \<Rightarrow> effect list \<Rightarrow> (string option \<times> power_supply_property \<times> int) list \<Rightarrow>
   effect list \<times> int" where
  "issue_steps e h [] = (h, 0)"
| "issue_steps e h ((t, p, v) # ws) =
     (case t of
        None \<Rightarrow> (h, - ENODEV)
      | Some n \<Rightarrow>
          if \<not> psy_found e n then (h, - ENODEV)
          else if psy_set e h n p v \<noteq> 0
            then (h @ [PsySet n p v (psy_set e h n p v)], psy_set e h n p v)
          else issue_steps e (h @ [PsySet n p v 0]) ws)"

text \<open>
  The rollback: the primary charger commanded back to DCP, one more step whose outcome
  is not looked at.
\<close>

definition fast_charge_rollback :: "env \<Rightarrow> cm_world \<Rightarrow> effect list \<Rightarrow> effect list" where
  "fast_charge_rollback e s h =
     fst (issue_steps e h
            [(first_supply (psy_charger_stat s), POWER_SUPPLY_PROP_STATUS,
              CM_FAST_CHARGE_DISABLE_CMD e)])"

subsection \<open>Leaving fast charge in the cold\<close>

text \<open>
  What \<^verbatim>\<open>try_charger_enable(cm, false)\<close> reads on its way from \<^verbatim>\<open>cm_fast_charge_disable\<close> to
  the JEITA adjuster and back to itself, and \<open>fast_charge_cold\<close>: fast charge is enabled,
  nothing is latched, JEITA is in use, the temperature is below every row of the table of
  a standard charger, and the chargers written on the way are registered.
\<close>

definition fast_charge_frame ::
  "cm_world \<Rightarrow> bool \<times> cm_charge_status set \<times> int \<times> bool \<times> charger_jeita_table list \<times> int \<times>
     string list \<times> string list" where
  "fast_charge_frame s =
     (enable_fast_charge s, charging_status s, jeita_tab_size s, jeita_disabled s,
      jeita_tab_array s CM_JEITA_DCP, temperature s, psy_charger_stat s,
      psy_fast_charger_stat s)"

definition fast_charge_cold :: "env \<Rightarrow> cm_world \<Rightarrow> bool" where
  "fast_charge_cold e s \<longleftrightarrow>
     enable_fast_charge s \<and> charging_status s = {} \<and> jeita_tab_size s > 0 \<and>
     \<not> jeita_disabled s \<and>
     jeita_scan (jeita_tab_array s CM_JEITA_DCP) (temperature s) (nat (jeita_tab_size s)) = - 1 \<and>
     psy_charger_stat s \<noteq> [] \<and> psy_found e (hd (psy_charger_stat s)) \<and>
     (length (psy_charger_stat s) \<ge> 2 \<longrightarrow> psy_found e (psy_charger_stat s ! 1)) \<and>
     psy_fast_charger_stat s \<noteq> [] \<and> psy_found e (hd (psy_fast_charger_stat s))"

subsection \<open>Categories of the charging status\<close>

text \<open>
  The bits of the charging status fall into four categories: temperature (overheat and
  cold), voltage, duration and health. \<open>one_category S\<close>: the bits of \<open>S\<close> are of at most
  one category.
\<close>

definition one_category :: "cm_charge_status set \<Rightarrow> bool" where
  "one_category S \<longleftrightarrow>
     S \<subseteq> {CM_CHARGE_TEMP_OVERHEAT, CM_CHARGE_TEMP_COLD} \<or> S \<subseteq> {CM_CHARGE_VOLTAGE_ABNORMAL} \<or>
     S \<subseteq> {CM_CHARGE_DURATION_ABNORMAL} \<or> S \<subseteq> {CM_CHARGE_HEALTH_ABNORMAL}"

text \<open>
  \<open>status_kept S S'\<close>: what a call of \<^verbatim>\<open>try_charger_enable\<close> may do to a charging status
  \<open>S\<close>. The bits that are not of the temperature category stay, and a status that is not
  empty and holds no temperature bit stays as it is.
\<close>

definition status_kept :: "cm_charge_status set \<Rightarrow> cm_charge_status set \<Rightarrow> bool" where
  "status_kept S S' \<longleftrightarrow>
     S' - {CM_CHARGE_TEMP_OVERHEAT, CM_CHARGE_TEMP_COLD} =
       S - {CM_CHARGE_TEMP_OVERHEAT, CM_CHARGE_TEMP_COLD} \<and>
     (S \<noteq> {} \<and> CM_CHARGE_TEMP_OVERHEAT \<notin> S \<and> CM_CHARGE_TEMP_COLD \<notin> S \<longrightarrow> S' = S)"

definition status_safe :: "tce \<Rightarrow> bool" where
  "status_safe tce \<longleftrightarrow>
     (\<forall>enable s r s'. tce enable s = Some (r, s') \<longrightarrow>
        status_kept (charging_status s) (charging_status s'))"

text \<open>
  \<open>no_fast_charge\<close>: fast charge is not enabled and cannot be: no fast charger is
  configured, or none is detected.
\<close>

definition no_fast_charge :: "cm_world \<Rightarrow> bool" where
  "no_fast_charge s \<longleftrightarrow>
     \<not> enable_fast_charge s \<and> (psy_fast_charger_stat s = [] \<or> \<not> is_fast_charge s)"

section \<open>Example configurations\<close>

text \<open>
  \<open>cm_world_init\<close> is the driver before \<^verbatim>\<open>charger_manager_probe\<close> has filled anything in:
  the zero-filled \<^verbatim>\<open>struct charger_manager\<close> and \<^verbatim>\<open>struct charger_desc\<close>, and the
  statics at their initialisers. \<open>env_init\<close> is a platform without any power supply.
  The configurations below are built from the two.
\<close>

definition cm_world_init :: cm_world where
  "cm_world_init = \<lparr>
     polling_mode = CM_POLL_DISABLE, polling_interval_ms = 0,
     fullbatt_vchkdrop_ms = 0, fullbatt_vchkdrop_uV = 0, fullbatt_uV = 0, fullbatt_uA = 0,
     first_fullbatt_uA = 0, fullbatt_soc = 0, fullbatt_full_capacity = 0,
     battery_present = CM_NO_BATTERY, psy_charger_stat = [], psy_fast_charger_stat = [],
     psy_fuel_gauge = [], externally_control = [],
     temp_min = 0, temp_max = 0, temp_diff = 0, cap = 0, measure_battery_temp = False,
     charging_max_duration_ms = 0, discharging_max_duration_ms = 0,
     charge_voltage_max = 0, charge_voltage_drop = 0,
     normal_charge_voltage_max = 0, normal_charge_voltage_drop = 0,
     fast_charge_voltage_max = 0, fast_charge_voltage_drop = 0,
     double_ic_total_limit_current = 0,
     jeita_tab = [], jeita_tab_size = 0, jeita_disabled = False, jeita_tab_array = (\<lambda>_. []),
     temperature = 0, shutdown_voltage = 0, trickle_time_out = 0, cap_one_time = 0,
     wdt_interval = 0, trickle_time = 0, trickle_start_time = 0, update_capacity_time = 0,
     last_query_time = 0, force_set_full = False, charger_status = 0, charger_type = 0,
     first_trigger_cnt = 0, trigger_cnt = 0, uvlo_trigger_cnt = 0, low_temp_trigger_cnt = 0,
     thm_adjust_cur = 0, is_fast_charge = False, enable_fast_charge = False,
     fast_charge_enable_count = 0, fast_charge_disable_count = 0,
     charger_enabled = False, emergency_stop = CM_EVENT_UNKNOWN, charging_status = {},
     charging_start_time = 0, charging_end_time = 0, fullbatt_vchk_jiffies_at = 0,
     tzd_batt = False, track_cap_tracking = False, track_state = CAP_TRACK_INIT,
     track_start_cap = 0, track_start_clbcnt = 0, track_start_time = 0,
     track_end_vol = 0, track_end_cur = 0,
     cm_suspended = False, cm_timer_set = False, cm_suspend_duration_ms = 0, next_polling = 0,
     allow_charger_enable = False, is_charger_mode = False,
     env_str = [], env_str_save = [], jeita_status = 0,
     retry_cnt = 5, last_fuel_cap = CM_CAP_MAGIC_NUM,
     WIRELESS_ONLINE = 0, AC_ONLINE = 0, USB_ONLINE = 0, effects = [] \<rparr>"

definition jeita_monitor_statics_init :: jeita_monitor_statics where
  "jeita_monitor_statics_init =
     \<lparr>last_jeita_status = - 1, temp_up_trigger = 0, temp_down_trigger = 0, is_normal = True\<rparr>"

definition env_init :: env where
  "env_init = \<lparr>
     psy_found = (\<lambda>_. False), psy_get = (\<lambda>_ _. (- ENODEV, 0)), psy_set = (\<lambda>_ _ _ _. 0),
     ktime_ms = 0, boottime_sec = 0, thermal_zone_get_temp = (0, 0), ocv2cap = (\<lambda>_. 0),
     filp_open_ok = False, kernel_read = (- 1, 0, 0), kernel_write = (\<lambda>_ _. 0),
     CM_FAST_CHARGE_ENABLE_CMD = 0, CM_FAST_CHARGE_DISABLE_CMD = 0,
     jiffies = 0, jiffies_to_msecs = (\<lambda>j. j * 4), msecs_to_jiffies = (\<lambda>m. (m + 3) div 4),
     cm_timer = True, alarm_expires_remaining = 0 \<rparr>"


definition thermal_crossed :: cm_world where
  "thermal_crossed = cm_world_init\<lparr>measure_battery_temp := True, temperature := 120,
     temp_min := 100, temp_max := 150, temp_diff := 50, emergency_stop := CM_EVENT_BATT_COLD\<rparr>"

definition track_file_env :: "32 word \<times> 32 word \<Rightarrow> env" where
  "track_file_env file_buf = env_init\<lparr>psy_found := (\<lambda>n. n = ''sc27xx-fgu''),
     psy_get := (\<lambda>n p. (0, 3000000)), filp_open_ok := True, kernel_read := (8, file_buf)\<rparr>"

definition track_world :: cm_world where
  "track_world = cm_world_init\<lparr>psy_fuel_gauge := ''sc27xx-fgu''\<rparr>"

text \<open>
  The same phone when a tracked capacity waits to be written, and a gauge whose design
  capacity is close to the largest that a 32-bit \<^verbatim>\<open>int\<close> holds in micro-ampere-hours.
\<close>

definition track_done_world :: cm_world where
  "track_done_world = track_world\<lparr>track_state := CAP_TRACK_DONE\<rparr>"

definition track_big_env :: "32 word \<times> 32 word \<Rightarrow> env" where
  "track_big_env file_buf = env_init\<lparr>psy_found := (\<lambda>n. n = ''sc27xx-fgu''),
     psy_get := (\<lambda>n p. (0, 2147483000)), filp_open_ok := True, kernel_read := (8, file_buf)\<rparr>"

definition fullbatt_cfg :: cm_world where
  "fullbatt_cfg = cm_world_init\<lparr>battery_present := CM_BATTERY_PRESENT,
     psy_fuel_gauge := ''sc27xx-fgu'', fullbatt_uV := 4350000, fullbatt_uA := 120000,
     first_fullbatt_uA := 150000\<rparr>"

definition fgu_env :: "int \<Rightarrow> int \<Rightarrow> env" where
  "fgu_env uV uA = env_init\<lparr>psy_found := (\<lambda>n. n = ''sc27xx-fgu''),
     psy_get := (\<lambda>n p. if p = POWER_SUPPLY_PROP_VOLTAGE_AVG then (0, uV)
                        else if p = POWER_SUPPLY_PROP_CURRENT_AVG then (0, uA) else (0, 0))\<rparr>"

text \<open>
  A phone with two charger ICs, a fast charger and a fuel gauge, on a detected fast
  charger, with the JEITA tables of a typical device tree (temperatures in tenths of a
  degree), the enable condition already seen once.
\<close>

definition jeita_table_example :: "charger_jeita_table list" where
  "jeita_table_example =
     [\<lparr>temp = 0, recovery_temp = 30, current_ua = 0, term_volt = 4350000\<rparr>,
      \<lparr>temp = 150, recovery_temp = 180, current_ua = 700000, term_volt = 4350000\<rparr>,
      \<lparr>temp = 450, recovery_temp = 420, current_ua = 2000000, term_volt = 4350000\<rparr>,
      \<lparr>temp = 600, recovery_temp = 570, current_ua = 700000, term_volt = 4100000\<rparr>]"

definition fchg_cfg :: cm_world where
  "fchg_cfg = cm_world_init\<lparr>battery_present := CM_BATTERY_PRESENT,
     psy_charger_stat := [''fan54015_charger'', ''bq2560x_slave''],
     psy_fast_charger_stat := [''sc2730_fast_charger''],
     psy_fuel_gauge := ''sc27xx-fgu'',
     charge_voltage_max := 6500000, charge_voltage_drop := 700000,
     normal_charge_voltage_max := 6500000, normal_charge_voltage_drop := 700000,
     fast_charge_voltage_max := 10500000, fast_charge_voltage_drop := 700000,
     jeita_tab := jeita_table_example, jeita_tab_size := 4,
     jeita_tab_array := (\<lambda>_. jeita_table_example),
     temperature := 250, thm_adjust_cur := - EINVAL,
     is_fast_charge := True, fast_charge_enable_count := 1, charger_enabled := True\<rparr>"

definition fchg_env :: "(effect list \<Rightarrow> string \<Rightarrow> power_supply_property \<Rightarrow> int \<Rightarrow> int) \<Rightarrow> env" where
  "fchg_env answers = env_init\<lparr>
     psy_found := (\<lambda>n. n \<in> {''fan54015_charger'', ''bq2560x_slave'', ''sc2730_fast_charger'',
                            ''sc27xx-fgu''}),
     psy_get := (\<lambda>n p. if p = POWER_SUPPLY_PROP_VOLTAGE_AVG then (0, 3800000)
                        else if p = POWER_SUPPLY_PROP_CURRENT_AVG then (0, 500000)
                        else (0, 1)),
     psy_set := answers,
     CM_FAST_CHARGE_ENABLE_CMD := 3, CM_FAST_CHARGE_DISABLE_CMD := 4\<rparr>"





text \<open>
  A phone with one charger IC and a fuel gauge. \<open>gauge_env online soc boot now\<close> answers
  every read: the charger's \<open>ONLINE\<close>, the gauge's capacity and boot capacity (per mille),
  4.0 V, 200 mA into the battery, 25 degrees, at boot time \<open>now\<close>.
\<close>

definition gauge_world :: cm_world where
  "gauge_world = cm_world_init\<lparr>battery_present := CM_BATTERY_PRESENT,
     psy_charger_stat := [''fan54015_charger''], psy_fuel_gauge := ''sc27xx-fgu'',
     cap_one_time := 30, trickle_time_out := 1500\<rparr>"

definition gauge_env :: "int \<Rightarrow> int \<Rightarrow> int \<Rightarrow> int \<Rightarrow> env" where
  "gauge_env online soc boot now = env_init\<lparr>
     psy_found := (\<lambda>n. n \<in> {''fan54015_charger'', ''sc27xx-fgu''}),
     psy_get := (\<lambda>n p.
        if p = POWER_SUPPLY_PROP_ONLINE then (0, online)
        else if p = POWER_SUPPLY_PROP_CAPACITY then (0, soc)
        else if p = POWER_SUPPLY_PROP_CAPACITY_LEVEL then (0, boot)
        else if p = POWER_SUPPLY_PROP_VOLTAGE_AVG \<or> p = POWER_SUPPLY_PROP_VOLTAGE_OCV
          then (0, 4000000)
        else if p = POWER_SUPPLY_PROP_CURRENT_AVG then (0, 200000)
        else if p = POWER_SUPPLY_PROP_TEMP then (0, 250)
        else if p = POWER_SUPPLY_PROP_STATUS then (0, POWER_SUPPLY_STATUS_CHARGING)
        else (0, 0)),
     boottime_sec := now\<rparr>"

text \<open>The same phone charging at 50.4 percent, and held full by the trickle timer at 95 percent.\<close>

definition charging_world :: cm_world where
  "charging_world = gauge_world\<lparr>cap := 504, charger_enabled := True\<rparr>"

definition forced_full_world :: cm_world where
  "forced_full_world = gauge_world\<lparr>cap := 950, force_set_full := True\<rparr>"

text \<open>The phone of \<open>gauge_world\<close> with a JEITA table, charging on a standard charger.\<close>

definition jeita_world :: cm_world where
  "jeita_world = gauge_world\<lparr>jeita_tab := jeita_table_example, jeita_tab_size := 4,
     jeita_tab_array := (\<lambda>_. jeita_table_example), thm_adjust_cur := - EINVAL,
     charger_enabled := True\<rparr>"

text \<open>
  Two afternoons of the phone on its charger, a tick every 15 seconds. In the first the
  battery warms from 10 to 25 degrees and cools again. In the second the cable is pulled
  for one tick while the battery is at 25 degrees, and the battery is back at 10 degrees
  when the cable returns.
\<close>

definition warming_ticks :: "(env \<times> int) list" where
  "warming_ticks =
     [(gauge_env 1 700 0 60, 100), (gauge_env 1 700 0 75, 250), (gauge_env 1 700 0 90, 250),
      (gauge_env 1 700 0 105, 250), (gauge_env 1 700 0 120, 250), (gauge_env 1 700 0 135, 100)]"

definition replug_ticks :: "(env \<times> int) list" where
  "replug_ticks =
     [(gauge_env 1 700 0 60, 100), (gauge_env 1 700 0 75, 250), (gauge_env 1 700 0 90, 250),
      (gauge_env 0 700 0 105, 250), (gauge_env 1 700 0 120, 100), (gauge_env 1 700 0 135, 250)]"

text \<open>
  A third afternoon, the cable always in: the battery warms from 10 to 25 degrees, stays
  there for three ticks, and is at 50 degrees on the fifth tick.
\<close>

definition heating_ticks :: "(env \<times> int) list" where
  "heating_ticks =
     [(gauge_env 1 700 0 60, 100), (gauge_env 1 700 0 75, 250), (gauge_env 1 700 0 90, 250),
      (gauge_env 1 700 0 105, 250), (gauge_env 1 700 0 120, 500)]"

text \<open>
  The phone of \<open>gauge_world\<close> on battery. A charger driver reports \<open>Charging\<close> while the
  phone is awake; the phone is suspended; the driver reports \<open>Charging\<close> twice and then
  \<open>Discharging\<close>; the phone resumes, with nothing for the monitor to report.
\<close>

definition suspend_dedup_run :: "(jeita_monitor_statics \<times> cm_world) option" where
  "suspend_dedup_run =
     (let e = gauge_env 0 700 0 60; tce = try_charger_enable 3 e
      in do {
        (st, s1) \<leftarrow> cm_notify_type_handle tce e jeita_monitor_statics_init CM_EVENT_OTHERS
                       (Some ''Charging'') gauge_world;
        s2 \<leftarrow> cm_suspend_prepare tce e s1;
        (st, s3) \<leftarrow> cm_notify_type_handle tce e st CM_EVENT_OTHERS (Some ''Charging'') s2;
        (st, s4) \<leftarrow> cm_notify_type_handle tce e st CM_EVENT_OTHERS (Some ''Charging'') s3;
        (st, s5) \<leftarrow> cm_notify_type_handle tce e st CM_EVENT_OTHERS (Some ''Discharging'') s4;
        cm_suspend_complete tce e st s5
      })"

text \<open>
  The phone of \<open>fchg_cfg\<close> seen over two monitor ticks with a capacity update between
  them. At the first tick the battery is at 25 degrees and the charger output at 9 V: the
  fast-charge handshake completes. Then the gauge reads -5 degrees and the charger output
  11 V, above the 10.5 V allowed in fast charge. \<open>answers\<close> are the return codes of the
  writes, \<open>depth\<close> the depth of call stack allowed to \<^verbatim>\<open>try_charger_enable\<close>.
\<close>

definition fchg_env_at ::
  "int \<Rightarrow> int \<Rightarrow> (effect list \<Rightarrow> string \<Rightarrow> power_supply_property \<Rightarrow> int \<Rightarrow> int) \<Rightarrow> env" where
  "fchg_env_at charge_vol t answers = (fchg_env answers)\<lparr>
     psy_get := (\<lambda>n p. if p = POWER_SUPPLY_PROP_VOLTAGE_AVG then (0, 3800000)
                        else if p = POWER_SUPPLY_PROP_CURRENT_AVG then (0, 500000)
                        else if p = POWER_SUPPLY_PROP_CONSTANT_CHARGE_VOLTAGE then (0, charge_vol)
                        else if p = POWER_SUPPLY_PROP_TEMP then (0, t)
                        else (0, 1))\<rparr>"

definition cold_overvoltage_ticks ::
  "nat \<Rightarrow> (effect list \<Rightarrow> string \<Rightarrow> power_supply_property \<Rightarrow> int \<Rightarrow> int) \<Rightarrow>
   (bool \<times> jeita_monitor_statics \<times> cm_world) option" where
  "cold_overvoltage_ticks depth answers =
     (let e1 = fchg_env_at 9000000 250 answers; e2 = fchg_env_at 11000000 (- 50) answers
      in do {
        (b, st, s1) \<leftarrow> u_cm_monitor (try_charger_enable depth e1) e1 jeita_monitor_statics_init
                         (fchg_cfg\<lparr>cap_one_time := 30\<rparr>);
        s2 \<leftarrow> cm_batt_works e2 s1;
        u_cm_monitor (try_charger_enable depth e2) e2 st s2
      })"

text \<open>The fast charger accepts a request for 5 V once and refuses it when it is repeated.\<close>

definition refuse_second_5V :: "effect list \<Rightarrow> string \<Rightarrow> power_supply_property \<Rightarrow> int \<Rightarrow> int" where
  "refuse_second_5V h n p v =
     (if p = POWER_SUPPLY_PROP_VOLTAGE_MAX \<and> v = CM_FAST_CHARGE_VOLTAGE_5V \<and>
         PsySet n p v 0 \<in> set h
      then - 5 else 0)"

text \<open>
  The phone of \<open>fchg_cfg\<close> on its charger without fast charge, the battery at -5
  degrees and the charger output at 11 V, above the 6.5 V allowed.
\<close>

definition overvoltage_env :: env where
  "overvoltage_env = fchg_env_at 11000000 (- 50) (\<lambda>h n p v. 0)"

definition overvoltage_world :: cm_world where
  "overvoltage_world = fchg_cfg\<lparr>temperature := - 50\<rparr>"

text \<open>The same phone when the charger plugged in is not a fast charger.\<close>

definition overvoltage_plain_world :: cm_world where
  "overvoltage_plain_world = overvoltage_world\<lparr>is_fast_charge := False\<rparr>"

section \<open>Properties\<close>

subsection \<open>Thermal status\<close>

text \<open>
  Claim C4, as amended. When the temperature \<open>t\<close> is read, the check returns Overheat
  exactly when \<open>t\<close> exceeds the upper limit, Cold exactly when \<open>t\<close> is below the lower
  limit and does not exceed the upper limit, and no alert exactly when \<open>t\<close> is between
  the limits; the limits are \<open>temp_max - temp_diff\<close> and \<open>temp_min + temp_diff\<close> when an
  emergency stop is latched, and \<open>temp_max\<close> and \<open>temp_min\<close> otherwise.
\<close>

theorem cm_check_thermal_status_limits:
  assumes "cm_get_battery_temperature e s = (0, t)"
  shows "let upper = (if emergency_stop s \<noteq> CM_EVENT_UNKNOWN then temp_max s - temp_diff s
                      else temp_max s);
             lower = (if emergency_stop s \<noteq> CM_EVENT_UNKNOWN then temp_min s + temp_diff s
                      else temp_min s)
         in (cm_check_thermal_status e s = CM_EVENT_BATT_OVERHEAT \<longleftrightarrow> t > upper) \<and>
            (cm_check_thermal_status e s = CM_EVENT_BATT_COLD \<longleftrightarrow> t < lower \<and> t \<le> upper) \<and>
            (cm_check_thermal_status e s = CM_EVENT_UNKNOWN \<longleftrightarrow> lower \<le> t \<and> t \<le> upper)"
  using assms by (simp add: cm_check_thermal_status_def Let_def)

theorem cm_check_thermal_status_limits_witness:
  "cm_get_battery_temperature env_init thermal_crossed = (0, 120) \<and>
   cm_check_thermal_status env_init thermal_crossed = CM_EVENT_BATT_OVERHEAT"
proof -
  have r: "cm_get_battery_temperature env_init thermal_crossed = (0, 120)"
    by (simp add: cm_get_battery_temperature_def thermal_crossed_def cm_world_init_def)
  from cm_check_thermal_status_limits [OF r] show ?thesis
    using r by (simp add: thermal_crossed_def cm_world_init_def Let_def)
qed

text \<open>
  Claim C4 as stated fails where the limits cross. With \<open>temp_min = 100\<close>,
  \<open>temp_max = 150\<close>, \<open>temp_diff = 50\<close> and an emergency stop latched, the limits are
  \<open>100\<close> (upper) and \<open>150\<close> (lower); at \<open>t = 120\<close> the temperature is below the lower
  limit, and the check returns Overheat, not Cold.
\<close>

theorem cm_check_thermal_status_counterexample:
  "cm_get_battery_temperature env_init thermal_crossed = (0, 120) \<and>
   emergency_stop thermal_crossed \<noteq> CM_EVENT_UNKNOWN \<and>
   120 < temp_min thermal_crossed + temp_diff thermal_crossed \<and>
   cm_check_thermal_status env_init thermal_crossed \<noteq> CM_EVENT_BATT_COLD"
  by (simp add: cm_check_thermal_status_def cm_get_battery_temperature_def thermal_crossed_def
      cm_world_init_def Let_def)

subsection \<open>Capacity tracking file\<close>

lemma xor_key_cancel: "(a XOR k) XOR k = (a :: 32 word)"
  by (simp add: xor.assoc)

lemma track_decrypt_encrypt: "track_decrypt (track_encrypt c) = Some c"
  by (simp add: track_decrypt_def track_encrypt_def Let_def xor_key_cancel)

lemma track_decrypt_corrupt:
  "w1 \<noteq> snd (track_encrypt c) \<Longrightarrow> track_decrypt (fst (track_encrypt c), w1) = None"
proof -
  assume w: "w1 \<noteq> snd (track_encrypt c)"
  have "c \<noteq> w1 XOR CM_TRACK_CAPACITY_KEY1"
  proof
    assume "c = w1 XOR CM_TRACK_CAPACITY_KEY1"
    then have "c XOR CM_TRACK_CAPACITY_KEY1 = w1" by (simp add: xor_key_cancel)
    with w show False by (simp add: track_encrypt_def)
  qed
  then show ?thesis
    by (simp add: track_decrypt_def track_encrypt_def Let_def xor_key_cancel)
qed

lemma word_of_int_sint_times: "(word_of_int (sint c * 1000) :: 32 word) = c * 1000"
  by simp

text \<open>
  Claim C9. The work on the tracking file, for every 32-bit capacity \<open>c\<close>.
  In state \<open>CAP_TRACK_DONE\<close> (the file opens, the design capacity is read and gives
  \<open>c\<close>) it writes the two words \<open>c XOR K0\<close> and \<open>c XOR K1\<close> and goes to
  \<open>CAP_TRACK_IDLE\<close>. In state \<open>CAP_TRACK_INIT\<close> (the file opens, the design capacity \<open>v\<close>
  is read, \<^verbatim>\<open>kernel_read\<close> does not fail) on a file whose first word is \<open>c XOR K0\<close>:
  if the second word is \<open>c XOR K1\<close>, the capacity decoded is \<open>c\<close> again, it is adopted
  exactly when \<open>|v/1000 - c| < (v/1000)/2\<close>, by one write of \<open>c * 1000\<close> (a 32-bit product)
  to the fuel gauge, and the state is \<open>CAP_TRACK_IDLE\<close>; if the second word is anything
  else, the work ends in \<open>CAP_TRACK_IDLE\<close> with nothing else changed: no design capacity
  is set.
\<close>

theorem cm_track_file_roundtrip:
  fixes c :: "32 word"
  shows
    "(filp_open_ok e \<and> get_batt_total_cap e s = (0, v) \<and> track_state s = CAP_TRACK_DONE \<and>
      word_of_int v div 1000 = c \<longrightarrow>
        cm_track_capacity_work e s =
          s\<lparr>track_state := CAP_TRACK_IDLE,
            effects := effects s @
              [FileWrite (c XOR CM_TRACK_CAPACITY_KEY0) (c XOR CM_TRACK_CAPACITY_KEY1)
                 (kernel_write e (c XOR CM_TRACK_CAPACITY_KEY0) (c XOR CM_TRACK_CAPACITY_KEY1))]\<rparr>) \<and>
     (filp_open_ok e \<and> get_batt_total_cap e s = (0, v) \<and> track_state s = CAP_TRACK_INIT \<and>
      fst (kernel_read e) \<ge> 0 \<and> fst (snd (kernel_read e)) = c XOR CM_TRACK_CAPACITY_KEY0 \<longrightarrow>
        (snd (snd (kernel_read e)) = c XOR CM_TRACK_CAPACITY_KEY1 \<longrightarrow>
           cm_track_capacity_work e s =
             (if abs_u32 (word_of_int v div 1000 - c) < word_of_int v div 1000 div 2
              then s\<lparr>track_state := CAP_TRACK_IDLE,
                     effects := effects s @
                       [PsySet (psy_fuel_gauge s) POWER_SUPPLY_PROP_ENERGY_FULL_DESIGN
                          (sint (c * 1000))
                          (psy_set e (effects s) (psy_fuel_gauge s)
                             POWER_SUPPLY_PROP_ENERGY_FULL_DESIGN (sint (c * 1000)))]\<rparr>
              else s\<lparr>track_state := CAP_TRACK_IDLE\<rparr>)) \<and>
        (snd (snd (kernel_read e)) \<noteq> c XOR CM_TRACK_CAPACITY_KEY1 \<longrightarrow>
           cm_track_capacity_work e s = s\<lparr>track_state := CAP_TRACK_IDLE\<rparr>))"
proof (intro conjI impI)
  assume a: "filp_open_ok e \<and> get_batt_total_cap e s = (0, v) \<and> track_state s = CAP_TRACK_DONE \<and>
      word_of_int v div 1000 = c"
  then show "cm_track_capacity_work e s =
          s\<lparr>track_state := CAP_TRACK_IDLE,
            effects := effects s @
              [FileWrite (c XOR CM_TRACK_CAPACITY_KEY0) (c XOR CM_TRACK_CAPACITY_KEY1)
                 (kernel_write e (c XOR CM_TRACK_CAPACITY_KEY0) (c XOR CM_TRACK_CAPACITY_KEY1))]\<rparr>"
    by (simp add: cm_track_capacity_work_def Let_def track_encrypt_def)
next
  assume a: "filp_open_ok e \<and> get_batt_total_cap e s = (0, v) \<and> track_state s = CAP_TRACK_INIT \<and>
      fst (kernel_read e) \<ge> 0 \<and> fst (snd (kernel_read e)) = c XOR CM_TRACK_CAPACITY_KEY0"
  assume b: "snd (snd (kernel_read e)) = c XOR CM_TRACK_CAPACITY_KEY1"
  from a b obtain n where k: "kernel_read e = (n, c XOR CM_TRACK_CAPACITY_KEY0, c XOR CM_TRACK_CAPACITY_KEY1)"
    and n: "0 \<le> n"
    by (cases "kernel_read e") auto
  have f: "psy_found e (psy_fuel_gauge s)"
    using a by (auto simp add: get_batt_total_cap_def fuel_gauge_get_def split: if_splits)
  have d: "track_decrypt (c XOR CM_TRACK_CAPACITY_KEY0, c XOR CM_TRACK_CAPACITY_KEY1) = Some c"
    using track_decrypt_encrypt [of c] by (simp add: track_encrypt_def)
  show "cm_track_capacity_work e s =
             (if abs_u32 (word_of_int v div 1000 - c) < word_of_int v div 1000 div 2
              then s\<lparr>track_state := CAP_TRACK_IDLE,
                     effects := effects s @
                       [PsySet (psy_fuel_gauge s) POWER_SUPPLY_PROP_ENERGY_FULL_DESIGN
                          (sint (c * 1000))
                          (psy_set e (effects s) (psy_fuel_gauge s)
                             POWER_SUPPLY_PROP_ENERGY_FULL_DESIGN (sint (c * 1000)))]\<rparr>
              else s\<lparr>track_state := CAP_TRACK_IDLE\<rparr>)"
    using a k n f d
    by (simp add: cm_track_capacity_work_def Let_def set_batt_total_cap_def fuel_gauge_set_def
        power_supply_set_property_def word_of_int_sint_times)
next
  assume a: "filp_open_ok e \<and> get_batt_total_cap e s = (0, v) \<and> track_state s = CAP_TRACK_INIT \<and>
      fst (kernel_read e) \<ge> 0 \<and> fst (snd (kernel_read e)) = c XOR CM_TRACK_CAPACITY_KEY0"
  assume b: "snd (snd (kernel_read e)) \<noteq> c XOR CM_TRACK_CAPACITY_KEY1"
  from a b obtain n w1 where k: "kernel_read e = (n, c XOR CM_TRACK_CAPACITY_KEY0, w1)"
    and n: "0 \<le> n" and w: "w1 \<noteq> c XOR CM_TRACK_CAPACITY_KEY1"
    by (cases "kernel_read e") auto
  have d: "track_decrypt (c XOR CM_TRACK_CAPACITY_KEY0, w1) = None"
    using track_decrypt_corrupt [of w1 c] w by (simp add: track_encrypt_def)
  show "cm_track_capacity_work e s = s\<lparr>track_state := CAP_TRACK_IDLE\<rparr>"
    using a k n d by (simp add: cm_track_capacity_work_def Let_def)
qed

text \<open>
  On the example phone (design capacity 3000 mAh): the words written for 3000, the same
  words read back, a file with a wrong second word, and a capacity whose product with
  1000 leaves the range of a 32-bit \<^verbatim>\<open>int\<close>.
\<close>

theorem cm_track_file_roundtrip_witness:
  "cm_track_capacity_work (track_file_env (0, 0)) track_done_world =
     track_done_world\<lparr>track_state := CAP_TRACK_IDLE,
       effects := [FileWrite 538315934 354492079 0]\<rparr> \<and>
   cm_track_capacity_work (track_file_env (538315934, 354492079)) track_world =
     track_world\<lparr>track_state := CAP_TRACK_IDLE,
       effects := [PsySet ''sc27xx-fgu'' POWER_SUPPLY_PROP_ENERGY_FULL_DESIGN 3000000 0]\<rparr> \<and>
   cm_track_capacity_work (track_file_env (538315934, 0)) track_world =
     track_world\<lparr>track_state := CAP_TRACK_IDLE\<rparr> \<and>
   cm_track_capacity_work (track_big_env (540459962, 352440715)) track_world =
     track_world\<lparr>track_state := CAP_TRACK_IDLE,
       effects := [PsySet ''sc27xx-fgu'' POWER_SUPPLY_PROP_ENERGY_FULL_DESIGN (- 2147483296) 0]\<rparr>"
proof -
  have g: "\<And>f s. psy_fuel_gauge s = ''sc27xx-fgu'' \<Longrightarrow>
              get_batt_total_cap (track_file_env f) s = (0, 3000000)"
    "\<And>f s. psy_fuel_gauge s = ''sc27xx-fgu'' \<Longrightarrow>
              get_batt_total_cap (track_big_env f) s = (0, 2147483000)"
    by (simp_all add: get_batt_total_cap_def fuel_gauge_get_def track_file_env_def
        track_big_env_def env_init_def)
  have w: "psy_fuel_gauge track_world = ''sc27xx-fgu''"
    "psy_fuel_gauge track_done_world = ''sc27xx-fgu''"
    "track_state track_world = CAP_TRACK_INIT" "track_state track_done_world = CAP_TRACK_DONE"
    "effects track_world = []" "effects track_done_world = []"
    by (simp_all add: track_done_world_def track_world_def cm_world_init_def)
  have o: "\<And>f. filp_open_ok (track_file_env f)" "\<And>f. kernel_read (track_file_env f) = (8, f)"
    "\<And>f. filp_open_ok (track_big_env f)" "\<And>f. kernel_read (track_big_env f) = (8, f)"
    "\<And>f a b. kernel_write (track_file_env f) a b = 0"
    "\<And>f h n p v. psy_set (track_file_env f) h n p v = 0"
    "\<And>f h n p v. psy_set (track_big_env f) h n p v = 0"
    by (simp_all add: track_file_env_def track_big_env_def env_init_def)
  have x: "(3000 :: 32 word) XOR 538314534 = 538315934" "(3000 :: 32 word) XOR 354489623 = 354492079"
    "(2147484 :: 32 word) XOR 538314534 = 540459962" "(2147484 :: 32 word) XOR 354489623 = 352440715"
    "(word_of_int 3000000 :: 32 word) div 1000 = 3000"
    "(word_of_int 2147483000 :: 32 word) div 1000 = 2147483"
    "sint (3000 * 1000 :: 32 word) = 3000000" "sint (2147484 * 1000 :: 32 word) = - 2147483296"
    "abs_u32 (3000 - 3000) < (3000 :: 32 word) div 2"
    "abs_u32 (2147483 - 2147484) < (2147483 :: 32 word) div 2"
    by code_simp+
  from cm_track_file_roundtrip [where e = "track_file_env (0, 0)" and s = track_done_world
      and v = 3000000 and c = 3000]
  have a: "cm_track_capacity_work (track_file_env (0, 0)) track_done_world =
     track_done_world\<lparr>track_state := CAP_TRACK_IDLE,
       effects := [FileWrite 538315934 354492079 0]\<rparr>"
    by (simp add: g w o x abs_u32_def)
  from cm_track_file_roundtrip [where e = "track_file_env (538315934, 354492079)"
      and s = track_world and v = 3000000 and c = 3000]
  have b: "cm_track_capacity_work (track_file_env (538315934, 354492079)) track_world =
     track_world\<lparr>track_state := CAP_TRACK_IDLE,
       effects := [PsySet ''sc27xx-fgu'' POWER_SUPPLY_PROP_ENERGY_FULL_DESIGN 3000000 0]\<rparr>"
    by (simp add: g w o x abs_u32_def)
  from cm_track_file_roundtrip [where e = "track_file_env (538315934, 0)"
      and s = track_world and v = 3000000 and c = 3000]
  have c: "cm_track_capacity_work (track_file_env (538315934, 0)) track_world =
     track_world\<lparr>track_state := CAP_TRACK_IDLE\<rparr>"
    by (simp add: g w o x abs_u32_def)
  from cm_track_file_roundtrip [where e = "track_big_env (540459962, 352440715)"
      and s = track_world and v = 2147483000 and c = 2147484]
  have d: "cm_track_capacity_work (track_big_env (540459962, 352440715)) track_world =
     track_world\<lparr>track_state := CAP_TRACK_IDLE,
       effects := [PsySet ''sc27xx-fgu'' POWER_SUPPLY_PROP_ENERGY_FULL_DESIGN (- 2147483296) 0]\<rparr>"
    by (simp add: g w o x abs_u32_def)
  from a b c d show ?thesis by simp
qed

subsection \<open>Full-battery detector\<close>

lemma fullbatt_sampleD:
  assumes "fullbatt_sample e s = Some (uV, uA)"
  shows "is_batt_present e s" "psy_found e (psy_fuel_gauge s)"
    "\<not> (fullbatt_full_capacity s > 0 \<and>
            (case psy_get e (psy_fuel_gauge s) POWER_SUPPLY_PROP_CHARGE_FULL of
               (ret, v) \<Rightarrow> ret = 0 \<and> v > fullbatt_full_capacity s))"
    "fullbatt_uV s > 0" "fullbatt_uA s > 0"
    "get_batt_uV e s = (0, uV)" "get_batt_uA e s = (0, uA)"
  using assms by (simp_all add: fullbatt_sample_def prod_eq_iff split: if_splits)

lemma is_full_charged_window:
  assumes "fullbatt_sample e s = Some (uV, uA)"
    and "first_fullbatt_uA s > 0" and "uV \<ge> fullbatt_uV s"
    and "fullbatt_uA s < uA" and "uA \<le> first_fullbatt_uA s"
  shows "is_full_charged e s =
           (False, s\<lparr>first_trigger_cnt := first_trigger_cnt s + 1,
                     force_set_full := (first_trigger_cnt s + 1 > 1 \<or> force_set_full s),
                     trigger_cnt := 0\<rparr>)"
proof -
  note d = fullbatt_sampleD [OF assms(1)]
  have "uA \<ge> 0" using d(5) assms(4) by simp
  then show ?thesis
    using d assms(2-) by (simp add: is_full_charged_def Let_def)
qed

lemma is_full_charged_full_first:
  assumes "fullbatt_sample e s = Some (uV, uA)"
    and "uV \<ge> fullbatt_uV s" and "0 \<le> uA" and "uA \<le> fullbatt_uA s" and "trigger_cnt s = 0"
  shows "is_full_charged e s = (False, s\<lparr>first_trigger_cnt := 0, trigger_cnt := 1\<rparr>)"
proof -
  note d = fullbatt_sampleD [OF assms(1)]
  show ?thesis
    using d assms(2-) by (simp add: is_full_charged_def Let_def)
qed

lemma fullbatt_sample_fgu_env:
  assumes "psy_fuel_gauge s = ''sc27xx-fgu''" and "battery_present s = CM_BATTERY_PRESENT"
    and "fullbatt_full_capacity s = 0" and "fullbatt_uV s > 0" and "fullbatt_uA s > 0"
  shows "fullbatt_sample (fgu_env uV uA) s = Some (uV, uA)"
  using assms
  by (simp add: fullbatt_sample_def fgu_env_def env_init_def is_batt_present_def
        get_batt_uV_def get_batt_uA_def fuel_gauge_get_def)

lemma fullbatt_cfg_fields:
  "psy_fuel_gauge fullbatt_cfg = ''sc27xx-fgu''" "battery_present fullbatt_cfg = CM_BATTERY_PRESENT"
  "fullbatt_full_capacity fullbatt_cfg = 0" "fullbatt_uV fullbatt_cfg = 4350000"
  "fullbatt_uA fullbatt_cfg = 120000" "first_fullbatt_uA fullbatt_cfg = 150000"
  "first_trigger_cnt fullbatt_cfg = 0" "trigger_cnt fullbatt_cfg = 0"
  "\<not> force_set_full fullbatt_cfg"
  by (simp_all add: fullbatt_cfg_def cm_world_init_def)

text \<open>
  Claim C5, as amended. If on two consecutive evaluations that get as far as the
  voltage and current thresholds the battery voltage is at least \<open>fullbatt_uV\<close> and the
  battery current \<open>I\<close> satisfies \<open>fullbatt_uA < I \<le> first_fullbatt_uA\<close> (with
  \<open>first_fullbatt_uA\<close> configured), then \<open>force_set_full\<close> is true afterwards; both
  evaluations answer "not full", write nothing to any supply and leave the charger as it
  was.
\<close>

theorem is_full_charged_first_full:
  assumes "fullbatt_sample e1 s = Some (uV1, uA1)"
    and "fullbatt_sample e2 (snd (is_full_charged e1 s)) = Some (uV2, uA2)"
    and "first_fullbatt_uA s > 0" and "first_trigger_cnt s \<ge> 0"
    and "uV1 \<ge> fullbatt_uV s" and "fullbatt_uA s < uA1" and "uA1 \<le> first_fullbatt_uA s"
    and "uV2 \<ge> fullbatt_uV s" and "fullbatt_uA s < uA2" and "uA2 \<le> first_fullbatt_uA s"
  shows "force_set_full (snd (is_full_charged e2 (snd (is_full_charged e1 s)))) \<and>
         \<not> fst (is_full_charged e1 s) \<and>
         \<not> fst (is_full_charged e2 (snd (is_full_charged e1 s))) \<and>
         effects (snd (is_full_charged e2 (snd (is_full_charged e1 s)))) = effects s \<and>
         charger_enabled (snd (is_full_charged e2 (snd (is_full_charged e1 s)))) = charger_enabled s"
proof -
  define s1 where "s1 = s\<lparr>first_trigger_cnt := first_trigger_cnt s + 1,
                     force_set_full := (first_trigger_cnt s + 1 > 1 \<or> force_set_full s),
                     trigger_cnt := 0\<rparr>"
  have 1: "is_full_charged e1 s = (False, s1)"
    unfolding s1_def using assms(1,3,5,6,7) by (rule is_full_charged_window)
  have f: "fullbatt_sample e2 s1 = Some (uV2, uA2)" using assms(2) by (simp add: 1)
  have c: "first_fullbatt_uA s1 > 0" "uV2 \<ge> fullbatt_uV s1" "fullbatt_uA s1 < uA2"
    "uA2 \<le> first_fullbatt_uA s1"
    using assms by (simp_all add: s1_def)
  have 2: "is_full_charged e2 s1 =
             (False, s1\<lparr>first_trigger_cnt := first_trigger_cnt s1 + 1,
                force_set_full := (first_trigger_cnt s1 + 1 > 1 \<or> force_set_full s1),
                trigger_cnt := 0\<rparr>)"
    using f c by (rule is_full_charged_window)
  show ?thesis using assms(4) by (simp add: 1 2) (simp add: s1_def)
qed

theorem is_full_charged_first_full_witness:
  "force_set_full (snd (is_full_charged (fgu_env 4360000 140000)
      (snd (is_full_charged (fgu_env 4360000 130000) fullbatt_cfg)))) \<and>
   effects (snd (is_full_charged (fgu_env 4360000 140000)
      (snd (is_full_charged (fgu_env 4360000 130000) fullbatt_cfg)))) = []"
proof -
  note c = fullbatt_cfg_fields
  have s1: "fullbatt_sample (fgu_env 4360000 130000) fullbatt_cfg = Some (4360000, 130000)"
    by (rule fullbatt_sample_fgu_env) (simp_all add: c)
  have w1: "is_full_charged (fgu_env 4360000 130000) fullbatt_cfg =
      (False, fullbatt_cfg\<lparr>first_trigger_cnt := first_trigger_cnt fullbatt_cfg + 1,
                     force_set_full := (first_trigger_cnt fullbatt_cfg + 1 > 1 \<or> force_set_full fullbatt_cfg),
                     trigger_cnt := 0\<rparr>)"
    by (rule is_full_charged_window [OF s1]) (simp_all add: c)
  have s2: "fullbatt_sample (fgu_env 4360000 140000)
      (snd (is_full_charged (fgu_env 4360000 130000) fullbatt_cfg)) = Some (4360000, 140000)"
    unfolding w1 by (rule fullbatt_sample_fgu_env) (simp_all add: c)
  have e: "effects fullbatt_cfg = []" by (simp add: fullbatt_cfg_def cm_world_init_def)
  from is_full_charged_first_full [OF s1 s2] show ?thesis by (simp add: c e)
qed

text \<open>
  Claim C5 as stated fails: the first-full window of the source starts above
  \<open>fullbatt_uA\<close>, not above \<open>0\<close>. With \<open>fullbatt_uV = 4.35 V\<close>, \<open>fullbatt_uA = 120 mA\<close>
  and \<open>first_fullbatt_uA = 150 mA\<close>, two consecutive evaluations at \<open>4.36 V\<close> with
  \<open>100 mA\<close> and then \<open>130 mA\<close> both have \<open>0 < I \<le> first_fullbatt_uA\<close>, and
  \<open>force_set_full\<close> is still false.
\<close>

theorem is_full_charged_first_full_counterexample:
  "fullbatt_sample (fgu_env 4360000 100000) fullbatt_cfg = Some (4360000, 100000) \<and>
   fullbatt_sample (fgu_env 4360000 130000)
     (snd (is_full_charged (fgu_env 4360000 100000) fullbatt_cfg)) = Some (4360000, 130000) \<and>
   4360000 \<ge> fullbatt_uV fullbatt_cfg \<and>
   0 < (100000 :: int) \<and> 100000 \<le> first_fullbatt_uA fullbatt_cfg \<and>
   0 < (130000 :: int) \<and> 130000 \<le> first_fullbatt_uA fullbatt_cfg \<and>
   \<not> force_set_full (snd (is_full_charged (fgu_env 4360000 130000)
        (snd (is_full_charged (fgu_env 4360000 100000) fullbatt_cfg))))"
proof -
  note c = fullbatt_cfg_fields
  have s1: "fullbatt_sample (fgu_env 4360000 100000) fullbatt_cfg = Some (4360000, 100000)"
    by (rule fullbatt_sample_fgu_env) (simp_all add: c)
  have w1: "is_full_charged (fgu_env 4360000 100000) fullbatt_cfg =
      (False, fullbatt_cfg\<lparr>first_trigger_cnt := 0, trigger_cnt := 1\<rparr>)"
    by (rule is_full_charged_full_first [OF s1]) (simp_all add: c)
  have s2: "fullbatt_sample (fgu_env 4360000 130000)
      (fullbatt_cfg\<lparr>first_trigger_cnt := 0, trigger_cnt := 1\<rparr>) = Some (4360000, 130000)"
    by (rule fullbatt_sample_fgu_env) (simp_all add: c)
  have w2: "is_full_charged (fgu_env 4360000 130000)
        (fullbatt_cfg\<lparr>first_trigger_cnt := 0, trigger_cnt := 1\<rparr>) =
      (False, fullbatt_cfg\<lparr>first_trigger_cnt := 1, trigger_cnt := 0\<rparr>)"
    using is_full_charged_window [OF s2] by (simp add: c)
  show ?thesis by (simp add: s1 w1 s2 w2 c)
qed

subsection \<open>Fast-charge handshake\<close>

lemma cm_fast_charge_enable_check_armed:
  assumes "fast_charge_armed e s"
  shows "cm_fast_charge_enable_check tce e s =
    (case cm_set_main_charger_current e (CM_FAST_CHARGE_ENABLE_CMD e)
             (s\<lparr>fast_charge_enable_count := 0\<rparr>) of
      (r1, s1) \<Rightarrow>
        if r1 \<noteq> 0 then
          Some (r1, snd (cm_set_main_charger_current e (CM_FAST_CHARGE_DISABLE_CMD e) s1))
        else (case cm_set_second_charger_current e s1 of
          (r2, s2) \<Rightarrow>
            if r2 \<noteq> 0 then
              Some (r2, snd (cm_set_main_charger_current e (CM_FAST_CHARGE_DISABLE_CMD e) s2))
            else (case cm_adjust_fast_charge_voltage e CM_FAST_CHARGE_VOLTAGE_9V s2 of
              (r3, s3) \<Rightarrow>
                if r3 \<noteq> 0 then
                  Some (r3, snd (cm_set_main_charger_current e (CM_FAST_CHARGE_DISABLE_CMD e) s3))
                else (case cm_enable_second_charger e True s3 of
                  (r4, s4) \<Rightarrow>
                    if r4 \<noteq> 0 then
                      Some (r4, snd (cm_set_main_charger_current e
                                       (CM_FAST_CHARGE_DISABLE_CMD e) s4))
                    else
                      Option.bind
                        (fast_charge_jeita_adjust tce e CM_JEITA_FCHG
                           (s4\<lparr>charge_voltage_max :=
                                  (if fast_charge_voltage_max s4 \<noteq> 0
                                   then fast_charge_voltage_max s4 else charge_voltage_max s4),
                                charge_voltage_drop :=
                                  (if fast_charge_voltage_drop s4 \<noteq> 0
                                   then fast_charge_voltage_drop s4 else charge_voltage_drop s4)\<rparr>))
                        (\<lambda>s6. Some (0, s6\<lparr>enable_fast_charge := True\<rparr>))))))"
proof -
  obtain uV uA where r: "get_batt_uV e s = (0, uV)" "get_batt_uA e s = (0, uA)"
    "uV > CM_FAST_CHARGE_ENABLE_BATTERY_VOLTAGE"
    using assms by (cases "get_batt_uV e s"; cases "get_batt_uA e s")
      (auto simp: fast_charge_armed_def fast_charge_sampled_def)
  have c: "\<not> fast_charge_enable_count s + 1 < 2" using assms by (simp add: fast_charge_armed_def)
  show ?thesis
    using assms r c
    by (simp add: cm_fast_charge_enable_check_def fast_charge_armed_def fast_charge_sampled_def
        Let_def split: prod.split)
qed

text \<open>Each of the four functions of the handshake takes one step.\<close>

lemma handshake_steps:
  "cm_set_main_charger_current e cmd x =
     (case issue_steps e (effects x)
             [(first_supply (psy_charger_stat x), POWER_SUPPLY_PROP_STATUS, cmd)] of
        (h, r) \<Rightarrow> (r, x\<lparr>effects := h\<rparr>))"
  "cm_adjust_fast_charge_voltage e cmd x =
     (case issue_steps e (effects x)
             [(first_supply (psy_fast_charger_stat x), POWER_SUPPLY_PROP_VOLTAGE_MAX, cmd)] of
        (h, r) \<Rightarrow> (r, x\<lparr>effects := h\<rparr>))"
  "cm_set_second_charger_current e x =
     (case issue_steps e (effects x)
             (if length (psy_charger_stat x) < 2 then []
              else [(Some (psy_charger_stat x ! 1), POWER_SUPPLY_PROP_STATUS,
                     CM_FAST_CHARGE_ENABLE_CMD e)]) of
        (h, r) \<Rightarrow> (r, x\<lparr>effects := h\<rparr>))"
  "cm_enable_second_charger e enable x =
     (case issue_steps e (effects x)
             (if length (psy_charger_stat x) < 2 then []
              else [(Some (psy_charger_stat x ! 1), POWER_SUPPLY_PROP_STATUS,
                     if enable then 1 else 0)]) of
        (h, r) \<Rightarrow> (r, x\<lparr>effects := h\<rparr>))"
  by (simp_all add: cm_set_main_charger_current_def cm_adjust_fast_charge_voltage_def
      cm_set_second_charger_current_def cm_enable_second_charger_def first_supply_def
      power_supply_set_property_def Let_def split: list.split)

lemma issue_steps_append:
  "issue_steps e h (ws @ ws') =
     (case issue_steps e h ws of (h1, r) \<Rightarrow> if r \<noteq> 0 then (h1, r) else issue_steps e h1 ws')"
  by (induction ws arbitrary: h) (auto split: option.split)

lemma issue_steps_cons2:
  "issue_steps e h (w # w' # ws) =
     (case issue_steps e h [w] of
        (h1, r) \<Rightarrow> if r \<noteq> 0 then (h1, r) else issue_steps e h1 (w' # ws))"
  using issue_steps_append [of e h "[w]" "w' # ws"] by simp

lemma handshake_armed:
  assumes "fast_charge_armed e s"
  shows "case issue_steps e (effects s) (fast_charge_enable_steps e s) of
        (h, r) \<Rightarrow>
          if r \<noteq> 0 then
            cm_fast_charge_enable_check tce e s =
              Some (r, s\<lparr>fast_charge_enable_count := 0, effects := fast_charge_rollback e s h\<rparr>)
          else
            cm_fast_charge_enable_check tce e s =
              Option.bind
                (fast_charge_jeita_adjust tce e CM_JEITA_FCHG
                   (s\<lparr>fast_charge_enable_count := 0, effects := h,
                      charge_voltage_max :=
                        (if fast_charge_voltage_max s \<noteq> 0
                         then fast_charge_voltage_max s else charge_voltage_max s),
                      charge_voltage_drop :=
                        (if fast_charge_voltage_drop s \<noteq> 0
                         then fast_charge_voltage_drop s else charge_voltage_drop s)\<rparr>))
                (\<lambda>s6. Some (0, s6\<lparr>enable_fast_charge := True\<rparr>))"
proof (cases "length (psy_charger_stat s) < 2")
  case True
  then show ?thesis
    unfolding cm_fast_charge_enable_check_armed [OF assms]
    by (simp add: handshake_steps fast_charge_enable_steps_def fast_charge_rollback_def
        issue_steps_cons2 Let_def split: prod.split del: issue_steps.simps(2))
next
  case False
  then show ?thesis
    unfolding cm_fast_charge_enable_check_armed [OF assms]
    by (simp add: handshake_steps fast_charge_enable_steps_def fast_charge_rollback_def
        issue_steps_cons2 Let_def split: prod.split del: issue_steps.simps(2))
qed

lemma handshake_idle:
  assumes "\<not> fast_charge_armed e s"
  shows "\<exists>r. cm_fast_charge_enable_check tce e s =
           Some (r, s\<lparr>fast_charge_enable_count :=
                       (if \<not> fast_charge_sampled e s then fast_charge_enable_count s
                        else if snd (get_batt_uV e s) > CM_FAST_CHARGE_ENABLE_BATTERY_VOLTAGE
                          then fast_charge_enable_count s + 1
                        else 0)\<rparr>)"
  using assms
  by (cases "get_batt_uV e s"; cases "get_batt_uA e s")
     (auto simp add: cm_fast_charge_enable_check_def fast_charge_armed_def
        fast_charge_sampled_def Let_def)




subsection \<open>Capacity filter\<close>

lemma filter_frame_updates [simp]:
  "filter_frame (s\<lparr>trigger_cnt := a\<rparr>) = filter_frame s"
  "filter_frame (s\<lparr>first_trigger_cnt := b\<rparr>) = filter_frame s"
  "filter_frame (s\<lparr>force_set_full := c\<rparr>) = filter_frame s"
  by (simp_all add: filter_frame_def changed_count_def)

lemma fuel_gauge_set_frame [simp]:
  "filter_frame (snd (fuel_gauge_set e p v s)) = filter_frame s"
  by (simp add: fuel_gauge_set_def power_supply_set_property_def Let_def changed_count_def
      filter_frame_def)

lemma cm_primary_charger_enable_frame [simp]:
  "filter_frame (snd (cm_primary_charger_enable e b s)) = filter_frame s"
  by (simp add: cm_primary_charger_enable_def power_supply_set_property_def Let_def
      changed_count_def filter_frame_def split: list.split)

lemma is_full_charged_frame:
  "filter_frame (snd (is_full_charged e s)) = filter_frame s"
  by (simp add: is_full_charged_def adjust_fuel_cap_def Let_def split: prod.split)

lemma filter_frame_track [simp]:
  "filter_frame (s\<lparr>track_start_cap := a\<rparr>) = filter_frame s"
  "filter_frame (s\<lparr>track_state := st\<rparr>) = filter_frame s"
  "filter_frame (s\<lparr>track_start_time := b\<rparr>) = filter_frame s"
  "filter_frame (s\<lparr>track_start_clbcnt := c\<rparr>) = filter_frame s"
  "filter_frame (s\<lparr>effects := effects s @ [QueueWork w d]\<rparr>) = filter_frame s"
  by (simp_all add: filter_frame_def changed_count_def)

lemma fuel_gauge_set_frameD:
  "fuel_gauge_set e p v s = (r, s1) \<Longrightarrow>
   filter_frame (s1\<lparr>track_state := st, effects := effects s1 @ [QueueWork w d]\<rparr>) =
     filter_frame s"
  using fuel_gauge_set_frame [of e p v s]
  by (simp add: filter_frame_def changed_count_def)

lemma frame_if:
  "(c \<Longrightarrow> filter_frame a = X) \<Longrightarrow> (\<not> c \<Longrightarrow> filter_frame b = X) \<Longrightarrow>
   filter_frame (if c then a else b) = X"
  by simp

lemma frame_prod:
  "(\<And>x y. p = (x, y) \<Longrightarrow> filter_frame (f x y) = X) \<Longrightarrow>
   filter_frame (case p of (x, y) \<Rightarrow> f x y) = X"
  by (cases p) simp

lemma frame_let: "filter_frame (f a) = X \<Longrightarrow> filter_frame (Let a f) = X"
  by simp

lemma frame_track_state:
  "(st = CAP_TRACK_INIT \<Longrightarrow> filter_frame a = X) \<Longrightarrow>
   (st = CAP_TRACK_IDLE \<Longrightarrow> filter_frame b = X) \<Longrightarrow>
   (st = CAP_TRACK_UPDATING \<Longrightarrow> filter_frame c = X) \<Longrightarrow>
   (st = CAP_TRACK_DONE \<Longrightarrow> filter_frame d = X) \<Longrightarrow>
   (st = CAP_TRACK_ERR \<Longrightarrow> filter_frame f = X) \<Longrightarrow>
   filter_frame (case_cm_track_state a b c d f st) = X"
  by (cases st) simp_all

lemma cm_track_capacity_monitor_frame:
  "filter_frame (cm_track_capacity_monitor e s) = filter_frame s"
  unfolding cm_track_capacity_monitor_def
  by (intro frame_if frame_prod frame_let frame_track_state)
     (auto simp add: set_batt_total_cap_def dest!: fuel_gauge_set_frameD)

lemma cm_batt_works_prepare_range:
  "0 \<le> fst (cm_batt_works_prepare batt_uV fc0 t s) \<and>
   fst (cm_batt_works_prepare batt_uV fc0 t s) \<le> 1000 \<and>
   filter_frame (snd (cm_batt_works_prepare batt_uV fc0 t s)) = filter_frame s"
  by (simp add: cm_batt_works_prepare_def Let_def filter_frame_def changed_count_def)

lemma cm_batt_works_status_frame:
  "cm_batt_works_status e s = (flush_time, period_time, s') \<Longrightarrow>
   filter_frame s' = filter_frame s \<and> flush_time = boottime_sec e - update_capacity_time s"
  using is_full_charged_frame [of e s]
  by (auto simp add: cm_batt_works_status_def Let_def filter_frame_def changed_count_def
      split: prod.splits)

lemma c_div_nonneg: "0 \<le> a \<Longrightarrow> 0 < b \<Longrightarrow> 0 \<le> c_div a b"
  by (simp add: c_div_def pos_imp_zdiv_nonneg_iff)

lemma cap_limit_range:
  assumes "0 < cap_one_time s" "0 \<le> flush_time" "0 \<le> c" "c \<le> 1000" "0 \<le> fc" "fc \<le> 1000"
  shows "\<exists>d. cap_limit_down period_time flush_time s c fc = Some d \<and> 0 \<le> d \<and> d \<le> 1000"
    and "\<exists>u. cap_limit_up period_time flush_time s c fc = Some u \<and> 0 \<le> u \<and> u \<le> 1000"
    and "\<exists>d. cap_limit_down_idle period_time flush_time s c fc = Some d \<and> 0 \<le> d \<and> d \<le> 1000"
proof -
  define q where "q = c_div flush_time (cap_one_time s) * 10"
  have q: "0 \<le> q" unfolding q_def using assms by (simp add: c_div_nonneg)
  have f: "flush_step flush_time s = Some q"
    using assms(1) by (simp add: flush_step_def q_def)
  show "\<exists>d. cap_limit_down period_time flush_time s c fc = Some d \<and> 0 \<le> d \<and> d \<le> 1000"
    using q assms(3-6) by (simp add: cap_limit_down_def f Let_def)
  show "\<exists>u. cap_limit_up period_time flush_time s c fc = Some u \<and> 0 \<le> u \<and> u \<le> 1000"
    using q assms(3-6) by (simp add: cap_limit_up_def f Let_def)
  show "\<exists>d. cap_limit_down_idle period_time flush_time s c fc = Some d \<and> 0 \<le> d \<and> d \<le> 1000"
    using q assms(3-6) by (simp add: cap_limit_down_idle_def f Let_def)
qed

lemma cm_batt_works_switch_range:
  assumes "0 \<le> cap s" "cap s \<le> 1000" "0 \<le> fc" "fc \<le> 1000" "0 < cap_one_time s"
    and "0 \<le> flush_time"
  shows "\<exists>fc' s'. cm_batt_works_switch e now ocv uA period_time flush_time fc s = Some (fc', s') \<and>
           0 \<le> fc' \<and> fc' \<le> 1000 \<and> cap s' = cap s \<and> cap_one_time s' = cap_one_time s \<and>
           changed_count s' = changed_count s \<and>
           (update_capacity_time s' = update_capacity_time s \<or> update_capacity_time s' = now)"
proof -
  from cap_limit_range [OF assms(5,6,1,2,3,4)] obtain d u i where
    d: "cap_limit_down period_time flush_time s (cap s) fc = Some d" "0 \<le> d" "d \<le> 1000" and
    u: "cap_limit_up period_time flush_time s (cap s) fc = Some u" "0 \<le> u" "u \<le> 1000" and
    i: "cap_limit_down_idle period_time flush_time s (cap s) fc = Some i" "0 \<le> i" "i \<le> 1000"
    by blast
  consider (chg) "charger_status s = POWER_SUPPLY_STATUS_CHARGING"
    | (idle) "charger_status s = POWER_SUPPLY_STATUS_NOT_CHARGING \<or>
              charger_status s = POWER_SUPPLY_STATUS_DISCHARGING"
    | (full) "charger_status s = POWER_SUPPLY_STATUS_FULL"
    | (other) "charger_status s \<notin> {1, 2, 3, 4}"
    by auto
  thus ?thesis
  proof cases
    case chg
    show ?thesis using assms(1-4) d(2,3) u(2,3)
      by (simp add: cm_batt_works_switch_def chg d(1) u(1) Let_def changed_count_def)
  next
    case idle
    hence n: "charger_status s \<noteq> 1" by auto
    show ?thesis using assms(1-4) i(2,3)
      by (simp add: cm_batt_works_switch_def idle n i(1) Let_def changed_count_def)
  next
    case full
    show ?thesis using assms(1-4)
      by (simp add: cm_batt_works_switch_def full Let_def changed_count_def)
  next
    case other
    show ?thesis using assms(1-4) other
      by (simp add: cm_batt_works_switch_def Let_def changed_count_def)
  qed
qed

lemma cm_batt_works_commit_cap:
  "cap (cm_batt_works_commit e batt_uV fc s) = fc \<and>
   cap_one_time (cm_batt_works_commit e batt_uV fc s) = cap_one_time s \<and>
   (update_capacity_time (cm_batt_works_commit e batt_uV fc s) = update_capacity_time s \<or>
    update_capacity_time (cm_batt_works_commit e batt_uV fc s) = boottime_sec e) \<and>
   changed_count (cm_batt_works_commit e batt_uV fc s) =
     changed_count s + (if DIV_ROUND_CLOSEST fc 10 \<noteq> DIV_ROUND_CLOSEST (cap s) 10 then 1 else 0)"
proof -
  have "filter_frame (cm_batt_works_commit e batt_uV fc s) =
          (fc, cap_one_time s,
           if DIV_ROUND_CLOSEST fc 10 \<noteq> DIV_ROUND_CLOSEST (cap s) 10
           then boottime_sec e else update_capacity_time s,
           changed_count s + (if DIV_ROUND_CLOSEST fc 10 \<noteq> DIV_ROUND_CLOSEST (cap s) 10 then 1 else 0))"
    by (simp add: cm_batt_works_commit_def cm_track_capacity_monitor_frame Let_def)
       (auto simp add: filter_frame_def changed_count_def set_batt_cap_def fuel_gauge_set_def
          power_supply_set_property_def power_supply_changed_def Let_def)
  thus ?thesis by (simp add: filter_frame_def split: if_splits)
qed

lemma cm_batt_works_switch_frame:
  "cm_batt_works_switch e now ocv uA period_time flush_time fc s = Some (fc', s') \<Longrightarrow>
   cap s' = cap s \<and> changed_count s' = changed_count s"
  by (auto simp add: cm_batt_works_switch_def Let_def changed_count_def
      split: if_splits bind_splits)

lemma cm_batt_works_step:
  assumes "0 \<le> cap s" "cap s \<le> 1000" "0 < cap_one_time s"
    and "update_capacity_time s \<le> boottime_sec e"
  shows "\<exists>s'. cm_batt_works e s = Some s' \<and> 0 \<le> cap s' \<and> cap s' \<le> 1000 \<and>
           cap_one_time s' = cap_one_time s \<and> update_capacity_time s' \<le> boottime_sec e"
proof (cases "cm_batt_works_reads e s")
  case None
  thus ?thesis using assms by (simp add: cm_batt_works_def)
next
  case (Some r)
  obtain batt_uV ocv uA fc0 t where r: "r = (batt_uV, ocv, uA, fc0, t)" by (cases r)
  obtain fc2 s3 where p: "cm_batt_works_prepare batt_uV fc0 t s = (fc2, s3)" by force
  have p': "0 \<le> fc2" "fc2 \<le> 1000" "filter_frame s3 = filter_frame s"
    using cm_batt_works_prepare_range [of batt_uV fc0 t s] by (simp_all add: p)
  obtain fl pe s7 where st: "cm_batt_works_status e s3 = (fl, pe, s7)"
    by (cases "cm_batt_works_status e s3")
  have st': "filter_frame s7 = filter_frame s" "0 \<le> fl"
    using cm_batt_works_status_frame [OF st] p'(3) assms(4) by (simp_all add: filter_frame_def)
  have c7: "0 \<le> cap s7" "cap s7 \<le> 1000" "0 < cap_one_time s7"
    "update_capacity_time s7 \<le> boottime_sec e"
    using st'(1) assms by (simp_all add: filter_frame_def)
  from cm_batt_works_switch_range [OF c7(1,2) p'(1,2) c7(3) st'(2)]
  obtain fc' s8 where sw:
    "cm_batt_works_switch e (boottime_sec e) ocv uA pe fl fc2 s7 = Some (fc', s8)"
    "0 \<le> fc'" "fc' \<le> 1000" "cap_one_time s8 = cap_one_time s7"
    "update_capacity_time s8 = update_capacity_time s7 \<or>
     update_capacity_time s8 = boottime_sec e"
    by blast
  have e: "cm_batt_works e s = Some (cm_batt_works_commit e batt_uV fc' s8)"
    by (simp add: cm_batt_works_def Some r p st sw(1))
  show ?thesis
    using cm_batt_works_commit_cap [of e batt_uV fc' s8] sw(2-5) c7(4) st'(1)
    by (auto simp add: e filter_frame_def)
qed

lemma cm_batt_works_changed:
  assumes "cm_batt_works e s = Some s'"
  shows "changed_count s' = changed_count s +
           (if DIV_ROUND_CLOSEST (cap s') 10 \<noteq> DIV_ROUND_CLOSEST (cap s) 10 then 1 else 0)"
proof (cases "cm_batt_works_reads e s")
  case None
  thus ?thesis using assms by (simp add: cm_batt_works_def)
next
  case (Some r)
  obtain batt_uV ocv uA fc0 t where r: "r = (batt_uV, ocv, uA, fc0, t)" by (cases r)
  obtain fc2 s3 where p: "cm_batt_works_prepare batt_uV fc0 t s = (fc2, s3)" by force
  have p': "filter_frame s3 = filter_frame s"
    using cm_batt_works_prepare_range [of batt_uV fc0 t s] by (simp add: p)
  obtain fl pe s7 where st: "cm_batt_works_status e s3 = (fl, pe, s7)"
    by (cases "cm_batt_works_status e s3")
  have st': "filter_frame s7 = filter_frame s"
    using cm_batt_works_status_frame [OF st] p' by simp
  from assms obtain fc' s8 where sw:
    "cm_batt_works_switch e (boottime_sec e) ocv uA pe fl fc2 s7 = Some (fc', s8)"
    and e: "s' = cm_batt_works_commit e batt_uV fc' s8"
    by (auto simp add: cm_batt_works_def Some r p st split: bind_splits)
  show ?thesis
    using cm_batt_works_commit_cap [of e batt_uV fc' s8] cm_batt_works_switch_frame [OF sw] st'
    by (simp add: e filter_frame_def)
qed

lemma sorted_steps:
  "sorted (a # b # xs) \<Longrightarrow> c \<le> b \<Longrightarrow> sorted (c # xs)"
  by auto

lemma cm_batt_works_run_range:
  assumes "0 \<le> cap s" "cap s \<le> 1000" "0 < cap_one_time s"
    and "sorted (update_capacity_time s # map boottime_sec es)"
  shows "\<exists>s'. cm_batt_works_run es s = Some s' \<and> 0 \<le> cap s' \<and> cap s' \<le> 1000"
  using assms
proof (induction es arbitrary: s)
  case Nil
  thus ?case by simp
next
  case (Cons e es)
  have t: "update_capacity_time s \<le> boottime_sec e" using Cons.prems(4) by simp
  from cm_batt_works_step [OF Cons.prems(1-3) t] obtain s1 where s1:
    "cm_batt_works e s = Some s1" "0 \<le> cap s1" "cap s1 \<le> 1000"
    "cap_one_time s1 = cap_one_time s" "update_capacity_time s1 \<le> boottime_sec e"
    by blast
  have "sorted (update_capacity_time s1 # map boottime_sec es)"
    using Cons.prems(4) s1(5) by (auto intro: order_trans)
  from Cons.IH [OF s1(2,3) _ this] s1(4) Cons.prems(3) show ?case by (simp add: s1(1))
qed

text \<open>
  Claim C2, amended. The capacity filter keeps the reported capacity in \<open>[0, 1000]\<close>; it
  does not bring it there. If the value stored before the first step lies in
  \<open>[0, 1000]\<close>, \<^verbatim>\<open>cap_one_time\<close> is positive and the boot clock of the steps never reads
  earlier than the time of the last capacity update, then every run of capacity-update
  steps, whatever the gauge, the chargers and the thermometer answer, returns normally
  and leaves \<^verbatim>\<open>cm->desc->cap\<close> in \<open>[0, 1000]\<close> after each of its steps.
\<close>

theorem cm_batt_works_cap_range:
  assumes "0 \<le> cap s" and "cap s \<le> 1000" and "0 < cap_one_time s"
    and "sorted (update_capacity_time s # map boottime_sec es)"
  shows "\<exists>s'. cm_batt_works_run (take n es) s = Some s' \<and> 0 \<le> cap s' \<and> cap s' \<le> 1000"
proof -
  have "sorted (take (Suc n) (update_capacity_time s # map boottime_sec es))"
    using assms(4) by (rule sorted_wrt_take)
  hence "sorted (update_capacity_time s # map boottime_sec (take n es))"
    by (simp add: take_map)
  with assms(1-3) show ?thesis by (rule cm_batt_works_run_range)
qed

theorem cm_batt_works_cap_range_witness:
  "\<exists>s'. cm_batt_works_run
          (take 3 [gauge_env 1 700 0 60, gauge_env 1 700 0 75, gauge_env 0 300 0 90])
          charging_world = Some s' \<and>
        0 \<le> cap s' \<and> cap s' \<le> 1000"
  using cm_batt_works_cap_range
    [of charging_world "[gauge_env 1 700 0 60, gauge_env 1 700 0 75, gauge_env 0 300 0 90]" 3]
  by (simp add: charging_world_def gauge_world_def cm_world_init_def gauge_env_def env_init_def)

text \<open>
  Claim C2 as stated fails: \<^verbatim>\<open>charger_manager_probe\<close> stores the boot capacity as the
  gauge gives it, and the step clamps only the running reading. With a boot capacity of
  1200, the probe succeeds, and after a capacity-update step on battery with a gauge
  reading of 1000 the reported capacity is still 1200.
\<close>

theorem cm_batt_works_cap_range_counterexample:
  "fst (charger_manager_probe_cap (gauge_env 0 1000 1200 0) gauge_world) = 0 \<and>
   map_option cap
     (cm_batt_works (gauge_env 0 1000 1200 60)
        (snd (charger_manager_probe_cap (gauge_env 0 1000 1200 0) gauge_world))) = Some 1200"
  by code_simp

lemma is_ext_pwr_online_filter [simp]:
  "is_ext_pwr_online e (s\<lparr>last_fuel_cap := a\<rparr>) = is_ext_pwr_online e s"
  "is_ext_pwr_online e (s\<lparr>update_capacity_time := b\<rparr>) = is_ext_pwr_online e s"
  "is_ext_pwr_online e (s\<lparr>force_set_full := c\<rparr>) = is_ext_pwr_online e s"
  by (simp_all add: is_ext_pwr_online_def)

text \<open>
  Claim C6, amended. In the capacity filter, when the charger status is Full and external
  power is online, the gauge reading is replaced by 1000 whatever it was, and the limit
  applies to that 1000 in every case: the new reported value is the previous one plus 1
  while the previous one is below 1000, and 1000 otherwise. The step then stores the
  value the switch has produced.
\<close>

theorem cm_batt_works_switch_full_online:
  assumes "charger_status s = POWER_SUPPLY_STATUS_FULL" and "is_ext_pwr_online e s"
  shows "map_option fst
           (cm_batt_works_switch e now batt_ocV bat_uA period_time flush_time fuel_cap s) =
         Some (if cap s < 1000 then cap s + 1 else 1000) \<and>
         cap (cm_batt_works_commit e batt_uV fc s8) = fc"
  using assms
  by (simp add: cm_batt_works_switch_def cm_batt_works_commit_cap Let_def)

theorem cm_batt_works_switch_full_online_witness:
  "map_option fst
     (cm_batt_works_switch (gauge_env 1 960 0 60) 60 4000000 200000 15 15 960
        (forced_full_world\<lparr>charger_status := POWER_SUPPLY_STATUS_FULL\<rparr>)) = Some 951"
proof -
  have "is_ext_pwr_online (gauge_env 1 960 0 60)
          (forced_full_world\<lparr>charger_status := POWER_SUPPLY_STATUS_FULL\<rparr>)"
    by code_simp
  from cm_batt_works_switch_full_online [OF _ this, of 60 4000000 200000 15 15 960]
  show ?thesis by (simp add: forced_full_world_def)
qed

text \<open>
  Claim C6 as stated fails: the two tests of the Full case are one after the other, not
  alternatives. On external power, held full by the trickle timer at a reported 950, with
  a gauge reading of 960 (not 1000), the step computes the status Full and the new
  reported value is 951, not 1000.
\<close>

theorem cm_batt_works_full_counterexample:
  "is_ext_pwr_online (gauge_env 1 960 0 60) forced_full_world \<and>
   get_batt_cap (gauge_env 1 960 0 60) forced_full_world = (0, 960) \<and>
   cap forced_full_world = 950 \<and>
   map_option (\<lambda>s. (charger_status s, cap s))
     (cm_batt_works (gauge_env 1 960 0 60) forced_full_world) =
   Some (POWER_SUPPLY_STATUS_FULL, 951)"
  by code_simp

text \<open>
  Claim C7, amended. A capacity-update step sends exactly one change notification when
  the new reported value rounds to another whole percent than the previous one, and none
  otherwise. The published CAPACITY property is the reported per mille rounded to percent
  and clamped to \<open>[0, 100]\<close> when a battery is present; without a battery it is 100.
\<close>

theorem cm_batt_works_notifies_percent:
  "(cm_batt_works e s = Some s' \<longrightarrow>
      changed_count s' = changed_count s +
        (if DIV_ROUND_CLOSEST (cap s') 10 \<noteq> DIV_ROUND_CLOSEST (cap s) 10 then 1 else 0)) \<and>
   charger_get_property_CAPACITY e s =
     (if is_batt_present e s then max 0 (min 100 (DIV_ROUND_CLOSEST (cap s) 10)) else 100)"
  by (auto simp add: cm_batt_works_changed charger_get_property_CAPACITY_def Let_def)

theorem cm_batt_works_notifies_percent_witness:
  "map_option (\<lambda>s'. (cap s', changed_count s')) (cm_batt_works (gauge_env 1 700 0 60) charging_world) =
     Some (524, 1) \<and>
   charger_get_property_CAPACITY (gauge_env 1 700 0 60) charging_world = 50"
proof -
  have a: "map_option cap (cm_batt_works (gauge_env 1 700 0 60) charging_world) = Some 524"
    by code_simp
  then obtain s' where s': "cm_batt_works (gauge_env 1 700 0 60) charging_world = Some s'"
    "cap s' = 524" by auto
  have c: "cap charging_world = 504" "changed_count charging_world = 0"
    "is_batt_present (gauge_env 1 700 0 60) charging_world"
    "DIV_ROUND_CLOSEST 524 10 = 52" "DIV_ROUND_CLOSEST 504 10 = 50"
    by code_simp+
  from cm_batt_works_notifies_percent [of "gauge_env 1 700 0 60" charging_world s']
  show ?thesis by (simp add: s' c)
qed

text \<open>
  Claim C7 as stated fails in its second half: without a battery the CAPACITY property is
  100 whatever the reported capacity is. With no battery and a reported 504 per mille,
  which rounds to 50 percent, the property reads 100.
\<close>

theorem charger_get_property_CAPACITY_counterexample:
  "\<not> is_batt_present (gauge_env 1 700 0 60) (charging_world\<lparr>battery_present := CM_NO_BATTERY\<rparr>) \<and>
   cap (charging_world\<lparr>battery_present := CM_NO_BATTERY\<rparr>) = 504 \<and>
   DIV_ROUND_CLOSEST 504 10 = 50 \<and>
   charger_get_property_CAPACITY (gauge_env 1 700 0 60)
     (charging_world\<lparr>battery_present := CM_NO_BATTERY\<rparr>) = 100"
  by code_simp

subsection \<open>JEITA debounce\<close>

lemma cm_manager_get_jeita_status_range:
  "0 \<le> fst (cm_manager_get_jeita_status t s) \<and> fst (cm_manager_get_jeita_status t s) \<le> 4"
  by (simp add: cm_manager_get_jeita_status_def Let_def)

lemma jeita_tick_cases:
  assumes "cm_manager_jeita_current_monitor tce e st s = Some (r, st', s')"
    and "jeita_tab_size s \<noteq> 0" and "is_ext_pwr_online e s" and "\<not> jeita_disabled s"
  shows "(last_jeita_status st = - 1 \<longrightarrow>
            last_jeita_status st' = fst (cm_manager_get_jeita_status (temperature s) s) \<and>
            temp_up_trigger st' = temp_up_trigger st \<and>
            temp_down_trigger st' = temp_down_trigger st) \<and>
         (last_jeita_status st \<noteq> - 1 \<and>
          fst (cm_manager_get_jeita_status (temperature s) s) > last_jeita_status st \<longrightarrow>
            temp_up_trigger st' = temp_up_trigger st + 1 \<and> temp_down_trigger st' = 0 \<and>
            last_jeita_status st' =
              (if temp_up_trigger st + 1 > 2
               then fst (cm_manager_get_jeita_status (temperature s) s)
               else last_jeita_status st)) \<and>
         (last_jeita_status st \<noteq> - 1 \<and>
          fst (cm_manager_get_jeita_status (temperature s) s) < last_jeita_status st \<longrightarrow>
            temp_down_trigger st' = temp_down_trigger st + 1 \<and> temp_up_trigger st' = 0 \<and>
            last_jeita_status st' =
              (if temp_down_trigger st + 1 > 2
               then fst (cm_manager_get_jeita_status (temperature s) s)
               else last_jeita_status st)) \<and>
         (last_jeita_status st \<noteq> - 1 \<and>
          fst (cm_manager_get_jeita_status (temperature s) s) = last_jeita_status st \<longrightarrow>
            temp_up_trigger st' = 0 \<and> temp_down_trigger st' = 0 \<and>
            last_jeita_status st' = last_jeita_status st)"
proof -
  obtain cur s1 where c: "cm_manager_get_jeita_status (temperature s) s = (cur, s1)"
    by force
  show ?thesis
    using assms
    by (auto simp add: cm_manager_jeita_current_monitor_def c Let_def
        split: if_splits bind_splits)
qed

lemma jeita_monitor_run_debounced:
  assumes "jeita_monitor_run tcef ticks st s = Some ks"
    and "\<forall>k \<in> set ks. tick_online k \<and> tick_enabled k"
    and "triggers_agree st d2 d1"
  shows "debounced d2 d1 ks \<and> (\<forall>k \<in> set ks. tick_resets k)"
  using assms
proof (induction ticks arbitrary: st s ks d2 d1)
  case Nil
  thus ?case by simp
next
  case (Cons a ticks)
  obtain e t where a: "a = (e, t)" by (cases a)
  define s1 where "s1 = s\<lparr>temperature := t\<rparr>"
  from Cons.prems(1) obtain r st' s' rest where
    m: "cm_manager_jeita_current_monitor (tcef e) e st s1 = Some (r, st', s')" and
    rest: "jeita_monitor_run tcef ticks st' s' = Some rest" and
    ks: "ks = \<lparr>tick_online = is_ext_pwr_online e s1,
              tick_enabled = (jeita_tab_size s1 \<noteq> 0 \<and> \<not> jeita_disabled s1),
              tick_last = last_jeita_status st,
              tick_cur = fst (cm_manager_get_jeita_status t s1),
              tick_after = st',
              tick_effects = drop (length (effects s1)) (effects s')\<rparr> # rest"
    by (auto simp add: a s1_def Let_def split: bind_splits)
  define k where "k = hd ks"
  have k: "tick_last k = last_jeita_status st"
    "tick_cur k = fst (cm_manager_get_jeita_status (temperature s1) s1)"
    "tick_after k = st'" "ks = k # rest"
    by (simp_all add: k_def ks s1_def)
  have on: "jeita_tab_size s1 \<noteq> 0" "is_ext_pwr_online e s1" "\<not> jeita_disabled s1"
    using Cons.prems(2) by (simp_all add: ks)
  note c = jeita_tick_cases [OF m on] cm_manager_get_jeita_status_range [of "temperature s1" s1]
  have here: "(tick_applied k \<longrightarrow> tick_dir k \<noteq> 0 \<and> d1 = tick_dir k \<and> d2 = tick_dir k) \<and>
              tick_resets k \<and> triggers_agree st' d1 (tick_dir k)"
    using c Cons.prems(3)
    by (auto simp add: tick_applied_def tick_dir_def tick_resets_def triggers_agree_def k(1-3)
        sgn_if split: if_splits)
  have "\<forall>k \<in> set rest. tick_online k \<and> tick_enabled k"
    using Cons.prems(2) by (simp add: ks)
  from Cons.IH [OF rest this] here have "debounced d1 (tick_dir k) rest \<and>
      (\<forall>k \<in> set rest. tick_resets k)" by blast
  with here show ?case by (simp add: k(4))
qed

text \<open>
  Claim C3. The monitor does not hold every zone change back for three ticks. The
  trigger counts are cleared only by a tick whose zone equals the zone last applied, or
  lies on the other side of it. Applying a change (lines 2045--2049 and 2053--2057)
  leaves the count where it is, at three or more, and a tick without external power
  (lines 2009--2013) forgets the zone applied but keeps the counts.

  First run, external power always present: the battery is seen at 10 degrees (zone 1,
  applied at once as the initial zone), then three times at 25 degrees (zone 2, applied
  on the third tick, with the count at 3), then at 50 degrees: this is the only tick
  above zone 2, the count goes to 4, and zone 3 is applied at once, its termination
  voltage and current written to the charger.

  Second run: 10 degrees (zone 1 applied), twice 25 degrees (the count goes to 2), the
  cable is pulled for one tick and returns with the battery at 10 degrees (zone 1
  applied at once), then 25 degrees: the only tick above the applied zone since the
  cable returned, and it applies zone 2.

  Each tick below is: power present, zone last applied before the tick, computed zone,
  \<open>temp_up_trigger\<close> after the tick, zone applied after the tick.
\<close>

theorem jeita_monitor_stale_counts:
  "map_option
     (map (\<lambda>k. (tick_online k, tick_last k, tick_cur k, temp_up_trigger (tick_after k),
                 last_jeita_status (tick_after k))))
     (jeita_monitor_run (try_charger_enable 3) heating_ticks jeita_monitor_statics_init
        jeita_world) =
   Some [(True, - 1, 1, 0, 1), (True, 1, 2, 1, 1), (True, 1, 2, 2, 1), (True, 1, 2, 3, 2),
         (True, 2, 3, 4, 3)] \<and>
   map_option (\<lambda>ks. tick_effects (last ks))
     (jeita_monitor_run (try_charger_enable 3) heating_ticks jeita_monitor_statics_init
        jeita_world) =
   Some [PsySet ''fan54015_charger'' POWER_SUPPLY_PROP_CONSTANT_CHARGE_VOLTAGE_MAX 4100000 0,
         PsySet ''fan54015_charger'' POWER_SUPPLY_PROP_CONSTANT_CHARGE_CURRENT 700000 0] \<and>
   map_option
     (map (\<lambda>k. (tick_online k, tick_last k, tick_cur k, temp_up_trigger (tick_after k),
                 last_jeita_status (tick_after k))))
     (jeita_monitor_run (try_charger_enable 3) replug_ticks jeita_monitor_statics_init
        jeita_world) =
   Some [(True, - 1, 1, 0, 1), (True, 1, 2, 1, 1), (True, 1, 2, 2, 1), (False, 1, 2, 2, - 1),
         (True, - 1, 1, 2, 1), (True, 1, 2, 3, 2)] \<and>
   map_option (\<lambda>ks. tick_effects (last ks))
     (jeita_monitor_run (try_charger_enable 3) replug_ticks jeita_monitor_statics_init
        jeita_world) =
   Some [PsySet ''fan54015_charger'' POWER_SUPPLY_PROP_CONSTANT_CHARGE_VOLTAGE_MAX 4350000 0,
         PsySet ''fan54015_charger'' POWER_SUPPLY_PROP_CONSTANT_CHARGE_CURRENT 2000000 0]"
  by code_simp

text \<open>
  What the trigger counts do ensure. In a run of ticks with external power present and
  JEITA enabled that starts with both counts at zero, a tick replaces the applied zone
  by another only if it and the two ticks before it lay, each when it ran, on the same
  side of the zone applied at that moment; a tick whose zone equals the applied zone
  clears both counts, and a tick on one side clears the count of the other side. The
  three ticks need not have been compared with the same applied zone: that is the
  first run above.
\<close>

theorem jeita_monitor_debounce:
  assumes "jeita_monitor_run tcef ticks st s = Some ks"
    and "\<forall>k \<in> set ks. tick_online k \<and> tick_enabled k"
    and "temp_up_trigger st = 0" and "temp_down_trigger st = 0"
  shows "debounced 0 0 ks \<and> (\<forall>k \<in> set ks. tick_resets k)"
proof -
  have "triggers_agree st 0 0" using assms(3,4) by (simp add: triggers_agree_def)
  with assms(1,2) show ?thesis by (rule jeita_monitor_run_debounced)
qed

theorem jeita_monitor_debounce_witness:
  "\<exists>ks. jeita_monitor_run (try_charger_enable 3) warming_ticks jeita_monitor_statics_init
           jeita_world = Some ks \<and>
        map tick_applied ks = [False, False, False, True, False, False] \<and>
        map tick_dir ks = [0, 1, 1, 1, 0, - 1] \<and>
        debounced 0 0 ks \<and> (\<forall>k \<in> set ks. tick_resets k)"
proof -
  have "case jeita_monitor_run (try_charger_enable 3) warming_ticks jeita_monitor_statics_init
               jeita_world of
          None \<Rightarrow> False
        | Some ks \<Rightarrow>
            list_all (\<lambda>k. tick_online k \<and> tick_enabled k) ks \<and>
            map tick_applied ks = [False, False, False, True, False, False] \<and>
            map tick_dir ks = [0, 1, 1, 1, 0, - 1]"
    by code_simp
  then obtain ks where ks:
    "jeita_monitor_run (try_charger_enable 3) warming_ticks jeita_monitor_statics_init
       jeita_world = Some ks"
    "list_all (\<lambda>k. tick_online k \<and> tick_enabled k) ks"
    "map tick_applied ks = [False, False, False, True, False, False]"
    "map tick_dir ks = [0, 1, 1, 1, 0, - 1]"
    by (auto split: option.splits)
  have "\<forall>k \<in> set ks. tick_online k \<and> tick_enabled k"
    using ks(2) by (simp add: list_all_iff)
  from jeita_monitor_debounce [OF ks(1) this] ks show ?thesis
    by (simp add: jeita_monitor_statics_init_def)
qed

subsection \<open>Notifications across suspend\<close>

text \<open>
  Claim C8 holds while the phone is suspended and fails on resume. \<^verbatim>\<open>uevent_notify\<close>
  delivers the kept message when it is called with a NULL event, and its comment says
  that the resume function calls it so; \<^verbatim>\<open>cm_suspend_complete\<close> does not, and no other
  function does. In the scenario of the specification (last delivered \<open>Charging\<close>; while
  suspended \<open>Charging\<close>, \<open>Charging\<close>, \<open>Discharging\<close>) the only uevent ever sent is the
  \<open>Charging\<close> of before the suspend: after the resume the last delivered message is still
  \<open>Charging\<close>, and \<open>Discharging\<close> is still kept.
\<close>

theorem cm_suspend_complete_keeps_message:
  "map_option (\<lambda>(st, s). (uevents s, env_str s, env_str_save s, cm_suspended s))
     suspend_dedup_run =
   Some ([''Charging''], ''Charging'', ''Discharging'', False)"
  by code_simp

subsection \<open>Categories of the charging status\<close>

text \<open>
  Claim C10. The categories are not kept apart in every reachable state. A guard that
  finds the status empty stops the charger through \<^verbatim>\<open>try_charger_enable\<close> before it
  latches its bit, and with fast charge enabled that call leaves fast charge and runs
  the JEITA adjuster, which latches a temperature bit of its own.

  The phone is fast charging at 25 degrees with nothing latched. At the next tick the
  battery is at -5 degrees and the charger output above its limit: the voltage guard
  finds the status empty and stops the charger; stopping leaves fast charge, which runs
  the JEITA adjuster for the zone below T0; the adjuster stops the charger again, and
  this second stop ends because the fast charger refuses the repeated request for 5 V;
  the adjuster latches COLD, and back in the guard VOLTAGE is latched too. The tick
  returns with both categories in the charging status.
\<close>

theorem charging_status_two_categories:
  "map_option
     (\<lambda>(b, st, s). (CM_CHARGE_TEMP_COLD \<in> charging_status s,
                    CM_CHARGE_VOLTAGE_ABNORMAL \<in> charging_status s, charger_enabled s))
     (cold_overvoltage_ticks 3 refuse_second_5V) =
   Some (True, True, False)"
  by code_simp

text \<open>
  The early returns of claim C10 are there: each guard, and the JEITA current adjuster,
  returns at once, with the state as it was (so neither the charging status nor the
  charger is touched), whenever the charging status is not empty and holds no bit of
  its own category.
\<close>

theorem charging_status_guards_skip:
  assumes "charging_status s \<noteq> {}"
  shows "(CM_CHARGE_DURATION_ABNORMAL \<notin> charging_status s \<longrightarrow>
            check_charging_duration tce e s = Some (0, s)) \<and>
         (CM_CHARGE_VOLTAGE_ABNORMAL \<notin> charging_status s \<longrightarrow>
            cm_check_charge_voltage tce e s = Some (- EINVAL, s)) \<and>
         (CM_CHARGE_HEALTH_ABNORMAL \<notin> charging_status s \<longrightarrow>
            cm_check_charge_health tce e s = Some (- EINVAL, s)) \<and>
         (CM_CHARGE_TEMP_OVERHEAT \<notin> charging_status s \<and>
          CM_CHARGE_TEMP_COLD \<notin> charging_status s \<longrightarrow>
            cm_manager_adjust_current tce e zone s = Some (True, s))"
  using assms
  by (simp add: check_charging_duration_def cm_check_charge_voltage_def
      cm_check_charge_health_def cm_manager_adjust_current_def)

theorem charging_status_guards_skip_witness:
  "check_charging_duration (try_charger_enable 3 (fchg_env (\<lambda>h n p v. 0)))
     (fchg_env (\<lambda>h n p v. 0)) (fchg_cfg\<lparr>charging_status := {CM_CHARGE_TEMP_COLD}\<rparr>) =
     Some (0, fchg_cfg\<lparr>charging_status := {CM_CHARGE_TEMP_COLD}\<rparr>) \<and>
   cm_check_charge_voltage (try_charger_enable 3 (fchg_env (\<lambda>h n p v. 0)))
     (fchg_env (\<lambda>h n p v. 0)) (fchg_cfg\<lparr>charging_status := {CM_CHARGE_TEMP_COLD}\<rparr>) =
     Some (- EINVAL, fchg_cfg\<lparr>charging_status := {CM_CHARGE_TEMP_COLD}\<rparr>) \<and>
   cm_check_charge_health (try_charger_enable 3 (fchg_env (\<lambda>h n p v. 0)))
     (fchg_env (\<lambda>h n p v. 0)) (fchg_cfg\<lparr>charging_status := {CM_CHARGE_TEMP_COLD}\<rparr>) =
     Some (- EINVAL, fchg_cfg\<lparr>charging_status := {CM_CHARGE_TEMP_COLD}\<rparr>) \<and>
   cm_manager_adjust_current (try_charger_enable 3 (fchg_env (\<lambda>h n p v. 0)))
     (fchg_env (\<lambda>h n p v. 0)) 0 (fchg_cfg\<lparr>charging_status := {CM_CHARGE_VOLTAGE_ABNORMAL}\<rparr>) =
     Some (True, fchg_cfg\<lparr>charging_status := {CM_CHARGE_VOLTAGE_ABNORMAL}\<rparr>)"
  using
    charging_status_guards_skip [of "fchg_cfg\<lparr>charging_status := {CM_CHARGE_TEMP_COLD}\<rparr>"
      "try_charger_enable 3 (fchg_env (\<lambda>h n p v. 0))" "fchg_env (\<lambda>h n p v. 0)"]
    charging_status_guards_skip [of "fchg_cfg\<lparr>charging_status := {CM_CHARGE_VOLTAGE_ABNORMAL}\<rparr>"
      "try_charger_enable 3 (fchg_env (\<lambda>h n p v. 0))" "fchg_env (\<lambda>h n p v. 0)" 0]
  by simp

text \<open>
  What the early returns ensure. \<^verbatim>\<open>try_charger_enable\<close>, at any depth of its calls,
  touches no bit of the charging status but those of the temperature category, and
  none at all when the status is not empty and holds no temperature bit, or when it
  is called to stop the charger with fast charge not enabled.
\<close>

lemma status_kept_refl [simp]: "status_kept S S"
  by (simp add: status_kept_def)

lemma status_kept_trans: "status_kept S S' \<Longrightarrow> status_kept S' S'' \<Longrightarrow> status_kept S S''"
  by (auto simp add: status_kept_def)

lemma charging_status_steps [simp]:
  "charging_status (snd (power_supply_set_property e n p v s)) = charging_status s"
  "charging_status (snd (cm_set_main_charger_current e cmd s)) = charging_status s"
  "charging_status (snd (cm_set_second_charger_current e s)) = charging_status s"
  "charging_status (snd (cm_enable_second_charger e enable s)) = charging_status s"
  "charging_status (snd (cm_adjust_fast_charge_voltage e cmd s)) = charging_status s"
  "charging_status (snd (cm_manager_get_jeita_status t s)) = charging_status s"
  "charging_status (kobject_uevent s) = charging_status s"
  by (simp_all add: power_supply_set_property_def cm_set_main_charger_current_def
      cm_set_second_charger_current_def cm_enable_second_charger_def
      cm_adjust_fast_charge_voltage_def cm_manager_get_jeita_status_def kobject_uevent_def
      Let_def split: list.split)

lemma charging_status_by_psy_loop [simp]:
  "charging_status (snd (try_charger_enable_by_psy_loop e enable second ns s)) = charging_status s"
  by (induction ns arbitrary: s enable second) (simp_all add: power_supply_set_property_def Let_def)

lemma charging_status_by_psy [simp]:
  "charging_status (snd (try_charger_enable_by_psy e enable s)) = charging_status s"
  by (simp add: try_charger_enable_by_psy_def)

lemma charging_status_adjust_loop [simp]:
  "charging_status (snd (adjust_current_loop e tv tc ret ns s)) = charging_status s"
  by (induction ns arbitrary: s ret) (simp_all add: power_supply_set_property_def Let_def)

lemma charging_status_uevent_notify:
  "uevent_notify ev s = Some s' \<Longrightarrow> charging_status s' = charging_status s"
  by (auto simp add: uevent_notify_def kobject_uevent_def split: if_splits option.splits)

lemma cm_manager_adjust_current_shape:
  assumes "cm_manager_adjust_current tce e zone s = Some (b, s')"
  shows "(charging_status s \<noteq> {} \<and> CM_CHARGE_TEMP_OVERHEAT \<notin> charging_status s \<and>
            CM_CHARGE_TEMP_COLD \<notin> charging_status s \<and> s' = s) \<or>
         (\<not> (charging_status s \<noteq> {} \<and> CM_CHARGE_TEMP_OVERHEAT \<notin> charging_status s \<and>
            CM_CHARGE_TEMP_COLD \<notin> charging_status s) \<and>
          ((\<exists>s1 r s2 X. uevent_notify (Some ''Discharging'') s = Some s1 \<and>
              tce False s1 = Some (r, s2) \<and>
              X \<in> {CM_CHARGE_TEMP_OVERHEAT, CM_CHARGE_TEMP_COLD} \<and>
              s' = s2\<lparr>charging_status := insert X (charging_status s2)\<rparr>) \<or>
           charging_status s' = charging_status s \<or>
           (\<exists>s1 r s2. charging_status s1 = charging_status s \<and>
              tce True s1 = Some (r, s2) \<and>
              s' = s2\<lparr>charging_status := charging_status s2 -
                     {CM_CHARGE_TEMP_OVERHEAT, CM_CHARGE_TEMP_COLD}\<rparr>)))"
proof (cases "charging_status s \<noteq> {} \<and> CM_CHARGE_TEMP_OVERHEAT \<notin> charging_status s \<and>
    CM_CHARGE_TEMP_COLD \<notin> charging_status s")
  case True
  with assms show ?thesis by (simp add: cm_manager_adjust_current_def)
next
  case False
  define js where "js = (if zone > jeita_tab_size s then jeita_tab_size s else zone)"
  define tv where "tv = term_volt (jeita_row (jeita_tab s) (nat js))"
  define tc where "tc = (let tc = current_ua (jeita_row (jeita_tab s) (nat js))
     in if thm_adjust_cur s \<ge> 0 \<and> thm_adjust_cur s < tc then thm_adjust_cur s else tc)"
  show ?thesis
  proof (cases "js = 0 \<or> js = jeita_tab_size s")
    case stop: True
    from assms False stop have
      "do { s1 \<leftarrow> uevent_notify (Some ''Discharging'') s;
            (r, s2) \<leftarrow> tce False s1;
            Some (False, s2\<lparr>charging_status :=
                      insert (if js = 0 then CM_CHARGE_TEMP_COLD else CM_CHARGE_TEMP_OVERHEAT)
                        (charging_status s2)\<rparr>) } = Some (b, s')"
      by (simp add: cm_manager_adjust_current_def Let_def js_def [symmetric])
    then obtain s1 r s2 where "uevent_notify (Some ''Discharging'') s = Some s1"
      "tce False s1 = Some (r, s2)"
      "s' = s2\<lparr>charging_status :=
                      insert (if js = 0 then CM_CHARGE_TEMP_COLD else CM_CHARGE_TEMP_OVERHEAT)
                        (charging_status s2)\<rparr>"
      by (auto split: bind_splits)
    with False show ?thesis by auto
  next
    case go: False
    obtain ret s1 where l: "adjust_current_loop e tv tc (- ENODEV) (psy_charger_stat s) s = (ret, s1)"
      by (cases "adjust_current_loop e tv tc (- ENODEV) (psy_charger_stat s) s")
    have c1: "charging_status s1 = charging_status s"
      using charging_status_adjust_loop [of e tv tc "- ENODEV" "psy_charger_stat s" s] l by simp
    from assms False go l have
      r: "(if ret \<noteq> 0 then Some (False, s1)
        else do { (r, s2) \<leftarrow> tce True s1;
                  Some (True, s2\<lparr>charging_status := charging_status s2 -
                     {CM_CHARGE_TEMP_OVERHEAT, CM_CHARGE_TEMP_COLD}\<rparr>) }) = Some (b, s')"
      by (simp add: cm_manager_adjust_current_def Let_def js_def [symmetric] tv_def tc_def)
    show ?thesis
    proof (cases "ret \<noteq> 0")
      case True
      with r c1 False show ?thesis by simp
    next
      case z: False
      with r obtain r' s2 where "tce True s1 = Some (r', s2)"
        "s' = s2\<lparr>charging_status := charging_status s2 -
                     {CM_CHARGE_TEMP_OVERHEAT, CM_CHARGE_TEMP_COLD}\<rparr>"
        by (auto split: bind_splits)
      with c1 False show ?thesis by blast
    qed
  qed
qed

lemma cm_manager_adjust_current_kept:
  assumes "status_safe tce" and "cm_manager_adjust_current tce e zone s = Some (b, s')"
  shows "status_kept (charging_status s) (charging_status s')"
proof -
  have k: "\<And>x y r enable. tce enable x = Some (r, y) \<Longrightarrow> charging_status x = charging_status s \<Longrightarrow>
      charging_status y - {CM_CHARGE_TEMP_OVERHEAT, CM_CHARGE_TEMP_COLD} =
      charging_status s - {CM_CHARGE_TEMP_OVERHEAT, CM_CHARGE_TEMP_COLD}"
    using assms(1) by (auto simp add: status_safe_def status_kept_def)
  from cm_manager_adjust_current_shape [OF assms(2)]
  consider (blocked) "s' = s"
    | (stop) s1 r s2 X where "\<not> (charging_status s \<noteq> {} \<and>
          CM_CHARGE_TEMP_OVERHEAT \<notin> charging_status s \<and> CM_CHARGE_TEMP_COLD \<notin> charging_status s)"
        "uevent_notify (Some ''Discharging'') s = Some s1" "tce False s1 = Some (r, s2)"
        "X \<in> {CM_CHARGE_TEMP_OVERHEAT, CM_CHARGE_TEMP_COLD}"
        "s' = s2\<lparr>charging_status := insert X (charging_status s2)\<rparr>"
    | (same) "charging_status s' = charging_status s"
    | (go) s1 r s2 where "\<not> (charging_status s \<noteq> {} \<and>
          CM_CHARGE_TEMP_OVERHEAT \<notin> charging_status s \<and> CM_CHARGE_TEMP_COLD \<notin> charging_status s)"
        "charging_status s1 = charging_status s" "tce True s1 = Some (r, s2)"
        "s' = s2\<lparr>charging_status := charging_status s2 -
                     {CM_CHARGE_TEMP_OVERHEAT, CM_CHARGE_TEMP_COLD}\<rparr>"
    by blast
  then show ?thesis
  proof cases
    case blocked
    then show ?thesis by simp
  next
    case stop
    from k [OF stop(3) charging_status_uevent_notify [OF stop(2)]] stop(1,4,5)
    show ?thesis by (auto simp add: status_kept_def)
  next
    case same
    then show ?thesis by simp
  next
    case go
    from k [OF go(3,2)] go(1,4) show ?thesis by (auto simp add: status_kept_def)
  qed
qed

lemma fast_charge_jeita_adjust_kept:
  assumes "status_safe tce" and "fast_charge_jeita_adjust tce e ty s = Some s'"
  shows "status_kept (charging_status s) (charging_status s')"
proof (cases "jeita_tab_size s = 0")
  case True
  with assms(2) show ?thesis by (simp add: fast_charge_jeita_adjust_def)
next
  case False
  define s1 where "s1 = s\<lparr>jeita_tab := jeita_tab_array s ty\<rparr>"
  obtain cur s2 where g: "cm_manager_get_jeita_status (temperature s1) s1 = (cur, s2)"
    by (cases "cm_manager_get_jeita_status (temperature s1) s1")
  have c: "charging_status s2 = charging_status s"
    using arg_cong [OF g, of "\<lambda>p. charging_status (snd p)"] by (simp add: s1_def)
  from assms(2) False g obtain b where
    "cm_manager_adjust_current tce e (if jeita_disabled s2 then STATUS_T1_TO_T2 else cur) s2 =
       Some (b, s')"
    by (auto simp add: fast_charge_jeita_adjust_def Let_def s1_def [symmetric])
  from cm_manager_adjust_current_kept [OF assms(1) this] c show ?thesis by simp
qed

lemma cm_fast_charge_enable_check_kept:
  assumes "status_safe tce" and "cm_fast_charge_enable_check tce e s = Some (r, s')"
  shows "status_kept (charging_status s) (charging_status s')"
proof (cases "fast_charge_armed e s")
  case False
  from handshake_idle [OF False, of tce] assms(2) show ?thesis by auto
next
  case True
  obtain h r0 where i: "issue_steps e (effects s) (fast_charge_enable_steps e s) = (h, r0)"
    by (cases "issue_steps e (effects s) (fast_charge_enable_steps e s)")
  show ?thesis
  proof (cases "r0 = 0")
    case False
    with handshake_armed [OF True, of tce] i assms(2) show ?thesis by auto
  next
    case z: True
    let ?s5 = "s\<lparr>fast_charge_enable_count := 0, effects := h,
              charge_voltage_max :=
                (if fast_charge_voltage_max s \<noteq> 0
                 then fast_charge_voltage_max s else charge_voltage_max s),
              charge_voltage_drop :=
                (if fast_charge_voltage_drop s \<noteq> 0
                 then fast_charge_voltage_drop s else charge_voltage_drop s)\<rparr>"
    from handshake_armed [OF True, of tce] i z have
      "cm_fast_charge_enable_check tce e s =
         Option.bind (fast_charge_jeita_adjust tce e CM_JEITA_FCHG ?s5)
           (\<lambda>s6. Some (0, s6\<lparr>enable_fast_charge := True\<rparr>))"
      by simp
    with assms(2) have
      "Option.bind (fast_charge_jeita_adjust tce e CM_JEITA_FCHG ?s5)
           (\<lambda>s6. Some (0, s6\<lparr>enable_fast_charge := True\<rparr>)) = Some (r, s')"
      by simp
    then obtain s6 where
      j: "fast_charge_jeita_adjust tce e CM_JEITA_FCHG
           (s\<lparr>fast_charge_enable_count := 0, effects := h,
              charge_voltage_max :=
                (if fast_charge_voltage_max s \<noteq> 0
                 then fast_charge_voltage_max s else charge_voltage_max s),
              charge_voltage_drop :=
                (if fast_charge_voltage_drop s \<noteq> 0
                 then fast_charge_voltage_drop s else charge_voltage_drop s)\<rparr>) = Some s6"
      and s': "s' = s6\<lparr>enable_fast_charge := True\<rparr>"
      by (cases "fast_charge_jeita_adjust tce e CM_JEITA_FCHG ?s5") auto
    from fast_charge_jeita_adjust_kept [OF assms(1) j] s' show ?thesis by simp
  qed
qed

lemma cm_fast_charge_disable_shape:
  assumes "cm_fast_charge_disable tce e s = Some (r, s')"
  shows "charging_status s' = charging_status s \<or>
         (\<exists>s4 s5. charging_status s4 = charging_status s \<and>
            fast_charge_jeita_adjust tce e CM_JEITA_DCP s4 = Some s5 \<and>
            charging_status s' = charging_status s5)"
proof (cases "enable_fast_charge s")
  case False
  with assms show ?thesis by (simp add: cm_fast_charge_disable_def)
next
  case True
  obtain r1 s1 where 1: "cm_enable_second_charger e False s = (r1, s1)"
    by (cases "cm_enable_second_charger e False s")
  obtain r2 s2 where 2: "cm_adjust_fast_charge_voltage e CM_FAST_CHARGE_VOLTAGE_5V s1 = (r2, s2)"
    by (cases "cm_adjust_fast_charge_voltage e CM_FAST_CHARGE_VOLTAGE_5V s1")
  obtain r3 s3 where 3: "cm_set_main_charger_current e (CM_FAST_CHARGE_DISABLE_CMD e) s2 = (r3, s3)"
    by (cases "cm_set_main_charger_current e (CM_FAST_CHARGE_DISABLE_CMD e) s2")
  have c: "charging_status s1 = charging_status s" "charging_status s2 = charging_status s1"
    "charging_status s3 = charging_status s2"
    using arg_cong [OF 1, of "\<lambda>p. charging_status (snd p)"]
      arg_cong [OF 2, of "\<lambda>p. charging_status (snd p)"]
      arg_cong [OF 3, of "\<lambda>p. charging_status (snd p)"] by simp_all
  show ?thesis
  proof (cases "r1 \<noteq> 0 \<or> r2 \<noteq> 0 \<or> r3 \<noteq> 0")
    case True
    with assms \<open>enable_fast_charge s\<close> 1 2 3 c show ?thesis
      by (auto simp add: cm_fast_charge_disable_def split: if_splits)
  next
    case False
    let ?s4 = "s3\<lparr>charge_voltage_max :=
                   (if normal_charge_voltage_max s3 \<noteq> 0
                    then normal_charge_voltage_max s3 else charge_voltage_max s3),
                 charge_voltage_drop :=
                   (if normal_charge_voltage_drop s3 \<noteq> 0
                    then normal_charge_voltage_drop s3 else charge_voltage_drop s3)\<rparr>"
    from assms \<open>enable_fast_charge s\<close> 1 2 3 False have
      "Option.bind (fast_charge_jeita_adjust tce e CM_JEITA_DCP ?s4)
         (\<lambda>s5. Some (0, s5\<lparr>enable_fast_charge := False\<rparr>)) = Some (r, s')"
      by (simp add: cm_fast_charge_disable_def Let_def)
    then obtain s5 where j: "fast_charge_jeita_adjust tce e CM_JEITA_DCP ?s4 = Some s5"
      and s': "s' = s5\<lparr>enable_fast_charge := False\<rparr>"
      by (cases "fast_charge_jeita_adjust tce e CM_JEITA_DCP ?s4") auto
    have "charging_status ?s4 = charging_status s" using c by simp
    with j s' show ?thesis by (intro disjI2 exI [of _ ?s4] exI [of _ s5]) simp
  qed
qed

lemma cm_fast_charge_disable_kept:
  assumes "status_safe tce" and "cm_fast_charge_disable tce e s = Some (r, s')"
  shows "status_kept (charging_status s) (charging_status s')"
  using cm_fast_charge_disable_shape [OF assms(2)] fast_charge_jeita_adjust_kept [OF assms(1)]
  by (metis status_kept_refl)

lemma cm_fast_charge_disable_check_kept:
  assumes "status_safe tce" and "cm_fast_charge_disable_check tce e s = Some (r, s')"
  shows "status_kept (charging_status s) (charging_status s')"
proof -
  from assms(2) have "charging_status s' = charging_status s \<or>
      (\<exists>x. charging_status x = charging_status s \<and> cm_fast_charge_disable tce e x = Some (r, s'))"
    by (cases "get_batt_uV e s"; cases "get_batt_uA e s")
       (auto simp add: cm_fast_charge_disable_check_def Let_def split: if_splits)
  with cm_fast_charge_disable_kept [OF assms(1)] show ?thesis
    by (metis status_kept_refl)
qed

lemma try_fast_charger_enable_kept:
  assumes "status_safe tce" and "try_fast_charger_enable tce e enable s = Some (r, s')"
  shows "status_kept (charging_status s) (charging_status s')"
proof (cases enable)
  case False
  with assms(2) cm_fast_charge_disable_kept [OF assms(1)] show ?thesis
    by (simp add: try_fast_charger_enable_def)
next
  case True
  with assms(2) obtain err s1 where 1: "cm_fast_charge_enable_check tce e s = Some (err, s1)"
    and 2: "(if err \<noteq> 0 then Some (err, s1) else cm_fast_charge_disable_check tce e s1) =
              Some (r, s')"
    by (auto simp add: try_fast_charger_enable_def split: bind_splits)
  note a = cm_fast_charge_enable_check_kept [OF assms(1) 1]
  show ?thesis
  proof (cases "err \<noteq> 0")
    case True
    with 2 a show ?thesis by simp
  next
    case False
    with 2 have "cm_fast_charge_disable_check tce e s1 = Some (r, s')" by simp
    from status_kept_trans [OF a cm_fast_charge_disable_check_kept [OF assms(1) this]]
    show ?thesis .
  qed
qed

lemma try_charger_enable_body_status:
  assumes "try_charger_enable_body tce e enable s = Some (r, s')"
  shows "\<exists>ferr s1. try_fast_charger_enable tce e enable s = Some (ferr, s1) \<and>
           charging_status s' = charging_status s1"
proof -
  from assms obtain ferr s1 where 1: "try_fast_charger_enable tce e enable s = Some (ferr, s1)"
    by (auto simp add: try_charger_enable_body_def split: bind_splits)
  have c: "\<And>x. charging_status (snd (try_charger_enable_by_psy e enable x)) = charging_status x"
    by simp
  from assms 1 have "charging_status s' = charging_status s1"
    using c [of "s1\<lparr>charging_start_time := ktime_ms e, charging_end_time := 0\<rparr>"]
      c [of "s1\<lparr>charging_start_time := 0, charging_end_time := ktime_ms e\<rparr>"]
    by (auto simp add: try_charger_enable_body_def split: if_splits prod.splits
        simp del: charging_status_by_psy)
  with 1 show ?thesis by blast
qed

lemma try_charger_enable_safe: "status_safe (try_charger_enable depth e)"
proof (induction depth)
  case 0
  show ?case by (simp add: status_safe_def)
next
  case (Suc depth)
  show ?case
    unfolding status_safe_def
  proof (intro allI impI)
    fix enable s r s'
    assume "try_charger_enable (Suc depth) e enable s = Some (r, s')"
    then have "try_charger_enable_body (try_charger_enable depth e) e enable s = Some (r, s')"
      by simp
    from try_charger_enable_body_status [OF this] try_fast_charger_enable_kept [OF Suc]
    show "status_kept (charging_status s) (charging_status s')" by metis
  qed
qed

lemma try_charger_enable_off:
  assumes "try_charger_enable depth e False s = Some (r, s')" and "\<not> enable_fast_charge s"
  shows "charging_status s' = charging_status s"
proof (cases depth)
  case 0
  with assms show ?thesis by simp
next
  case (Suc d)
  with assms(1) have "try_charger_enable_body (try_charger_enable d e) e False s = Some (r, s')"
    by simp
  from try_charger_enable_body_status [OF this] assms(2) show ?thesis
    by (auto simp add: try_fast_charger_enable_def cm_fast_charge_disable_def)
qed

lemma uevent_notify_status:
  "uevent_notify ev s = Some s' \<Longrightarrow>
     charging_status s' = charging_status s \<and> enable_fast_charge s' = enable_fast_charge s"
  by (auto simp add: uevent_notify_def kobject_uevent_def split: if_splits option.splits)

text \<open>
  A guard that returns has left the state as it was, or has stopped the charger and
  latched its bit, or has restarted the charger and cleared its bit.
\<close>

lemma cm_check_charge_voltage_shape:
  assumes "cm_check_charge_voltage tce e s = Some (r, s')"
  shows "s' = s \<or>
    ((charging_status s = {} \<or> CM_CHARGE_VOLTAGE_ABNORMAL \<in> charging_status s) \<and>
     (\<exists>sa r' sb. charging_status sa = charging_status s \<and>
        enable_fast_charge sa = enable_fast_charge s \<and> tce False sa = Some (r', sb) \<and>
        charging_status s' = insert CM_CHARGE_VOLTAGE_ABNORMAL (charging_status sb))) \<or>
    (CM_CHARGE_VOLTAGE_ABNORMAL \<in> charging_status s \<and>
     (\<exists>sa r' sb. charging_status sa = charging_status s \<and> tce True sa = Some (r', sb) \<and>
        charging_status s' = charging_status sb - {CM_CHARGE_VOLTAGE_ABNORMAL}))"
  using assms
  by (cases "psy_get e (psy_fuel_gauge s) POWER_SUPPLY_PROP_CONSTANT_CHARGE_VOLTAGE")
     (auto simp add: cm_check_charge_voltage_def power_supply_changed_def
        split: if_splits bind_splits dest!: uevent_notify_status)

lemma cm_check_charge_health_shape:
  assumes "cm_check_charge_health tce e s = Some (r, s')"
  shows "s' = s \<or>
    ((charging_status s = {} \<or> CM_CHARGE_HEALTH_ABNORMAL \<in> charging_status s) \<and>
     (\<exists>sa r' sb. charging_status sa = charging_status s \<and>
        enable_fast_charge sa = enable_fast_charge s \<and> tce False sa = Some (r', sb) \<and>
        charging_status s' = insert CM_CHARGE_HEALTH_ABNORMAL (charging_status sb))) \<or>
    (CM_CHARGE_HEALTH_ABNORMAL \<in> charging_status s \<and>
     (\<exists>sa r' sb. charging_status sa = charging_status s \<and> tce True sa = Some (r', sb) \<and>
        charging_status s' = charging_status sb - {CM_CHARGE_HEALTH_ABNORMAL}))"
  using assms
  by (cases "charge_health_loop e POWER_SUPPLY_HEALTH_UNKNOWN (psy_charger_stat s)")
     (auto simp add: cm_check_charge_health_def
        split: if_splits bind_splits dest!: uevent_notify_status)

lemma check_charging_duration_shape:
  assumes "check_charging_duration tce e s = Some (r, s')"
  shows "s' = s \<or>
    ((charging_status s = {} \<or> CM_CHARGE_DURATION_ABNORMAL \<in> charging_status s) \<and>
     (\<exists>sa r' sb. charging_status sa = charging_status s \<and>
        enable_fast_charge sa = enable_fast_charge s \<and> tce False sa = Some (r', sb) \<and>
        charging_status s' = insert CM_CHARGE_DURATION_ABNORMAL (charging_status sb))) \<or>
    (CM_CHARGE_DURATION_ABNORMAL \<in> charging_status s \<and>
     (\<exists>sa r' sb. charging_status sa = charging_status s \<and> tce True sa = Some (r', sb) \<and>
        charging_status s' = charging_status sb - {CM_CHARGE_DURATION_ABNORMAL}))"
  using assms
  by (cases "get_batt_ocv e s")
     (auto simp add: check_charging_duration_def Let_def
        split: if_splits bind_splits dest!: uevent_notify_status)

lemma guard_latch:
  assumes "one_category S" and "S = {} \<or> X \<in> S"
    and "X \<in> {CM_CHARGE_VOLTAGE_ABNORMAL, CM_CHARGE_DURATION_ABNORMAL, CM_CHARGE_HEALTH_ABNORMAL}"
    and "status_kept S S1" and "S = {} \<longrightarrow> S1 = S"
  shows "one_category (insert X S1)"
proof (cases "S = {}")
  case True
  with assms(3,5) show ?thesis by (auto simp add: one_category_def)
next
  case False
  with assms(1,2,3) have "S = {X}" by (auto simp add: one_category_def)
  with assms(3,4) have "S1 = {X}" by (auto simp add: status_kept_def)
  with assms(3) show ?thesis by (auto simp add: one_category_def)
qed

lemma guard_clear:
  assumes "one_category S" and "X \<in> S"
    and "X \<in> {CM_CHARGE_VOLTAGE_ABNORMAL, CM_CHARGE_DURATION_ABNORMAL, CM_CHARGE_HEALTH_ABNORMAL}"
    and "status_kept S S1"
  shows "one_category (S1 - {X})"
proof -
  from assms(1,2,3) have "S = {X}" by (auto simp add: one_category_def)
  with assms(3,4) have "S1 = {X}" by (auto simp add: status_kept_def)
  then show ?thesis by (simp add: one_category_def)
qed

lemma guard_one_category:
  assumes "one_category (charging_status s)"
    and "charging_status s = {} \<longrightarrow> \<not> enable_fast_charge s"
    and "X \<in> {CM_CHARGE_VOLTAGE_ABNORMAL, CM_CHARGE_DURATION_ABNORMAL, CM_CHARGE_HEALTH_ABNORMAL}"
    and "s' = s \<or>
      ((charging_status s = {} \<or> X \<in> charging_status s) \<and>
       (\<exists>sa r' sb. charging_status sa = charging_status s \<and>
          enable_fast_charge sa = enable_fast_charge s \<and>
          try_charger_enable depth e False sa = Some (r', sb) \<and>
          charging_status s' = insert X (charging_status sb))) \<or>
      (X \<in> charging_status s \<and>
       (\<exists>sa r' sb. charging_status sa = charging_status s \<and>
          try_charger_enable depth e True sa = Some (r', sb) \<and>
          charging_status s' = charging_status sb - {X}))"
  shows "one_category (charging_status s')"
proof -
  have latch: "one_category (charging_status s')"
    if l: "charging_status s = {} \<or> X \<in> charging_status s"
      "charging_status sa = charging_status s" "enable_fast_charge sa = enable_fast_charge s"
      "try_charger_enable depth e False sa = Some (r', sb)"
      "charging_status s' = insert X (charging_status sb)" for sa r' sb
  proof -
    have "status_kept (charging_status sa) (charging_status sb)"
      using try_charger_enable_safe [of depth e] l(4) unfolding status_safe_def by blast
    then have k: "status_kept (charging_status s) (charging_status sb)"
      by (simp only: l(2))
    have "charging_status s = {} \<longrightarrow> charging_status sb = charging_status s"
    proof
      assume "charging_status s = {}"
      with assms(2) l(3) have "\<not> enable_fast_charge sa" by simp
      from try_charger_enable_off [OF l(4) this] l(2) show "charging_status sb = charging_status s"
        by simp
    qed
    from guard_latch [OF assms(1) l(1) assms(3) k this] l(5) show ?thesis by simp
  qed
  have clear: "one_category (charging_status s')"
    if c: "X \<in> charging_status s" "charging_status sa = charging_status s"
      "try_charger_enable depth e True sa = Some (r', sb)"
      "charging_status s' = charging_status sb - {X}" for sa r' sb
  proof -
    have "status_kept (charging_status sa) (charging_status sb)"
      using try_charger_enable_safe [of depth e] c(3) unfolding status_safe_def by blast
    then have k: "status_kept (charging_status s) (charging_status sb)"
      by (simp only: c(2))
    from guard_clear [OF assms(1) c(1) assms(3) k] c(4) show ?thesis by simp
  qed
  from assms(4) show ?thesis
  proof (elim disjE conjE exE)
    assume "s' = s"
    with assms(1) show ?thesis by simp
  next
    fix sa r' sb
    assume a: "charging_status s = {}" "charging_status sa = charging_status s"
      "enable_fast_charge sa = enable_fast_charge s"
      "try_charger_enable depth e False sa = Some (r', sb)"
      "charging_status s' = insert X (charging_status sb)"
    show ?thesis by (rule latch [OF disjI1 [OF a(1)] a(2-5)])
  next
    fix sa r' sb
    assume a: "X \<in> charging_status s" "charging_status sa = charging_status s"
      "enable_fast_charge sa = enable_fast_charge s"
      "try_charger_enable depth e False sa = Some (r', sb)"
      "charging_status s' = insert X (charging_status sb)"
    show ?thesis by (rule latch [OF disjI2 [OF a(1)] a(2-5)])
  next
    fix sa r' sb
    assume a: "X \<in> charging_status s" "charging_status sa = charging_status s"
      "try_charger_enable depth e True sa = Some (r', sb)"
      "charging_status s' = charging_status sb - {X}"
    show ?thesis by (rule clear [OF a])
  qed
qed

lemma adjuster_one_category:
  assumes "one_category (charging_status s)"
    and "cm_manager_adjust_current (try_charger_enable depth e) e zone s = Some (b, s')"
  shows "one_category (charging_status s')"
proof -
  note safe = try_charger_enable_safe [of depth e, unfolded status_safe_def, rule_format]
  from cm_manager_adjust_current_shape [OF assms(2)]
  consider (blocked) "s' = s"
    | (stop) s1 r s2 X where "\<not> (charging_status s \<noteq> {} \<and>
          CM_CHARGE_TEMP_OVERHEAT \<notin> charging_status s \<and> CM_CHARGE_TEMP_COLD \<notin> charging_status s)"
        "uevent_notify (Some ''Discharging'') s = Some s1"
        "try_charger_enable depth e False s1 = Some (r, s2)"
        "X \<in> {CM_CHARGE_TEMP_OVERHEAT, CM_CHARGE_TEMP_COLD}"
        "s' = s2\<lparr>charging_status := insert X (charging_status s2)\<rparr>"
    | (same) "charging_status s' = charging_status s"
    | (go) s1 r s2 where "\<not> (charging_status s \<noteq> {} \<and>
          CM_CHARGE_TEMP_OVERHEAT \<notin> charging_status s \<and> CM_CHARGE_TEMP_COLD \<notin> charging_status s)"
        "charging_status s1 = charging_status s"
        "try_charger_enable depth e True s1 = Some (r, s2)"
        "s' = s2\<lparr>charging_status := charging_status s2 -
                     {CM_CHARGE_TEMP_OVERHEAT, CM_CHARGE_TEMP_COLD}\<rparr>"
    by blast
  then show ?thesis
  proof cases
    case blocked
    with assms(1) show ?thesis by simp
  next
    case stop
    have t: "charging_status s \<subseteq> {CM_CHARGE_TEMP_OVERHEAT, CM_CHARGE_TEMP_COLD}"
      using assms(1) stop(1) by (auto simp add: one_category_def)
    have "status_kept (charging_status s) (charging_status s2)"
      using safe [OF stop(3)] uevent_notify_status [OF stop(2)] by simp
    with t have "charging_status s2 \<subseteq> {CM_CHARGE_TEMP_OVERHEAT, CM_CHARGE_TEMP_COLD}"
      by (auto simp add: status_kept_def)
    with stop(4,5) show ?thesis by (auto simp add: one_category_def)
  next
    case same
    with assms(1) show ?thesis by simp
  next
    case go
    have t: "charging_status s \<subseteq> {CM_CHARGE_TEMP_OVERHEAT, CM_CHARGE_TEMP_COLD}"
      using assms(1) go(1) by (auto simp add: one_category_def)
    have "status_kept (charging_status s) (charging_status s2)"
      using safe [OF go(3)] go(2) by simp
    with t have "charging_status s2 \<subseteq> {CM_CHARGE_TEMP_OVERHEAT, CM_CHARGE_TEMP_COLD}"
      by (auto simp add: status_kept_def)
    with go(4) show ?thesis by (auto simp add: one_category_def)
  qed
qed

text \<open>
  Where no fast charger is in use, a call stack one \<^verbatim>\<open>try_charger_enable\<close> deep is
  enough for the guards and the adjuster to return.
\<close>

lemma try_charger_enable_returns:
  assumes "no_fast_charge s"
  shows "\<exists>r s'. try_charger_enable (Suc depth) e enable s = Some (r, s')"
proof -
  have f: "try_fast_charger_enable (try_charger_enable depth e) e enable s =
             Some (if enable \<and> emergency_stop s \<noteq> CM_EVENT_UNKNOWN then - EAGAIN else 0, s)"
    using assms
    by (auto simp add: no_fast_charge_def try_fast_charger_enable_def
        cm_fast_charge_enable_check_def cm_fast_charge_disable_check_def
        cm_fast_charge_disable_def)
  show ?thesis
    by (simp add: try_charger_enable_body_def f split: prod.split)
qed

lemma uevent_notify_returns:
  "\<exists>sa. uevent_notify (Some ev) s = Some sa \<and> no_fast_charge sa = no_fast_charge s"
  by (simp add: uevent_notify_def kobject_uevent_def no_fast_charge_def)

lemma no_fast_charge_adjust_loop:
  "no_fast_charge (snd (adjust_current_loop e tv tc ret ns s)) = no_fast_charge s"
  by (induction ns arbitrary: s ret)
     (simp_all add: power_supply_set_property_def Let_def no_fast_charge_def)

lemma guards_return:
  assumes "no_fast_charge s"
  shows "check_charging_duration (try_charger_enable (Suc depth) e) e s \<noteq> None"
    and "cm_check_charge_voltage (try_charger_enable (Suc depth) e) e s \<noteq> None"
    and "cm_check_charge_health (try_charger_enable (Suc depth) e) e s \<noteq> None"
    and "cm_manager_adjust_current (try_charger_enable (Suc depth) e) e zone s \<noteq> None"
proof -
  obtain sd where d: "uevent_notify (Some ''Discharging'') s = Some sd" "no_fast_charge sd"
    using uevent_notify_returns [of "''Discharging''" s] assms by auto
  obtain sr where r: "uevent_notify (Some ''Recharging'') s = Some sr" "no_fast_charge sr"
    using uevent_notify_returns [of "''Recharging''" s] assms by auto
  obtain r1 s1 where 1: "try_charger_enable (Suc depth) e False sd = Some (r1, s1)"
    using try_charger_enable_returns [OF d(2)] by blast
  obtain r2 s2 where 2: "try_charger_enable (Suc depth) e True sr = Some (r2, s2)"
    using try_charger_enable_returns [OF r(2)] by blast
  show "check_charging_duration (try_charger_enable (Suc depth) e) e s \<noteq> None"
    using d(1) r(1) 1 2
    by (simp add: check_charging_duration_def Let_def split: prod.split del: try_charger_enable.simps)
  show "cm_check_charge_voltage (try_charger_enable (Suc depth) e) e s \<noteq> None"
    using d(1) r(1) 1 2
    by (simp add: cm_check_charge_voltage_def split: prod.split del: try_charger_enable.simps)
  show "cm_check_charge_health (try_charger_enable (Suc depth) e) e s \<noteq> None"
    using d(1) r(1) 1 2
    by (simp add: cm_check_charge_health_def split: prod.split del: try_charger_enable.simps)
  have l: "\<And>tv tc ret s1.
      adjust_current_loop e tv tc (- ENODEV) (psy_charger_stat s) s = (ret, s1) \<Longrightarrow>
      try_charger_enable (Suc depth) e True s1 \<noteq> None"
  proof -
    fix tv tc ret s1
    assume "adjust_current_loop e tv tc (- ENODEV) (psy_charger_stat s) s = (ret, s1)"
    with no_fast_charge_adjust_loop [of e tv tc "- ENODEV" "psy_charger_stat s" s] assms
    have "no_fast_charge s1" by simp
    from try_charger_enable_returns [OF this]
    show "try_charger_enable (Suc depth) e True s1 \<noteq> None" by simp
  qed
  show "cm_manager_adjust_current (try_charger_enable (Suc depth) e) e zone s \<noteq> None"
    using d(1) 1
    by (auto simp add: cm_manager_adjust_current_def Let_def split: prod.split
        simp del: try_charger_enable.simps dest!: l)
qed

text \<open>
  So a state whose charging status holds bits of at most one category is taken to such
  a state by the JEITA current adjuster, and by each of the three guards unless the
  guard finds the status empty with fast charge enabled: the case of the run above.
  And where no fast charger is in use, the four functions do return.
\<close>

theorem charging_status_one_category:
  assumes "one_category (charging_status s)"
  shows "((charging_status s = {} \<longrightarrow> \<not> enable_fast_charge s) \<longrightarrow>
            (\<forall>r s'. check_charging_duration (try_charger_enable depth e) e s = Some (r, s') \<longrightarrow>
               one_category (charging_status s')) \<and>
            (\<forall>r s'. cm_check_charge_voltage (try_charger_enable depth e) e s = Some (r, s') \<longrightarrow>
               one_category (charging_status s')) \<and>
            (\<forall>r s'. cm_check_charge_health (try_charger_enable depth e) e s = Some (r, s') \<longrightarrow>
               one_category (charging_status s'))) \<and>
         (\<forall>zone b s'.
            cm_manager_adjust_current (try_charger_enable depth e) e zone s = Some (b, s') \<longrightarrow>
              one_category (charging_status s')) \<and>
         (no_fast_charge s \<longrightarrow>
            check_charging_duration (try_charger_enable (Suc depth) e) e s \<noteq> None \<and>
            cm_check_charge_voltage (try_charger_enable (Suc depth) e) e s \<noteq> None \<and>
            cm_check_charge_health (try_charger_enable (Suc depth) e) e s \<noteq> None \<and>
            (\<forall>zone. cm_manager_adjust_current (try_charger_enable (Suc depth) e) e zone s \<noteq> None))"
proof (intro conjI impI allI)
  fix r s'
  assume f: "charging_status s = {} \<longrightarrow> \<not> enable_fast_charge s"
    and c: "check_charging_duration (try_charger_enable depth e) e s = Some (r, s')"
  show "one_category (charging_status s')"
    by (rule guard_one_category [OF assms f _ check_charging_duration_shape [OF c]]) simp
next
  fix r s'
  assume f: "charging_status s = {} \<longrightarrow> \<not> enable_fast_charge s"
    and c: "cm_check_charge_voltage (try_charger_enable depth e) e s = Some (r, s')"
  show "one_category (charging_status s')"
    by (rule guard_one_category [OF assms f _ cm_check_charge_voltage_shape [OF c]]) simp
next
  fix r s'
  assume f: "charging_status s = {} \<longrightarrow> \<not> enable_fast_charge s"
    and c: "cm_check_charge_health (try_charger_enable depth e) e s = Some (r, s')"
  show "one_category (charging_status s')"
    by (rule guard_one_category [OF assms f _ cm_check_charge_health_shape [OF c]]) simp
next
  fix zone b s'
  assume "cm_manager_adjust_current (try_charger_enable depth e) e zone s = Some (b, s')"
  with assms show "one_category (charging_status s')" by (rule adjuster_one_category)
next
  assume "no_fast_charge s"
  then show "check_charging_duration (try_charger_enable (Suc depth) e) e s \<noteq> None"
    by (rule guards_return)
next
  assume "no_fast_charge s"
  then show "cm_check_charge_voltage (try_charger_enable (Suc depth) e) e s \<noteq> None"
    by (rule guards_return)
next
  assume "no_fast_charge s"
  then show "cm_check_charge_health (try_charger_enable (Suc depth) e) e s \<noteq> None"
    by (rule guards_return)
next
  fix zone
  assume "no_fast_charge s"
  then show "cm_manager_adjust_current (try_charger_enable (Suc depth) e) e zone s \<noteq> None"
    by (rule guards_return)
qed

text \<open>
  The phone on its charger without fast charge, at -5 degrees and 11 V: the voltage
  guard leaves VOLTAGE alone in the status, the adjuster leaves COLD alone; and the
  guard returns when the charger is not a fast charger.
\<close>

theorem charging_status_one_category_witness:
  "one_category (charging_status overvoltage_world) \<and> \<not> enable_fast_charge overvoltage_world \<and>
   (\<exists>r s'. cm_check_charge_voltage (try_charger_enable 1 overvoltage_env) overvoltage_env
              overvoltage_world = Some (r, s') \<and>
           CM_CHARGE_VOLTAGE_ABNORMAL \<in> charging_status s' \<and> \<not> charger_enabled s' \<and>
           one_category (charging_status s')) \<and>
   (\<exists>b s'. cm_manager_adjust_current (try_charger_enable 1 overvoltage_env) overvoltage_env 0
              overvoltage_world = Some (b, s') \<and>
           CM_CHARGE_TEMP_COLD \<in> charging_status s' \<and> \<not> charger_enabled s' \<and>
           one_category (charging_status s')) \<and>
   no_fast_charge overvoltage_plain_world \<and>
   (\<exists>r s'. cm_check_charge_voltage (try_charger_enable 1 overvoltage_env) overvoltage_env
              overvoltage_plain_world = Some (r, s') \<and>
           one_category (charging_status s'))"
proof -
  have w: "charging_status overvoltage_world = {}" "\<not> enable_fast_charge overvoltage_world"
    "charging_status overvoltage_plain_world = {}" "\<not> enable_fast_charge overvoltage_plain_world"
    "no_fast_charge overvoltage_plain_world"
    by (simp_all add: overvoltage_plain_world_def overvoltage_world_def fchg_cfg_def
        cm_world_init_def no_fast_charge_def)
  then have oc: "one_category (charging_status overvoltage_world)"
    "one_category (charging_status overvoltage_plain_world)"
    by (simp_all add: one_category_def)
  have "case cm_check_charge_voltage (try_charger_enable 1 overvoltage_env) overvoltage_env
               overvoltage_world of
          None \<Rightarrow> False
        | Some (r, s') \<Rightarrow> CM_CHARGE_VOLTAGE_ABNORMAL \<in> charging_status s' \<and> \<not> charger_enabled s'"
    by code_simp
  then obtain r s1 where 1:
    "cm_check_charge_voltage (try_charger_enable 1 overvoltage_env) overvoltage_env
       overvoltage_world = Some (r, s1)"
    "CM_CHARGE_VOLTAGE_ABNORMAL \<in> charging_status s1" "\<not> charger_enabled s1"
    by (auto split: option.splits)
  have "case cm_manager_adjust_current (try_charger_enable 1 overvoltage_env) overvoltage_env 0
               overvoltage_world of
          None \<Rightarrow> False
        | Some (b, s') \<Rightarrow> CM_CHARGE_TEMP_COLD \<in> charging_status s' \<and> \<not> charger_enabled s'"
    by code_simp
  then obtain b s2 where 2:
    "cm_manager_adjust_current (try_charger_enable 1 overvoltage_env) overvoltage_env 0
       overvoltage_world = Some (b, s2)"
    "CM_CHARGE_TEMP_COLD \<in> charging_status s2" "\<not> charger_enabled s2"
    by (auto split: option.splits)
  note t = charging_status_one_category [OF oc(1), of 1 overvoltage_env]
  from t w(2) 1(1) have a: "one_category (charging_status s1)" by blast
  from t 2(1) have b: "one_category (charging_status s2)" by blast
  note u = charging_status_one_category [OF oc(2), of 0 overvoltage_env]
  from u w(5) obtain r3 s3 where 3:
    "cm_check_charge_voltage (try_charger_enable 1 overvoltage_env) overvoltage_env
       overvoltage_plain_world = Some (r3, s3)"
    by (auto simp del: try_charger_enable.simps)
  note v = charging_status_one_category [OF oc(2), of 1 overvoltage_env]
  from v w(4) 3 have c: "one_category (charging_status s3)" by blast
  from oc w(2,5) 1 2 3 a b c show ?thesis by blast
qed

subsection \<open>Leaving fast charge in the cold\<close>

lemma fast_charge_cold_frame:
  "fast_charge_frame s' = fast_charge_frame s \<Longrightarrow> fast_charge_cold e s' = fast_charge_cold e s"
  by (simp add: fast_charge_frame_def fast_charge_cold_def)

lemma fast_charge_frame_updates [simp]:
  "fast_charge_frame (s\<lparr>effects := a\<rparr>) = fast_charge_frame s"
  "fast_charge_frame (s\<lparr>charge_voltage_max := b\<rparr>) = fast_charge_frame s"
  "fast_charge_frame (s\<lparr>charge_voltage_drop := c\<rparr>) = fast_charge_frame s"
  "fast_charge_frame (s\<lparr>jeita_tab := d\<rparr>) = fast_charge_frame s"
  "fast_charge_frame (s\<lparr>jeita_status := f\<rparr>) = fast_charge_frame s"
  "fast_charge_frame (s\<lparr>env_str := g\<rparr>) = fast_charge_frame s"
  "fast_charge_frame (s\<lparr>env_str_save := h\<rparr>) = fast_charge_frame s"
  by (simp_all add: fast_charge_frame_def)

lemma writes_succeed:
  assumes "\<forall>h n p v. psy_set e h n p v = 0" and "fast_charge_cold e s"
  shows "fst (cm_enable_second_charger e b s) = 0"
    and "fast_charge_frame (snd (cm_enable_second_charger e b s)) = fast_charge_frame s"
    and "fst (cm_adjust_fast_charge_voltage e v s) = 0"
    and "fast_charge_frame (snd (cm_adjust_fast_charge_voltage e v s)) = fast_charge_frame s"
    and "fst (cm_set_main_charger_current e c s) = 0"
    and "fast_charge_frame (snd (cm_set_main_charger_current e c s)) = fast_charge_frame s"
  using assms
  by (auto simp add: cm_enable_second_charger_def cm_adjust_fast_charge_voltage_def
      cm_set_main_charger_current_def power_supply_set_property_def fast_charge_cold_def
      Let_def split: list.splits)

lemma fast_charge_cold_updates [simp]:
  "fast_charge_cold e (s\<lparr>effects := a\<rparr>) = fast_charge_cold e s"
  "fast_charge_cold e (s\<lparr>charge_voltage_max := b\<rparr>) = fast_charge_cold e s"
  "fast_charge_cold e (s\<lparr>charge_voltage_drop := c\<rparr>) = fast_charge_cold e s"
  "fast_charge_cold e (s\<lparr>jeita_tab := d\<rparr>) = fast_charge_cold e s"
  "fast_charge_cold e (s\<lparr>jeita_status := f\<rparr>) = fast_charge_cold e s"
  "fast_charge_cold e (s\<lparr>env_str := g\<rparr>) = fast_charge_cold e s"
  "fast_charge_cold e (s\<lparr>env_str_save := h\<rparr>) = fast_charge_cold e s"
  by (rule fast_charge_cold_frame, simp)+

lemma uevent_notify_cold:
  "case uevent_notify (Some ev) s of
     None \<Rightarrow> False
   | Some s' \<Rightarrow> fast_charge_cold e s' = fast_charge_cold e s"
  by (simp add: uevent_notify_def kobject_uevent_def)

lemma cm_manager_adjust_current_cold:
  assumes c: "fast_charge_cold e s"
    and t: "\<And>s'. fast_charge_cold e s' \<Longrightarrow> tce False s' = None"
  shows "cm_manager_adjust_current tce e 0 s = None"
proof -
  have f: "charging_status s = {}" "0 < jeita_tab_size s"
    using c by (simp_all add: fast_charge_cold_def)
  obtain s7 where 7: "uevent_notify (Some ''Discharging'') s = Some s7"
    "fast_charge_cold e s7 = fast_charge_cold e s"
    using uevent_notify_cold [where ev = "''Discharging''" and s = s and e = e]
    by (cases "uevent_notify (Some ''Discharging'') s") simp_all
  have "tce False s7 = None" using c 7(2) by (simp add: t)
  thus ?thesis by (simp add: cm_manager_adjust_current_def f 7(1))
qed

lemma cm_manager_get_jeita_status_cold:
  assumes "fast_charge_cold e s"
  shows "cm_manager_get_jeita_status (temperature s)
           (s\<lparr>jeita_tab := jeita_tab_array s CM_JEITA_DCP\<rparr>) =
         (0, s\<lparr>jeita_tab := jeita_tab_array s CM_JEITA_DCP, jeita_status := 0\<rparr>)"
  using assms by (simp add: cm_manager_get_jeita_status_def fast_charge_cold_def Let_def)

lemma fast_charge_jeita_adjust_cold:
  assumes c: "fast_charge_cold e s"
    and t: "\<And>s'. fast_charge_cold e s' \<Longrightarrow> tce False s' = None"
  shows "fast_charge_jeita_adjust tce e CM_JEITA_DCP s = None"
proof -
  have f: "jeita_tab_size s \<noteq> 0" "\<not> jeita_disabled s"
    using c by (simp_all add: fast_charge_cold_def)
  have "cm_manager_adjust_current tce e 0
          (s\<lparr>jeita_tab := jeita_tab_array s CM_JEITA_DCP, jeita_status := 0\<rparr>) = None"
    by (rule cm_manager_adjust_current_cold) (simp_all add: c t)
  thus ?thesis
    by (simp add: fast_charge_jeita_adjust_def f Let_def cm_manager_get_jeita_status_cold [OF c])
qed

lemma cm_fast_charge_disable_steps:
  assumes "enable_fast_charge s"
    and "cm_enable_second_charger e False s = (0, s1)"
    and "cm_adjust_fast_charge_voltage e CM_FAST_CHARGE_VOLTAGE_5V s1 = (0, s2)"
    and "cm_set_main_charger_current e (CM_FAST_CHARGE_DISABLE_CMD e) s2 = (0, s3)"
    and "\<And>s4. fast_charge_cold e s4 \<Longrightarrow> fast_charge_jeita_adjust tce e CM_JEITA_DCP s4 = None"
    and "fast_charge_cold e s3"
  shows "cm_fast_charge_disable tce e s = None"
  unfolding cm_fast_charge_disable_def
  by (simp only: assms if_False if_True prod.case not_True_eq_False simp_thms Let_def
      fast_charge_cold_updates bind.bind_lzero)

lemma cm_fast_charge_disable_cold:
  assumes w: "\<forall>h n p v. psy_set e h n p v = 0" and c: "fast_charge_cold e s"
    and t: "\<And>s'. fast_charge_cold e s' \<Longrightarrow> tce False s' = None"
  shows "cm_fast_charge_disable tce e s = None"
proof -
  have f: "enable_fast_charge s" using c by (simp add: fast_charge_cold_def)
  define s1 where "s1 = snd (cm_enable_second_charger e False s)"
  have 1: "cm_enable_second_charger e False s = (0, s1)"
    using writes_succeed(1) [OF w c, of False] by (simp add: s1_def prod_eq_iff)
  have fr1: "fast_charge_frame s1 = fast_charge_frame s"
    unfolding s1_def using w c by (rule writes_succeed(2))
  have c1: "fast_charge_cold e s1" using fast_charge_cold_frame [OF fr1, of e] c by simp
  define s2 where "s2 = snd (cm_adjust_fast_charge_voltage e CM_FAST_CHARGE_VOLTAGE_5V s1)"
  have 2: "cm_adjust_fast_charge_voltage e CM_FAST_CHARGE_VOLTAGE_5V s1 = (0, s2)"
    using writes_succeed(3) [OF w c1, of CM_FAST_CHARGE_VOLTAGE_5V]
    by (simp add: s2_def prod_eq_iff)
  have fr2: "fast_charge_frame s2 = fast_charge_frame s1"
    unfolding s2_def using w c1 by (rule writes_succeed(4))
  have c2: "fast_charge_cold e s2" using fast_charge_cold_frame [OF fr2, of e] c1 by simp
  define s3 where "s3 = snd (cm_set_main_charger_current e (CM_FAST_CHARGE_DISABLE_CMD e) s2)"
  have 3: "cm_set_main_charger_current e (CM_FAST_CHARGE_DISABLE_CMD e) s2 = (0, s3)"
    using writes_succeed(5) [OF w c2, of "CM_FAST_CHARGE_DISABLE_CMD e"]
    by (simp add: s3_def prod_eq_iff)
  have fr3: "fast_charge_frame s3 = fast_charge_frame s2"
    unfolding s3_def using w c2 by (rule writes_succeed(6))
  have c3: "fast_charge_cold e s3" using fast_charge_cold_frame [OF fr3, of e] c2 by simp
  have a: "\<And>s4. fast_charge_cold e s4 \<Longrightarrow> fast_charge_jeita_adjust tce e CM_JEITA_DCP s4 = None"
    by (rule fast_charge_jeita_adjust_cold) (simp_all add: t)
  from f 1 2 3 a c3 show ?thesis by (rule cm_fast_charge_disable_steps)
qed

lemma try_charger_enable_cold:
  assumes "\<forall>h n p v. psy_set e h n p v = 0"
  shows "fast_charge_cold e s \<Longrightarrow> try_charger_enable depth e False s = None"
proof (induction depth arbitrary: s)
  case 0
  show ?case by simp
next
  case (Suc depth)
  have "cm_fast_charge_disable (try_charger_enable depth e) e s = None"
    using assms Suc.prems Suc.IH by (rule cm_fast_charge_disable_cold)
  thus ?case by (simp add: try_charger_enable_body_def try_fast_charger_enable_def)
qed

text \<open>
  Leaving fast charge below the coldest JEITA zone does not return when every write
  succeeds. With fast charge enabled, nothing latched and the temperature below the
  first row of the table, \<^verbatim>\<open>try_charger_enable(cm, false)\<close> calls \<^verbatim>\<open>cm_fast_charge_disable\<close>,
  which after its three writes calls \<^verbatim>\<open>cm_manager_adjust_current\<close> for zone 0, which calls
  \<^verbatim>\<open>try_charger_enable(cm, false)\<close> again; \<^verbatim>\<open>enable_fast_charge\<close> is cleared only after
  the adjuster has returned, so the inner call starts the same way. No depth of call
  stack is enough.
\<close>

theorem try_charger_enable_never_returns:
  assumes "\<forall>h n p v. psy_set e h n p v = 0" and "fast_charge_cold e s"
  shows "try_charger_enable depth e False s = None"
  using assms by (rule try_charger_enable_cold)

theorem try_charger_enable_never_returns_witness:
  "fast_charge_cold (fchg_env (\<lambda>h n p v. 0))
     (fchg_cfg\<lparr>enable_fast_charge := True, temperature := - 50\<rparr>) \<and>
   try_charger_enable 1000 (fchg_env (\<lambda>h n p v. 0)) False
     (fchg_cfg\<lparr>enable_fast_charge := True, temperature := - 50\<rparr>) = None"
proof -
  have a: "fast_charge_cold (fchg_env (\<lambda>h n p v. 0))
     (fchg_cfg\<lparr>enable_fast_charge := True, temperature := - 50\<rparr>)"
    by code_simp
  have b: "\<forall>h n p v. psy_set (fchg_env (\<lambda>h n p v. 0)) h n p v = 0"
    by (simp add: fchg_env_def)
  from try_charger_enable_never_returns [OF b a, of 1000] a show ?thesis by simp
qed

subsection \<open>Further properties\<close>

text \<open>
  While the phone is suspended \<^verbatim>\<open>uevent_notify\<close> sends nothing. It keeps the first 32
  characters of the new message in \<^verbatim>\<open>env_str_save\<close>, unless the message repeats the one
  kept there or, when none is kept, the one delivered last.
\<close>

theorem uevent_notify_suspended:
  assumes "cm_suspended s"
  shows "uevent_notify (Some ev) s =
           Some (if take UEVENT_BUF_SIZE (if env_str_save s = [] then env_str s else env_str_save s) =
                    take UEVENT_BUF_SIZE ev
                 then s else s\<lparr>env_str_save := take UEVENT_BUF_SIZE ev\<rparr>)"
  using assms by (simp add: uevent_notify_def)

theorem uevent_notify_suspended_witness:
  "uevent_notify (Some ''Discharging'') (gauge_world\<lparr>cm_suspended := True, env_str := ''Charging''\<rparr>) =
     Some (gauge_world\<lparr>cm_suspended := True, env_str := ''Charging'',
             env_str_save := ''Discharging''\<rparr>) \<and>
   uevent_notify (Some ''Charging'') (gauge_world\<lparr>cm_suspended := True, env_str := ''Charging''\<rparr>) =
     Some (gauge_world\<lparr>cm_suspended := True, env_str := ''Charging''\<rparr>)"
  using uevent_notify_suspended
      [of "gauge_world\<lparr>cm_suspended := True, env_str := ''Charging''\<rparr>" "''Discharging''"]
    uevent_notify_suspended
      [of "gauge_world\<lparr>cm_suspended := True, env_str := ''Charging''\<rparr>" "''Charging''"]
  by (simp add: gauge_world_def cm_world_init_def)

text \<open>
  The capacity-update step divides by \<^verbatim>\<open>cap_one_time\<close>. With a \<^verbatim>\<open>cap_one_time\<close> of zero the
  step has no result as soon as the gauge reads above the reported capacity while
  charging, or below it while charging with current leaving the battery, or below it on
  battery with the reported capacity under 95.5 percent.
\<close>

theorem cm_batt_works_switch_divides:
  assumes "cap_one_time s = 0"
    and "(charger_status s = POWER_SUPPLY_STATUS_CHARGING \<and>
            (cap s < fuel_cap \<or> fuel_cap < cap s \<and> bat_uA < 0)) \<or>
         ((charger_status s = POWER_SUPPLY_STATUS_NOT_CHARGING \<or>
           charger_status s = POWER_SUPPLY_STATUS_DISCHARGING) \<and>
            fuel_cap < cap s \<and> cap s < CM_HCAP_THRESHOLD)"
  shows "cm_batt_works_switch e now batt_ocV bat_uA period_time flush_time fuel_cap s = None"
  using assms
  by (auto simp add: cm_batt_works_switch_def cap_limit_up_def cap_limit_down_def
      cap_limit_down_idle_def flush_step_def Let_def)

theorem cm_batt_works_switch_divides_witness:
  "map_option cap (cm_batt_works (gauge_env 1 700 0 60) (charging_world\<lparr>cap_one_time := 0\<rparr>)) = None \<and>
   cm_batt_works_switch (gauge_env 1 700 0 60) 60 4000000 200000 60 60 700
     (charging_world\<lparr>cap_one_time := 0, charger_status := POWER_SUPPLY_STATUS_CHARGING\<rparr>) = None"
proof (intro conjI)
  show "map_option cap
      (cm_batt_works (gauge_env 1 700 0 60) (charging_world\<lparr>cap_one_time := 0\<rparr>)) = None"
    by code_simp
  show "cm_batt_works_switch (gauge_env 1 700 0 60) 60 4000000 200000 60 60 700
     (charging_world\<lparr>cap_one_time := 0, charger_status := POWER_SUPPLY_STATUS_CHARGING\<rparr>) = None"
    by (rule cm_batt_works_switch_divides)
       (simp_all add: charging_world_def gauge_world_def cm_world_init_def)
qed

end
